(* ===== verification/Prelude.thy ===== *)
theory Prelude
  imports Main "HOL-Library.Word"
begin

text \<open>
  The development's prelude: the machine integers of the Rust code as words, the
  little-endian codec every wire format of the program is written in, and the generic list
  facts and hint collections the component theories share.

  \<^item> \<open>u8\<close>, \<open>u16\<close>, \<open>u32\<close>, \<open>u64\<close> are \<^typ>\<open>8 word\<close> up to \<^typ>\<open>64 word\<close>; a signed
    integer of the source is the word of its width, read with \<^const>\<open>sint\<close>.
  \<^item> \<open>usize\<close> is \<^typ>\<open>nat\<close>: it only ever holds lengths of buffers that exist or widened
    \<open>u32\<close> values (the targets of the program are 64-bit); where the source subtracts on
    \<open>usize\<close>, the underflow is written out as a panic.
  \<^item> \<open>from_le_bytes\<close> and \<open>to_le_bytes\<close> are Rust's conversions of those names.
\<close>

section \<open>Machine integers\<close>

type_synonym u8 = "8 word"
type_synonym u16 = "16 word"
type_synonym u32 = "32 word"
type_synonym u64 = "64 word"
type_synonym bytes = "u8 list"

named_theorems wire_simps \<open>lengths and round trips of the little-endian wire format\<close>

section \<open>Little-endian bytes\<close>

fun le_nat :: "bytes \<Rightarrow> nat" where
  "le_nat [] = 0"
| "le_nat (b # bs) = unat b + 256 * le_nat bs"

fun nat_le :: "nat \<Rightarrow> nat \<Rightarrow> bytes" where
  "nat_le 0 k = []"
| "nat_le (Suc n) k = of_nat k # nat_le n (k div 256)"

definition from_le_bytes :: "bytes \<Rightarrow> 'a::len word" where
  "from_le_bytes bs = of_nat (le_nat bs)"

definition to_le_bytes :: "'a::len word \<Rightarrow> bytes" where
  "to_le_bytes w = nat_le (LENGTH('a) div 8) (unat w)"

lemma nat_le_numeral [simp]:
  "nat_le (numeral n) k = of_nat k # nat_le (pred_numeral n) (k div 256)"
  unfolding numeral_eq_Suc [of n] nat_le.simps ..

lemma length_nat_le [simp]: "length (nat_le n k) = n"
  by (induction n arbitrary: k) auto

lemma unat_u8_bound: "unat (b :: u8) < 256"
  using unsigned_less [of b] by simp

lemma le_nat_bound: "le_nat bs < 256 ^ length bs"
proof (induction bs)
  case (Cons b bs)
  then have "le_nat bs + 1 \<le> 256 ^ length bs"
    by simp
  then have "256 * (le_nat bs + 1) \<le> 256 * 256 ^ length bs"
    by (rule mult_le_mono2)
  with unat_u8_bound [of b] show ?case
    by simp
qed simp

lemma le_nat_nat_le [simp]: "le_nat (nat_le n k) = k mod 256 ^ n"
proof (induction n arbitrary: k)
  case (Suc n)
  have "unat (of_nat k :: u8) = k mod 256"
    by (simp add: unat_of_nat)
  with Suc show ?case
    by (simp add: mod_mult2_eq)
qed simp

lemma nat_le_le_nat: "length bs = n \<Longrightarrow> nat_le n (le_nat bs) = bs"
proof (induction bs arbitrary: n)
  case (Cons b bs)
  then obtain m where m: "n = Suc m" "length bs = m"
    by auto
  have "(of_nat (256 * le_nat bs) :: u8) = 0"
    unfolding word_of_nat_eq_0_iff by simp
  then have "(of_nat (unat b + 256 * le_nat bs) :: u8) = b"
    unfolding of_nat_add by (simp del: of_nat_mult)
  moreover have "(unat b + 256 * le_nat bs) div 256 = le_nat bs"
    using unat_u8_bound [of b] by simp
  ultimately show ?case
    using Cons.IH [OF m(2)] m(1) by simp
qed simp

lemma length_to_le_bytes [wire_simps]:
  "length (to_le_bytes (w :: 'a::len word)) = LENGTH('a) div 8"
  by (simp add: to_le_bytes_def)

lemma from_to_le_bytes [wire_simps]:
  assumes "8 dvd LENGTH('a::len)"
  shows "from_le_bytes (to_le_bytes (w :: 'a word)) = w"
proof -
  obtain n where n: "LENGTH('a) = 8 * n"
    using assms by (auto elim: dvdE)
  have "(256 :: nat) ^ n = 2 ^ LENGTH('a)"
    by (simp add: n power_mult)
  moreover have "unat w < 2 ^ LENGTH('a)"
    by (rule unsigned_less)
  ultimately show ?thesis
    by (simp add: from_le_bytes_def to_le_bytes_def n)
qed

lemma to_from_le_bytes [wire_simps]:
  assumes "length bs = LENGTH('a) div 8" and "8 dvd LENGTH('a::len)"
  shows "to_le_bytes (from_le_bytes bs :: 'a word) = bs"
proof -
  obtain n where n: "LENGTH('a) = 8 * n"
    using assms by (auto elim: dvdE)
  have len: "length bs = n"
    using assms n by simp
  have "(256 :: nat) ^ n = 2 ^ LENGTH('a)"
    by (simp add: n power_mult)
  then have "unat (of_nat (le_nat bs) :: 'a word) = le_nat bs"
    using le_nat_bound [of bs] len by (simp add: unat_of_nat)
  then show ?thesis
    using nat_le_le_nat [OF len] by (simp add: from_le_bytes_def to_le_bytes_def n)
qed

lemma unat_from_le_bytes:
  assumes "length bs = LENGTH('a) div 8" and "8 dvd LENGTH('a::len)"
  shows "unat (from_le_bytes bs :: 'a word) = le_nat bs"
proof -
  obtain n where n: "LENGTH('a) = 8 * n"
    using assms by (auto elim: dvdE)
  have "(256 :: nat) ^ n = 2 ^ LENGTH('a)"
    by (simp add: n power_mult)
  then show ?thesis
    using le_nat_bound [of bs] assms(1) n by (simp add: from_le_bytes_def unat_of_nat)
qed

lemma unat_of_nat_u32: "n < 2 ^ 32 \<Longrightarrow> unat (of_nat n :: u32) = n"
  by (simp add: unat_of_nat)

section \<open>Lists and strings\<close>

text \<open>
  A Rust \<open>String\<close> or \<open>&str\<close> is its UTF-8 bytes, a \<^typ>\<open>string\<close> (a HOL character is a
  byte); \<open>as_bytes\<close> is the same sequence as words.
\<close>

definition as_bytes :: "string \<Rightarrow> bytes" where
  "as_bytes s = map (\<lambda>c. of_nat (of_char c)) s"

definition of_bytes :: "bytes \<Rightarrow> string" where
  "of_bytes bs = map (\<lambda>b. char_of (unat b)) bs"

lemma length_as_bytes [simp]: "length (as_bytes s) = length s"
  by (simp add: as_bytes_def)

lemma length_of_bytes [simp]: "length (of_bytes s) = length s"
  by (simp add: of_bytes_def)

lemma unat_byte_of_char: "unat (of_nat (of_char c) :: u8) = of_char c"
  by (simp add: unat_of_nat)

lemma of_bytes_as_bytes [simp]: "of_bytes (as_bytes s) = s"
  by (simp add: of_bytes_def as_bytes_def unat_byte_of_char comp_def)

lemma as_bytes_of_bytes [simp]: "as_bytes (of_bytes bs) = bs"
proof -
  have "(of_nat (of_char (char_of (unat b) :: char)) :: u8) = b" for b :: u8
    using unat_u8_bound [of b] by simp
  then show ?thesis
    by (simp add: of_bytes_def as_bytes_def comp_def)
qed

lemma as_bytes_inject [simp]: "as_bytes s = as_bytes t \<longleftrightarrow> s = t"
  by (metis of_bytes_as_bytes)

end
