(* ===== verification/Errors.thy ===== *)
theory Errors
  imports Prelude
begin

text \<open>
  The program's error values and outcomes (\<open>src/error.rs\<close>): the error enum, the \<open>ctx\<close>
  adapters that turn an IO error into one, the table of ADS result codes and its lookup
  \<open>ads_error\<close>.

  Every fallible function of the program is modelled with the type \<open>'a res\<close> below:
  the \<open>Ok\<close> and \<open>Err\<close> of Rust's \<open>Result\<close>, and \<open>Panic\<close> for the branches where the code
  panics (a slice out of range, a failed assertion, an arithmetic overflow), so that the
  absence of panics is a statement of the theorems and not a convention of the model.
  The operator \<open>?\<close> is \<open>bindR\<close>.
\<close>

section \<open>Errors\<close>

text \<open>
  \<open>std::io::Error\<close>, as far as the program looks at it: its kind, and whether it carries an
  operating system code or a custom payload, both of which \<open>Error::clone\<close> drops.
\<close>

datatype io_kind = UnexpectedEof | TimedOut | InvalidData | OtherKind nat

datatype io_error =
    IoSimple io_kind
  | IoOs io_kind int
  | IoCustom io_kind string

primrec kind :: "io_error \<Rightarrow> io_kind" where
  "kind (IoSimple k) = k"
| "kind (IoOs k code) = k"
| "kind (IoCustom k payload) = k"

datatype symbol_type_tree_error = MissingSymbolTypeInfo string

datatype error =
    Io string io_error
  | Ads string string u32
  | Reply string string u32
  | Overflow
  | IoSync string string u32
  | SymbolTypeTreeErr symbol_type_tree_error
  | Disconnected
  | Other string

datatype 'a res = Ok 'a | Err error | Panic

primrec bindR :: "'a res \<Rightarrow> ('a \<Rightarrow> 'b res) \<Rightarrow> 'b res" where
  "bindR (Ok x) f = f x"
| "bindR (Err e) f = Err e"
| "bindR Panic f = Panic"

primrec mapR :: "('a \<Rightarrow> 'b) \<Rightarrow> 'a res \<Rightarrow> 'b res" where
  "mapR f (Ok x) = Ok (f x)"
| "mapR f (Err e) = Err e"
| "mapR f Panic = Panic"

primrec is_ok :: "'a res \<Rightarrow> bool" where
  "is_ok (Ok x) = True"
| "is_ok (Err e) = False"
| "is_ok Panic = False"

lemma bindR_eq_Ok: "bindR m f = Ok y \<longleftrightarrow> (\<exists>x. m = Ok x \<and> f x = Ok y)"
  by (cases m) auto

lemma bindR_eq_Err: "bindR m f = Err e \<longleftrightarrow> m = Err e \<or> (\<exists>x. m = Ok x \<and> f x = Err e)"
  by (cases m) auto

lemma bindR_eq_Panic: "bindR m f = Panic \<longleftrightarrow> m = Panic \<or> (\<exists>x. m = Ok x \<and> f x = Panic)"
  by (cases m) auto

lemma bindR_assoc: "bindR (bindR m f) g = bindR m (\<lambda>x. bindR (f x) g)"
  by (cases m) auto

lemma bindR_cong [fundef_cong]:
  "m = m' \<Longrightarrow> (\<And>x. m' = Ok x \<Longrightarrow> f x = g x) \<Longrightarrow> bindR m f = bindR m' g"
  by (cases m') auto

lemma mapR_eq_Ok: "mapR f m = Ok y \<longleftrightarrow> (\<exists>x. m = Ok x \<and> y = f x)"
  by (cases m) auto

lemma is_ok_iff: "is_ok m \<longleftrightarrow> (\<exists>x. m = Ok x)"
  by (cases m) auto

lemmas bindR_iffs = bindR_eq_Ok bindR_eq_Err bindR_eq_Panic

text \<open>
  The \<open>async\<close> methods change state as they go, on their error paths too: an operation takes
  the state and returns its outcome with the new state; \<open>bindS\<close> is \<open>.await?\<close>.
\<close>

type_synonym ('s, 'a) op = "'s \<Rightarrow> 'a res \<times> 's"

definition returnS :: "'a res \<Rightarrow> ('s, 'a) op" where
  "returnS r s = (r, s)"

definition bindS :: "('s, 'a) op \<Rightarrow> ('a \<Rightarrow> ('s, 'b) op) \<Rightarrow> ('s, 'b) op" where
  "bindS m f s =
     (case m s of
        (Ok x, s') \<Rightarrow> f x s'
      | (Err e, s') \<Rightarrow> (Err e, s')
      | (Panic, s') \<Rightarrow> (Panic, s'))"

lemma bindS_Ok [simp]: "m s = (Ok x, s') \<Longrightarrow> bindS m f s = f x s'"
  by (simp add: bindS_def)

lemma bindS_Err [simp]: "m s = (Err e, s') \<Longrightarrow> bindS m f s = (Err e, s')"
  by (simp add: bindS_def)

lemma bindS_Panic [simp]: "m s = (Panic, s') \<Longrightarrow> bindS m f s = (Panic, s')"
  by (simp add: bindS_def)

lemma returnS_apply [simp]: "returnS r s = (r, s)"
  by (simp add: returnS_def)

text \<open>A property of the state that both parts of a composition keep is kept by the whole.\<close>

definition keeps :: "('s \<Rightarrow> bool) \<Rightarrow> ('s, 'a) op \<Rightarrow> bool" where
  "keeps P m \<longleftrightarrow> (\<forall>s. P s \<longrightarrow> P (snd (m s)))"

lemma keepsD: "keeps P m \<Longrightarrow> P s \<Longrightarrow> P (snd (m s))"
  by (simp add: keeps_def)

lemma keeps_returnS [intro, simp]: "keeps P (returnS r)"
  by (simp add: keeps_def)

lemma keeps_bindS [intro]:
  assumes "keeps P m" and "\<And>x. keeps P (f x)"
  shows "keeps P (bindS m f)"
  unfolding keeps_def
proof (intro allI impI)
  fix s
  assume "P s"
  then have "P (snd (m s))"
    by (rule keepsD [OF assms(1)])
  then show "P (snd (bindS m f s))"
    using assms(2) by (auto simp: bindS_def keeps_def split: prod.split res.split)
qed

section \<open>Cloning an error\<close>

text \<open>\<open>std::io::Error\<close> is not \<open>Clone\<close>; the copy keeps the kind only.\<close>

fun error_clone :: "error \<Rightarrow> error" where
  "error_clone (Io ctx e) = Io ctx (IoSimple (kind e))"
| "error_clone (Ads ctx e i) = Ads ctx e i"
| "error_clone (Reply ctx e i) = Reply ctx e i"
| "error_clone Overflow = Overflow"
| "error_clone (IoSync ctx e i) = IoSync ctx e i"
| "error_clone (SymbolTypeTreeErr e) = SymbolTypeTreeErr e"
| "error_clone Disconnected = Disconnected"
| "error_clone (Other ctx) = Other ctx"

lemma error_clone_idem [simp]: "error_clone (error_clone e) = error_clone e"
  by (cases e) auto

section \<open>Contexts\<close>

text \<open>\<open>ErrContext::ctx\<close> on an IO result, and on one under a tokio timeout.\<close>

fun ctx_io :: "string \<Rightarrow> io_error + 'a \<Rightarrow> 'a res" where
  "ctx_io context (Inr x) = Ok x"
| "ctx_io context (Inl e) = Err (Io context e)"

datatype 'a timeout_result = Elapsed string | InTime 'a

fun ctx_timeout :: "string \<Rightarrow> (io_error + 'a) timeout_result \<Rightarrow> 'a res" where
  "ctx_timeout context (Elapsed e) = Err (Io context (IoCustom TimedOut e))"
| "ctx_timeout context (InTime v) = ctx_io context v"

section \<open>ADS result codes\<close>

definition ADS_ERRORS :: "(u32 \<times> string) list" where
  "ADS_ERRORS = [
   (0x001, ''Internal error''),
   (0x002, ''No real-time''),
   (0x003, ''Allocation locked - memory error''),
   (0x004, ''Mailbox full - ADS message could not be sent''),
   (0x005, ''Wrong receive HMSG''),
   (0x006, ''Target port not found, possibly ADS server not started''),
   (0x007, ''Target machine not found, possibly missing ADS routes''),
   (0x008, ''Unknown command ID''),
   (0x009, ''Invalid task ID''),
   (0x00A, ''No IO''),
   (0x00B, ''Unknown AMS command''),
   (0x00C, ''Win32 error''),
   (0x00D, ''Port not connected''),
   (0x00E, ''Invalid AMS length''),
   (0x00F, ''Invalid AMS NetID''),
   (0x010, ''Low installation level''),
   (0x011, ''No debugging available''),
   (0x012, ''Port disabled - system service not started''),
   (0x013, ''Port already connected''),
   (0x014, ''AMS Sync Win32 error''),
   (0x015, ''AMS Sync timeout''),
   (0x016, ''AMS Sync error''),
   (0x017, ''AMS Sync no index map''),
   (0x018, ''Invalid AMS port''),
   (0x019, ''No memory''),
   (0x01A, ''TCP send error''),
   (0x01B, ''Host unreachable''),
   (0x01C, ''Invalid AMS fragment''),
   (0x01D, ''TLS send error - secure ADS connection failed''),
   (0x01E, ''Access denied - secure ADS access denied''),
   (0x500, ''Router: no locked memory''),
   (0x501, ''Router: memory size could not be changed''),
   (0x502, ''Router: mailbox full''),
   (0x503, ''Router: debug mailbox full''),
   (0x504, ''Router: port type is unknown''),
   (0x505, ''Router is not initialized''),
   (0x506, ''Router: desired port number is already assigned''),
   (0x507, ''Router: port not registered''),
   (0x508, ''Router: maximum number of ports reached''),
   (0x509, ''Router: port is invalid''),
   (0x50A, ''Router is not active''),
   (0x50B, ''Router: mailbox full for fragmented messages''),
   (0x50C, ''Router: fragment timeout occurred''),
   (0x50D, ''Router: port removed''),
   (0x700, ''General device error''),
   (0x701, ''Service is not supported by server''),
   (0x702, ''Invalid index group''),
   (0x703, ''Invalid index offset''),
   (0x704, ''Reading/writing not permitted''),
   (0x705, ''Parameter size not correct''),
   (0x706, ''Invalid parameter value(s)''),
   (0x707, ''Device is not in a ready state''),
   (0x708, ''Device is busy''),
   (0x709, ''Invalid OS context -> use multi-task data access''),
   (0x70A, ''Out of memory''),
   (0x70B, ''Invalid parameter value(s)''),
   (0x70C, ''Not found (files, ...)''),
   (0x70D, ''Syntax error in command or file''),
   (0x70E, ''Objects do not match''),
   (0x70F, ''Object already exists''),
   (0x710, ''Symbol not found''),
   (0x711, ''Symbol version invalid -> create a new handle''),
   (0x712, ''Server is in an invalid state''),
   (0x713, ''AdsTransMode not supported''),
   (0x714, ''Notification handle is invalid''),
   (0x715, ''Notification client not registered''),
   (0x716, ''No more notification handles''),
   (0x717, ''Notification size too large''),
   (0x718, ''Device not initialized''),
   (0x719, ''Device has a timeout''),
   (0x71A, ''Query interface failed''),
   (0x71B, ''Wrong interface required''),
   (0x71C, ''Class ID is invalid''),
   (0x71D, ''Object ID is invalid''),
   (0x71E, ''Request is pending''),
   (0x71F, ''Request is aborted''),
   (0x720, ''Signal warning''),
   (0x721, ''Invalid array index''),
   (0x722, ''Symbol not active -> release handle and try again''),
   (0x723, ''Access denied''),
   (0x724, ''No license found -> activate license''),
   (0x725, ''License expired''),
   (0x726, ''License exceeded''),
   (0x727, ''License invalid''),
   (0x728, ''Invalid system ID in license''),
   (0x729, ''License not time limited''),
   (0x72A, ''License issue time in the future''),
   (0x72B, ''License time period too long''),
   (0x72C, ''Exception in device specific code -> check each device''),
   (0x72D, ''License file read twice''),
   (0x72E, ''Invalid signature''),
   (0x72F, ''Invalid public key certificate''),
   (0x730, ''Public key not known from OEM''),
   (0x731, ''License not valid for this system ID''),
   (0x732, ''Demo license prohibited''),
   (0x733, ''Invalid function ID''),
   (0x734, ''Outside the valid range''),
   (0x735, ''Invalid alignment''),
   (0x736, ''Invalid platform level''),
   (0x737, ''Context - forward to passive level''),
   (0x738, ''Content - forward to dispatch level''),
   (0x739, ''Context - forward to real-time''),
   (0x740, ''General client error''),
   (0x741, ''Invalid parameter at service''),
   (0x742, ''Polling list is empty''),
   (0x743, ''Var connection already in use''),
   (0x744, ''Invoke ID in use''),
   (0x745, ''Timeout elapsed -> check route setting''),
   (0x746, ''Error in Win32 subsystem''),
   (0x747, ''Invalid client timeout value''),
   (0x748, ''ADS port not opened''),
   (0x749, ''No AMS address''),
   (0x750, ''Internal error in ADS sync''),
   (0x751, ''Hash table overflow''),
   (0x752, ''Key not found in hash''),
   (0x753, ''No more symbols in cache''),
   (0x754, ''Invalid response received''),
   (0x755, ''Sync port is locked''),
   (0x1000, ''Internal error in real-time system''),
   (0x1001, ''Timer value not valid''),
   (0x1002, ''Task pointer has invalid value 0''),
   (0x1003, ''Stack pointer has invalid value 0''),
   (0x1004, ''Requested task priority already assigned''),
   (0x1005, ''No free Task Control Block''),
   (0x1006, ''No free semaphores''),
   (0x1007, ''No free space in the queue''),
   (0x100D, ''External sync interrupt already applied''),
   (0x100E, ''No external sync interrupt applied''),
   (0x100F, ''External sync interrupt application failed''),
   (0x1010, ''Call of service function in wrong context''),
   (0x1017, ''Intel VT-x not supported''),
   (0x1018, ''Intel VT-x not enabled in BIOS''),
   (0x1019, ''Missing function in Intel VT-x''),
   (0x101A, ''Activation of Intel VT-x failed'')
  ]"

text \<open>
  \<open>slice::binary_search_by_key\<close> of the standard library: the interval halves until one
  candidate is left, which is then compared with the key.
\<close>

function bs_base :: "('a::linorder \<times> 'b) list \<Rightarrow> 'a \<Rightarrow> nat \<Rightarrow> nat \<Rightarrow> nat" where
  "bs_base xs key base len =
     (if len \<le> 1 then base
      else let half = len div 2; mid = base + half
           in bs_base xs key (if fst (xs ! mid) > key then base else mid) (len - half))"
  by pat_completeness auto
termination
  by (relation "measure (\<lambda>(xs, key, base, len). len)") auto

declare bs_base.simps [simp del]

definition binary_search_by_key :: "('a::linorder \<times> 'b) list \<Rightarrow> 'a \<Rightarrow> nat option" where
  "binary_search_by_key xs key =
     (if xs = [] then None
      else let base = bs_base xs key 0 (length xs)
           in if fst (xs ! base) = key then Some base else None)"

definition ads_error :: "string \<Rightarrow> u32 \<Rightarrow> 'a res" where
  "ads_error action err =
     (case binary_search_by_key ADS_ERRORS err of
        Some idx \<Rightarrow> Err (Ads action (snd (ADS_ERRORS ! idx)) err)
      | None \<Rightarrow> Err (Ads action ''Unknown error code'' err))"

subsection \<open>The search is a lookup\<close>

text \<open>
  Loop invariant: an entry with the key, if there is one, lies in the current interval.
\<close>

lemma bs_base_invariant:
  assumes "sorted_wrt (<) (map fst xs)" and "0 < len" and "base + len \<le> length xs"
    and "base \<le> i" and "i < base + len" and "fst (xs ! i) = key"
  shows "bs_base xs key base len = i"
  using assms
proof (induction xs key base len rule: bs_base.induct)
  case (1 xs key base len)
  show ?case
  proof (cases "len \<le> 1")
    case True
    with "1.prems" show ?thesis
      by (subst bs_base.simps) simp
  next
    case False
    define half mid where "half = len div 2" and "mid = base + half"
    have half: "0 < half" "half < len"
      using False by (auto simp: half_def)
    have mid: "mid < length xs" "mid < base + len"
      using half "1.prems"(3) by (auto simp: mid_def)
    have key_order: "fst (xs ! mid) > key \<longleftrightarrow> i < mid"
      using sorted_wrt_nth_less [OF "1.prems"(1), of i mid]
        sorted_wrt_nth_less [OF "1.prems"(1), of mid i] "1.prems" mid
      by (metis leD linorder_neqE_nat length_map nth_map order_less_imp_le order_less_le_trans)
    let ?b = "if fst (xs ! mid) > key then base else mid"
    have "bs_base xs key ?b (len - half) = i"
      using "1.IH" [OF False half_def mid_def] "1.prems" half mid key_order
      by (auto simp: mid_def half_def)
    then show ?thesis
      using False by (subst bs_base.simps) (auto simp: Let_def half_def [symmetric] mid_def [symmetric] split: if_splits)
  qed
qed

lemma bs_base_in_range:
  assumes "0 < len" and "base + len \<le> length xs"
  shows "bs_base xs key base len < length xs"
  using assms
proof (induction xs key base len rule: bs_base.induct)
  case (1 xs key base len)
  then show ?case
    by (subst bs_base.simps) (auto simp: Let_def)
qed

lemma binary_search_by_key_map_of:
  assumes "sorted_wrt (<) (map fst xs)"
  shows "map_option (\<lambda>i. snd (xs ! i)) (binary_search_by_key xs key) = map_of xs key"
proof (cases "map_of xs key")
  case None
  then have "key \<notin> fst ` set xs"
    by (simp add: map_of_eq_None_iff)
  moreover have "xs \<noteq> [] \<Longrightarrow> bs_base xs key 0 (length xs) < length xs"
    by (rule bs_base_in_range) auto
  ultimately have "binary_search_by_key xs key = None"
    by (auto simp: binary_search_by_key_def Let_def) (metis imageI nth_mem)
  with None show ?thesis
    by simp
next
  case (Some v)
  then obtain i where i: "i < length xs" "xs ! i = (key, v)"
    by (metis in_set_conv_nth map_of_SomeD)
  then have "bs_base xs key 0 (length xs) = i"
    using assms by (intro bs_base_invariant) auto
  with i Some show ?thesis
    by (auto simp: binary_search_by_key_def Let_def)
qed

lemma ADS_ERRORS_sorted: "sorted_wrt (<) (map fst ADS_ERRORS)"
proof -
  have "successively (<) (map fst ADS_ERRORS)"
    unfolding ADS_ERRORS_def by code_simp
  then show ?thesis
    by (simp add: successively_conv_sorted_wrt)
qed

text \<open>
  C35: the binary search over the table of ADS result codes is the linear lookup, for every
  code: \<open>ads_error\<close> always fails with the action, the code and the message the table
  lists for it, or "Unknown error code" exactly for the codes that are not listed.
\<close>

theorem ads_error_is_table_lookup:
  "ads_error action code =
     Err (Ads action (case map_of ADS_ERRORS code of Some msg \<Rightarrow> msg
                      | None \<Rightarrow> ''Unknown error code'') code)"
proof -
  have "map_option (\<lambda>i. snd (ADS_ERRORS ! i)) (binary_search_by_key ADS_ERRORS code)
      = map_of ADS_ERRORS code"
    by (rule binary_search_by_key_map_of [OF ADS_ERRORS_sorted])
  then show ?thesis
    by (auto simp: ads_error_def split: option.split)
qed

end
