(* ===== verification/Cursor.thy ===== *)
theory Cursor
  imports Errors
begin

text \<open>
  Reading from a byte slice that shrinks as it is read: the \<open>&mut &[u8]\<close> cursors of
  \<open>symbol/type.rs\<close> and \<open>core/notification.rs\<close>, with byteorder's \<open>read_u8\<close> .. \<open>read_u64::<LE>\<close>
  (\<open>read_exact\<close> of the width, then \<open>from_le_bytes\<close>) and \<open>slice::split_at\<close>, which panics
  out of range. The interface between the encoders and the decoders is the locale
  \<open>wire_codec\<close>; its lemmas lift a round trip of one item to the counted sequences the
  formats are made of.
\<close>

type_synonym 'a reader = "bytes \<Rightarrow> ('a \<times> bytes) res"

definition unexpected_eof :: "string \<Rightarrow> error" where
  "unexpected_eof ctx = Io ctx (IoSimple UnexpectedEof)"

definition read_exact :: "string \<Rightarrow> nat \<Rightarrow> bytes reader" where
  "read_exact ctx n ptr =
     (if n \<le> length ptr then Ok (take n ptr, drop n ptr) else Err (unexpected_eof ctx))"

definition read_le :: "string \<Rightarrow> 'a::len word reader" where
  "read_le ctx ptr =
     bindR (read_exact ctx (LENGTH('a) div 8) ptr) (\<lambda>(b, ptr). Ok (from_le_bytes b, ptr))"

abbreviation read_u8 :: "string \<Rightarrow> u8 reader" where "read_u8 \<equiv> read_le"
abbreviation read_u16 :: "string \<Rightarrow> u16 reader" where "read_u16 \<equiv> read_le"
abbreviation read_u32 :: "string \<Rightarrow> u32 reader" where "read_u32 \<equiv> read_le"
abbreviation read_u64 :: "string \<Rightarrow> u64 reader" where "read_u64 \<equiv> read_le"

text \<open>\<open>slice::split_at\<close>: panics when the position is out of range.\<close>

definition split_at :: "nat \<Rightarrow> bytes \<Rightarrow> (bytes \<times> bytes) res" where
  "split_at n ptr = (if n \<le> length ptr then Ok (take n ptr, drop n ptr) else Panic)"

text \<open>\<open>for _ in 0..n { v.push(item(ptr)?) }\<close>\<close>

fun read_n :: "nat \<Rightarrow> 'a reader \<Rightarrow> 'a list reader" where
  "read_n 0 item ptr = Ok ([], ptr)"
| "read_n (Suc n) item ptr =
     bindR (item ptr) (\<lambda>(x, ptr). bindR (read_n n item ptr) (\<lambda>(xs, ptr). Ok (x # xs, ptr)))"

lemma read_n_numeral [simp]:
  "read_n (numeral n) item ptr =
     bindR (item ptr)
       (\<lambda>(x, ptr). bindR (read_n (pred_numeral n) item ptr) (\<lambda>(xs, ptr). Ok (x # xs, ptr)))"
  unfolding numeral_eq_Suc [of n] read_n.simps ..

section \<open>What the readers do\<close>

lemma read_exact_append [simp]:
  "length b = n \<Longrightarrow> read_exact ctx n (b @ rest) = Ok (b, rest)"
  by (simp add: read_exact_def)

lemma read_exact_not_Panic [simp]: "read_exact ctx n ptr \<noteq> Panic"
  by (simp add: read_exact_def)

lemma read_exact_eq_Ok:
  "read_exact ctx n ptr = Ok (b, rest) \<longleftrightarrow> ptr = b @ rest \<and> length b = n"
  by (auto simp: read_exact_def)

lemma read_exact_eq_Err:
  "read_exact ctx n ptr = Err e \<longleftrightarrow> length ptr < n \<and> e = unexpected_eof ctx"
  by (auto simp: read_exact_def)

lemma read_le_not_Panic [simp]: "read_le ctx ptr \<noteq> Panic"
  by (auto simp: read_le_def bindR_eq_Panic)

lemma read_le_eq_Err:
  "(read_le ctx ptr :: ('a::len word \<times> bytes) res) = Err e \<longleftrightarrow>
     length ptr < LENGTH('a) div 8 \<and> e = unexpected_eof ctx"
  by (auto simp: read_le_def bindR_eq_Err read_exact_eq_Err)

lemma read_le_append [wire_simps]:
  "8 dvd LENGTH('a::len) \<Longrightarrow> read_le ctx (to_le_bytes (w :: 'a word) @ rest) = Ok (w, rest)"
  by (simp add: read_le_def length_to_le_bytes from_to_le_bytes)

lemma read_le_eq_Ok:
  assumes "8 dvd LENGTH('a::len)"
  shows "read_le ctx ptr = Ok (w :: 'a word, rest) \<longleftrightarrow> ptr = to_le_bytes w @ rest"
  using assms
  by (auto simp: read_le_def bindR_eq_Ok read_exact_eq_Ok to_from_le_bytes
      length_to_le_bytes from_to_le_bytes)

lemma split_at_append [simp]: "length b = n \<Longrightarrow> split_at n (b @ rest) = Ok (b, rest)"
  by (simp add: split_at_def)

lemma split_at_eq_Panic [simp]: "split_at n ptr = Panic \<longleftrightarrow> length ptr < n"
  by (auto simp: split_at_def)

lemma split_at_eq_Err [simp]: "split_at n ptr \<noteq> Err e"
  by (auto simp: split_at_def)

lemma split_at_eq_Ok:
  "split_at n ptr = Ok (b, rest) \<longleftrightarrow> ptr = b @ rest \<and> length b = n"
  by (auto simp: split_at_def)

lemma read_n_length: "read_n n item ptr = Ok (xs, rest) \<Longrightarrow> length xs = n"
  by (induction n arbitrary: ptr xs) (auto simp: bindR_eq_Ok)

lemma read_n_not_Panic:
  assumes "\<And>ptr. item ptr \<noteq> Panic"
  shows "read_n n item ptr \<noteq> Panic"
  using assms by (induction n arbitrary: ptr) (auto simp: bindR_eq_Panic)

text \<open>A reader only ever drops a prefix of its input.\<close>

definition consumes :: "'a reader \<Rightarrow> bool" where
  "consumes r \<longleftrightarrow> (\<forall>ptr x rest. r ptr = Ok (x, rest) \<longrightarrow> length rest \<le> length ptr)"

lemma consumesD: "consumes r \<Longrightarrow> r ptr = Ok (x, rest) \<Longrightarrow> length rest \<le> length ptr"
  by (auto simp: consumes_def)

lemma consumes_read_exact [intro]: "consumes (read_exact ctx n)"
  by (auto simp: consumes_def read_exact_eq_Ok)

lemma consumes_read_le [intro]: "consumes (read_le ctx)"
  by (auto simp: consumes_def read_le_def bindR_eq_Ok read_exact_eq_Ok)

lemma consumes_read_n [intro]:
  assumes "consumes item"
  shows "consumes (read_n n item)"
proof -
  have "length rest \<le> length ptr" if "read_n n item ptr = Ok (xs, rest)" for ptr xs rest
    using that
  proof (induction n arbitrary: ptr xs)
    case (Suc n)
    then show ?case
      using assms by (fastforce simp: bindR_eq_Ok dest: consumesD)
  qed simp
  then show ?thesis
    by (auto simp: consumes_def)
qed

section \<open>The interface between encoders and decoders\<close>

text \<open>
  An encoder and a decoder of the same items: decoding what was encoded gives it back, with
  whatever followed it left over. Items outside \<open>valid\<close> have no encoding (a name longer
  than its length field can say).
\<close>

locale wire_codec =
  fixes enc :: "'a \<Rightarrow> bytes"
    and dec :: "'a reader"
    and valid :: "'a \<Rightarrow> bool"
  assumes dec_enc: "valid x \<Longrightarrow> dec (enc x @ rest) = Ok (x, rest)"
begin

lemma dec_enc_nil: "valid x \<Longrightarrow> dec (enc x) = Ok (x, [])"
  using dec_enc [of x "[]"] by simp

lemma enc_inject: "valid x \<Longrightarrow> valid y \<Longrightarrow> enc x = enc y \<Longrightarrow> x = y"
  by (metis dec_enc_nil old.prod.inject res.inject(1))

lemma enc_prefix_free: "valid x \<Longrightarrow> valid y \<Longrightarrow> enc x @ r = enc y @ s \<Longrightarrow> x = y \<and> r = s"
  by (metis dec_enc old.prod.inject res.inject(1))

lemma read_n_enc:
  assumes "list_all valid xs" and "n = length xs"
  shows "read_n n dec (concat (map enc xs) @ rest) = Ok (xs, rest)"
  using assms by (induction xs arbitrary: n) (auto simp: dec_enc)

end

text \<open>
  A codec whose decoder accepts nothing but encodings: then the bytes it consumed are
  determined by what it returned, so decoding loses nothing.
\<close>

locale exact_codec = wire_codec +
  assumes dec_exact: "dec ptr = Ok (x, rest) \<Longrightarrow> ptr = enc x @ rest"
begin

lemma dec_iff: "valid x \<Longrightarrow> dec ptr = Ok (x, rest) \<longleftrightarrow> ptr = enc x @ rest"
  using dec_exact dec_enc by blast

lemma consumes_dec: "consumes dec"
  by (auto simp: consumes_def dest: dec_exact)

end

text \<open>
  A skipper walks over one item without keeping it, and accepts exactly the encodings of
  valid items.
\<close>

locale wire_skipper =
  fixes enc :: "'a \<Rightarrow> bytes"
    and skip :: "unit reader"
    and valid :: "'a \<Rightarrow> bool"
  assumes skip_iff: "skip ptr = Ok (u, rest) \<longleftrightarrow> (\<exists>x. valid x \<and> ptr = enc x @ rest)"
begin

lemma skip_n_exact:
  "read_n n skip ptr = Ok (us, rest) \<Longrightarrow>
     \<exists>xs. length xs = n \<and> list_all valid xs \<and> ptr = concat (map enc xs) @ rest"
proof (induction n arbitrary: ptr us)
  case (Suc n)
  then obtain u us' ptr' where "skip ptr = Ok (u, ptr')" "read_n n skip ptr' = Ok (us', rest)"
    by (auto simp: bindR_eq_Ok)
  then obtain x xs where "valid x" "ptr = enc x @ ptr'" "length xs = n" "list_all valid xs"
      "ptr' = concat (map enc xs) @ rest"
    using Suc.IH skip_iff by blast
  then show ?case
    by (intro exI [of _ "x # xs"]) simp
qed auto

lemma skip_n_enc:
  "list_all valid xs \<Longrightarrow> n = length xs \<Longrightarrow>
     read_n n skip (concat (map enc xs) @ rest) = Ok (replicate n (), rest)"
proof (induction xs arbitrary: n)
  case (Cons x xs)
  then have "skip (enc x @ concat (map enc xs) @ rest) = Ok ((), concat (map enc xs) @ rest)"
    using skip_iff by auto
  with Cons show ?case
    by simp
qed simp

end

interpretation u8_codec: exact_codec "to_le_bytes :: u8 \<Rightarrow> bytes" "read_u8 ctx" "\<lambda>_. True"
  by unfold_locales (simp_all add: read_le_append read_le_eq_Ok)

interpretation u16_codec: exact_codec "to_le_bytes :: u16 \<Rightarrow> bytes" "read_u16 ctx" "\<lambda>_. True"
  by unfold_locales (simp_all add: read_le_append read_le_eq_Ok)

interpretation u32_codec: exact_codec "to_le_bytes :: u32 \<Rightarrow> bytes" "read_u32 ctx" "\<lambda>_. True"
  by unfold_locales (simp_all add: read_le_append read_le_eq_Ok)

interpretation u64_codec: exact_codec "to_le_bytes :: u64 \<Rightarrow> bytes" "read_u64 ctx" "\<lambda>_. True"
  by unfold_locales (simp_all add: read_le_append read_le_eq_Ok)

section \<open>Plain memory images\<close>

text \<open>
  The contract of zerocopy's \<open>IntoBytes\<close> and \<open>FromBytes\<close> on a fixed-size type: the image has
  the type's size, every image of that size is a value, and the two directions are inverse.
\<close>

definition slice :: "nat \<Rightarrow> nat \<Rightarrow> bytes \<Rightarrow> bytes" where
  "slice i n bs = take n (drop i bs)"

lemma length_slice [simp]: "length (slice i n bs) = min n (length bs - i)"
  by (auto simp: slice_def)

lemma slice_append1 [simp]: "length a = n \<Longrightarrow> slice 0 n (a @ b) = a"
  by (simp add: slice_def)

lemma slice_append2 [simp]: "length a \<le> i \<Longrightarrow> slice i n (a @ b) = slice (i - length a) n b"
  by (simp add: slice_def)

lemma slice_all [simp]: "length a = n \<Longrightarrow> slice 0 n a = a"
  by (simp add: slice_def)

lemma slice_slice_append: "j = i + n \<Longrightarrow> slice i n bs @ slice j m bs = slice i (n + m) bs"
  unfolding slice_def take_add by (simp add: add.commute)

lemma slice_slice_append_more:
  "j = i + n \<Longrightarrow> slice i n bs @ slice j m bs @ rest = slice i (n + m) bs @ rest"
  by (simp add: slice_slice_append flip: append_assoc)

lemmas slice_joins = slice_slice_append slice_slice_append_more

locale pod =
  fixes as_image :: "'a \<Rightarrow> bytes"
    and read_from_bytes :: "bytes \<Rightarrow> 'a option"
    and width :: nat
  assumes length_image: "length (as_image x) = width"
    and read_image: "read_from_bytes (as_image x) = Some x"
    and image_read: "read_from_bytes bs = Some x \<Longrightarrow> as_image x = bs"
    and read_total: "length bs = width \<Longrightarrow> \<exists>x. read_from_bytes bs = Some x"
begin

lemma read_eq_Some: "read_from_bytes bs = Some x \<longleftrightarrow> bs = as_image x"
  using image_read read_image by auto

lemma read_eq_None: "read_from_bytes bs = None \<longleftrightarrow> length bs \<noteq> width"
  using length_image read_total by (metis image_read not_Some_eq)

lemma image_inject: "as_image x = as_image y \<longleftrightarrow> x = y"
  by (metis option.inject read_image)

lemma image_onto: "length bs = width \<Longrightarrow> \<exists>x. as_image x = bs"
  using read_total image_read by blast

end

definition word_read_from_bytes :: "bytes \<Rightarrow> 'a::len word option" where
  "word_read_from_bytes bs =
     (if length bs = LENGTH('a) div 8 then Some (from_le_bytes bs) else None)"

text \<open>\<open>read_from_prefix\<close> of an integer: the value at the front, if there are enough bytes.\<close>

definition word_read_from_prefix :: "bytes \<Rightarrow> 'a::len word option" where
  "word_read_from_prefix bs = word_read_from_bytes (take (LENGTH('a) div 8) bs)"

lemma pod_word:
  assumes "8 dvd LENGTH('a::len)"
  shows "pod (to_le_bytes :: 'a word \<Rightarrow> bytes) word_read_from_bytes (LENGTH('a) div 8)"
  using assms
  by unfold_locales (auto simp: word_read_from_bytes_def length_to_le_bytes from_to_le_bytes
      to_from_le_bytes split: if_splits)

interpretation u8_pod: pod "to_le_bytes :: u8 \<Rightarrow> bytes" word_read_from_bytes 1
  using pod_word [where 'a = 8] by simp

interpretation u16_pod: pod "to_le_bytes :: u16 \<Rightarrow> bytes" word_read_from_bytes 2
  using pod_word [where 'a = 16] by simp

interpretation u32_pod: pod "to_le_bytes :: u32 \<Rightarrow> bytes" word_read_from_bytes 4
  using pod_word [where 'a = 32] by simp

interpretation u64_pod: pod "to_le_bytes :: u64 \<Rightarrow> bytes" word_read_from_bytes 8
  using pod_word [where 'a = 64] by simp

lemma word_read_from_prefix_append:
  "8 dvd LENGTH('a::len) \<Longrightarrow> word_read_from_prefix (to_le_bytes (w :: 'a word) @ rest) = Some w"
  by (simp add: word_read_from_prefix_def word_read_from_bytes_def length_to_le_bytes
      from_to_le_bytes)

lemma word_read_from_prefix_eq_None:
  "(word_read_from_prefix bs :: 'a::len word option) = None \<longleftrightarrow> length bs < LENGTH('a) div 8"
  by (auto simp: word_read_from_prefix_def word_read_from_bytes_def)

end
