(* ===== verification/Text.thy ===== *)
theory Text
  imports Prelude
begin

text \<open>
  The text operations of Rust's standard library the program uses: splitting and joining,
  decimal integers, ASCII case, trimming, and the two lossy decoders \<open>String::from_utf8_lossy\<close>
  and \<open>String::from_utf16_lossy\<close>. A string is the sequence of its UTF-8 bytes.
\<close>

section \<open>Splitting and joining\<close>

text \<open>\<open>str::split\<close> with a one-character separator: always at least one piece.\<close>

fun split_on :: "char \<Rightarrow> string \<Rightarrow> string list" where
  "split_on c [] = [[]]"
| "split_on c (x # xs) =
     (if x = c then [] # split_on c xs
      else case split_on c xs of [] \<Rightarrow> [[x]] | s # ss \<Rightarrow> (x # s) # ss)"

fun join :: "char \<Rightarrow> string list \<Rightarrow> string" where
  "join c [] = []"
| "join c [s] = s"
| "join c (s # t # ss) = s @ c # join c (t # ss)"

lemma split_on_not_Nil [simp]: "split_on c s \<noteq> []"
  by (induction s) (auto split: list.splits)

lemma split_on_single: "c \<notin> set s \<Longrightarrow> split_on c s = [s]"
  by (induction s) auto

lemma split_on_append:
  "c \<notin> set s \<Longrightarrow> split_on c (s @ c # t) = s # split_on c t"
  by (induction s) auto

lemma split_on_append2: "split_on c (s @ c # t) = split_on c s @ split_on c t"
  by (induction s) (auto split: list.split)

lemma split_on_join:
  assumes "ss \<noteq> []" and "\<And>s. s \<in> set ss \<Longrightarrow> c \<notin> set s"
  shows "split_on c (join c ss) = ss"
  using assms by (induction c ss rule: join.induct) (auto simp: split_on_single split_on_append)

lemma join_split_on [simp]: "join c (split_on c s) = s"
proof (induction s)
  case (Cons x xs)
  then show ?case
    by (cases "split_on c xs"; cases "tl (split_on c xs)") (auto split: list.splits)
qed simp

lemma split_on_pieces: "p \<in> set (split_on c s) \<Longrightarrow> c \<notin> set p"
  by (induction s arbitrary: p) (auto split: list.splits if_splits)

section \<open>Decimal integers\<close>

datatype parse_int_error = EmptyInt | InvalidDigit | PosOverflow

definition to_digit :: "char \<Rightarrow> nat option" where
  "to_digit c = (let n = of_char c :: nat in if 48 \<le> n \<and> n \<le> 57 then Some (n - 48) else None)"

definition digit_char :: "nat \<Rightarrow> char" where
  "digit_char d = char_of (48 + d)"

text \<open>
  \<open>u8::from_str\<close> and \<open>u16::from_str\<close> (\<open>bound\<close> is 2 to the width): an optional plus sign,
  then digits from the left, each step checked against the width.
\<close>

fun parse_digits :: "nat \<Rightarrow> nat \<Rightarrow> string \<Rightarrow> parse_int_error + nat" where
  "parse_digits bound acc [] = Inr acc"
| "parse_digits bound acc (c # cs) =
     (case to_digit c of
        None \<Rightarrow> Inl InvalidDigit
      | Some d \<Rightarrow> if acc * 10 + d < bound then parse_digits bound (acc * 10 + d) cs
                  else Inl PosOverflow)"

definition parse_uint :: "nat \<Rightarrow> string \<Rightarrow> parse_int_error + nat" where
  "parse_uint bound s =
     (if s = [] then Inl EmptyInt
      else if s = ''+'' \<or> s = ''-'' then Inl InvalidDigit
      else parse_digits bound 0 (if hd s = CHR ''+'' then tl s else s))"

text \<open>\<open>Display\<close> of an unsigned integer.\<close>

fun show_nat :: "nat \<Rightarrow> string" where
  "show_nat n = (if n < 10 then [digit_char n] else show_nat (n div 10) @ [digit_char (n mod 10)])"

declare show_nat.simps [simp del]

lemma to_digit_digit_char [simp]: "d < 10 \<Longrightarrow> to_digit (digit_char d) = Some d"
  by (simp add: to_digit_def digit_char_def)

lemma digit_char_inject: "d < 10 \<Longrightarrow> e < 10 \<Longrightarrow> digit_char d = digit_char e \<Longrightarrow> d = e"
  by (metis option.inject to_digit_digit_char)

lemma show_nat_digits: "set (show_nat n) \<subseteq> digit_char ` {..<10}"
proof (induction n rule: show_nat.induct)
  case (1 n)
  show ?case
  proof (cases "n < 10")
    case True
    then show ?thesis
      by (subst show_nat.simps) auto
  next
    case False
    with "1.IH" show ?thesis
      by (subst show_nat.simps) auto
  qed
qed

lemma show_nat_not_Nil [simp]: "show_nat n \<noteq> []"
  by (subst show_nat.simps) simp

lemma not_digit_in_show_nat:
  assumes "to_digit c = None"
  shows "c \<notin> set (show_nat n)"
proof
  assume "c \<in> set (show_nat n)"
  then obtain d where "d < 10" "c = digit_char d"
    using show_nat_digits by blast
  with assms show False
    by simp
qed

lemma parse_digits_append:
  "parse_digits bound acc (s @ t) =
     (case parse_digits bound acc s of Inl e \<Rightarrow> Inl e | Inr a \<Rightarrow> parse_digits bound a t)"
  by (induction s arbitrary: acc) (auto split: option.split)

lemma parse_digits_show_nat:
  "n < bound \<Longrightarrow> parse_digits bound 0 (show_nat n) = Inr n"
proof (induction n rule: show_nat.induct)
  case (1 n)
  show ?case
  proof (cases "n < 10")
    case True
    with "1.prems" show ?thesis
      by (subst show_nat.simps) simp
  next
    case False
    then have "parse_digits bound 0 (show_nat (n div 10)) = Inr (n div 10)"
      using "1.IH" "1.prems" by simp
    with False "1.prems" show ?thesis
      by (subst show_nat.simps) (simp add: parse_digits_append)
  qed
qed

lemma parse_uint_show_nat:
  assumes "n < bound"
  shows "parse_uint bound (show_nat n) = Inr n"
proof -
  have sign: "CHR ''+'' \<notin> set (show_nat n)" "CHR ''-'' \<notin> set (show_nat n)"
    by (rule not_digit_in_show_nat; simp add: to_digit_def)+
  then have "show_nat n \<noteq> ''+''" "show_nat n \<noteq> ''-''" "hd (show_nat n) \<noteq> CHR ''+''"
    by (metis list.set_intros(1), metis list.set_intros(1),
        metis hd_in_set show_nat_not_Nil)
  with assms show ?thesis
    by (simp add: parse_uint_def parse_digits_show_nat)
qed

lemma parse_digits_bound: "acc < bound \<Longrightarrow> parse_digits bound acc s = Inr n \<Longrightarrow> n < bound"
  by (induction s arbitrary: acc) (auto split: option.splits if_splits)

lemma parse_uint_bound: "0 < bound \<Longrightarrow> parse_uint bound s = Inr n \<Longrightarrow> n < bound"
  by (auto simp: parse_uint_def parse_digits_bound split: if_splits)

section \<open>ASCII case and trimming\<close>

definition ascii_lower :: "char \<Rightarrow> char" where
  "ascii_lower c = (let n = of_char c :: nat in if 65 \<le> n \<and> n \<le> 90 then char_of (n + 32) else c)"

definition to_ascii_lowercase :: "string \<Rightarrow> string" where
  "to_ascii_lowercase s = map ascii_lower s"

text \<open>\<open>str::trim_end_matches("\0")\<close>\<close>

definition trim_end_nul :: "string \<Rightarrow> string" where
  "trim_end_nul s = rev (dropWhile (\<lambda>c. c = char_of (0 :: nat)) (rev s))"

lemma trim_end_nul_replicate:
  assumes "s = [] \<or> last s \<noteq> char_of (0 :: nat)"
  shows "trim_end_nul (s @ replicate n (char_of (0 :: nat))) = s"
proof (cases "rev s")
  case Nil
  then show ?thesis
    by (simp add: trim_end_nul_def)
next
  case (Cons c cs)
  then have "c \<noteq> char_of (0 :: nat)" "s = rev cs @ [c]"
    using assms by (auto simp: rev_swap)
  then show ?thesis
    by (simp add: trim_end_nul_def dropWhile_append3)
qed

section \<open>Lossy UTF-8\<close>

text \<open>
  \<open>String::from_utf8_lossy\<close>: \<open>utf8_step\<close> looks at the front of the input and says how many
  bytes the next piece has and whether it is a character; every maximal invalid piece
  becomes one U+FFFD. A byte past the end reads as 0, which continues nothing.
\<close>

definition utf8_cont :: "u8 \<Rightarrow> bool" where
  "utf8_cont b \<longleftrightarrow> 0x80 \<le> b \<and> b \<le> 0xBF"

definition byte_at :: "bytes \<Rightarrow> nat \<Rightarrow> u8" where
  "byte_at bs i = (if i < length bs then bs ! i else 0)"

definition utf8_width :: "u8 \<Rightarrow> nat" where
  "utf8_width b =
     (if b < 0x80 then 1 else if 0xC2 \<le> b \<and> b \<le> 0xDF then 2
      else if 0xE0 \<le> b \<and> b \<le> 0xEF then 3 else if 0xF0 \<le> b \<and> b \<le> 0xF4 then 4 else 0)"

definition utf8_second3 :: "u8 \<Rightarrow> u8 \<Rightarrow> bool" where
  "utf8_second3 b c \<longleftrightarrow>
     (b = 0xE0 \<and> 0xA0 \<le> c \<and> c \<le> 0xBF) \<or> (0xE1 \<le> b \<and> b \<le> 0xEC \<and> utf8_cont c)
     \<or> (b = 0xED \<and> 0x80 \<le> c \<and> c \<le> 0x9F) \<or> (0xEE \<le> b \<and> b \<le> 0xEF \<and> utf8_cont c)"

definition utf8_second4 :: "u8 \<Rightarrow> u8 \<Rightarrow> bool" where
  "utf8_second4 b c \<longleftrightarrow>
     (b = 0xF0 \<and> 0x90 \<le> c \<and> c \<le> 0xBF) \<or> (0xF1 \<le> b \<and> b \<le> 0xF3 \<and> utf8_cont c)
     \<or> (b = 0xF4 \<and> 0x80 \<le> c \<and> c \<le> 0x8F)"

definition utf8_step :: "bytes \<Rightarrow> nat \<times> bool" where
  "utf8_step bs =
     (let b = byte_at bs 0; c = byte_at bs 1; d = byte_at bs 2; e = byte_at bs 3
      in if utf8_width b = 1 then (1, True)
         else if utf8_width b = 2 then (if utf8_cont c then (2, True) else (1, False))
         else if utf8_width b = 3 then
           (if \<not> utf8_second3 b c then (1, False)
            else if \<not> utf8_cont d then (2, False) else (3, True))
         else if utf8_width b = 4 then
           (if \<not> utf8_second4 b c then (1, False)
            else if \<not> utf8_cont d then (2, False)
            else if \<not> utf8_cont e then (3, False) else (4, True))
         else (1, False))"

definition replacement_char :: bytes where
  "replacement_char = [0xEF, 0xBF, 0xBD]"

lemma utf8_step_pos: "0 < fst (utf8_step bs)"
  by (auto simp: utf8_step_def Let_def)

function utf8_lossy :: "bytes \<Rightarrow> bytes" where
  "utf8_lossy bs =
     (if bs = [] then []
      else let n = fst (utf8_step bs)
           in (if snd (utf8_step bs) then take n bs else replacement_char)
              @ utf8_lossy (drop n bs))"
  by pat_completeness auto
termination
  by (relation "measure length") (auto simp: utf8_step_pos intro!: diff_less)

declare utf8_lossy.simps [simp del]

lemma utf8_lossy_Nil [simp]: "utf8_lossy [] = []"
  by (simp add: utf8_lossy.simps)

definition from_utf8_lossy :: "bytes \<Rightarrow> string" where
  "from_utf8_lossy bs = of_bytes (utf8_lossy bs)"

text \<open>\<open>str::from_utf8\<close> accepts exactly the inputs without an invalid piece.\<close>

function valid_utf8 :: "bytes \<Rightarrow> bool" where
  "valid_utf8 bs =
     (if bs = [] then True
      else snd (utf8_step bs) \<and> valid_utf8 (drop (fst (utf8_step bs)) bs))"
  by pat_completeness auto
termination
  by (relation "measure length") (auto simp: utf8_step_pos intro!: diff_less)

declare valid_utf8.simps [simp del]

lemma utf8_lossy_valid: "valid_utf8 bs \<Longrightarrow> utf8_lossy bs = bs"
proof (induction bs rule: utf8_lossy.induct)
  case (1 bs)
  show ?case
  proof (cases "bs = []")
    case False
    then have "utf8_lossy (drop (fst (utf8_step bs)) bs) = drop (fst (utf8_step bs)) bs"
      using "1" valid_utf8.simps [of bs] by simp
    then show ?thesis
      using False "1.prems" valid_utf8.simps [of bs] utf8_lossy.simps [of bs]
      by (simp add: Let_def)
  qed simp
qed

lemma from_utf8_lossy_valid: "valid_utf8 (as_bytes s) \<Longrightarrow> from_utf8_lossy (as_bytes s) = s"
  by (simp add: from_utf8_lossy_def utf8_lossy_valid)

text \<open>ASCII text decodes to itself.\<close>

definition ascii :: "string \<Rightarrow> bool" where
  "ascii s \<longleftrightarrow> list_all (\<lambda>b. b < 0x80) (as_bytes s)"

lemma utf8_step_ascii: "b < 0x80 \<Longrightarrow> utf8_step (b # bs) = (1, True)"
  by (simp add: utf8_step_def utf8_width_def byte_at_def)

lemma valid_utf8_ascii: "list_all (\<lambda>b. b < 0x80) bs \<Longrightarrow> valid_utf8 bs"
proof (induction bs)
  case (Cons b bs)
  then show ?case
    by (subst valid_utf8.simps) (simp add: utf8_step_ascii)
qed (simp add: valid_utf8.simps)

lemma from_utf8_lossy_ascii [simp]: "ascii s \<Longrightarrow> from_utf8_lossy (as_bytes s) = s"
  by (simp add: ascii_def from_utf8_lossy_valid valid_utf8_ascii)

section \<open>Characters and UTF-16\<close>

text \<open>\<open>char::encode_utf8\<close> of a code point.\<close>

definition encode_utf8 :: "nat \<Rightarrow> bytes" where
  "encode_utf8 c =
     (if c < 0x80 then [of_nat c]
      else if c < 0x800 then [of_nat (0xC0 + c div 64), of_nat (0x80 + c mod 64)]
      else if c < 0x10000 then
        [of_nat (0xE0 + c div 4096), of_nat (0x80 + c div 64 mod 64), of_nat (0x80 + c mod 64)]
      else [of_nat (0xF0 + c div 262144), of_nat (0x80 + c div 4096 mod 64),
            of_nat (0x80 + c div 64 mod 64), of_nat (0x80 + c mod 64)])"

text \<open>\<open>collect::<String>()\<close> over characters.\<close>

definition string_of_chars :: "nat list \<Rightarrow> string" where
  "string_of_chars cs = of_bytes (concat (map encode_utf8 cs))"

text \<open>\<open>b as char\<close>: the Latin-1 character with the byte's code.\<close>

definition latin1_chars :: "bytes \<Rightarrow> nat list" where
  "latin1_chars bs = map unat bs"

lemma string_of_latin1_ascii:
  "list_all (\<lambda>b. b < 0x80) bs \<Longrightarrow> string_of_chars (latin1_chars bs) = of_bytes bs"
proof (induction bs)
  case (Cons b bs)
  then have "encode_utf8 (unat b) = [b]"
    by (simp add: encode_utf8_def word_less_nat_alt)
  with Cons show ?case
    by (simp add: string_of_chars_def latin1_chars_def of_bytes_def)
qed (simp add: string_of_chars_def latin1_chars_def of_bytes_def)

text \<open>\<open>String::from_utf16_lossy\<close>: an unpaired surrogate becomes U+FFFD.\<close>

fun decode_utf16_lossy :: "u16 list \<Rightarrow> nat list" where
  "decode_utf16_lossy [] = []"
| "decode_utf16_lossy (u # us) =
     (if \<not> (0xD800 \<le> u \<and> u \<le> 0xDFFF) then unat u # decode_utf16_lossy us
      else if 0xDC00 \<le> u then 0xFFFD # decode_utf16_lossy us
      else case us of
             [] \<Rightarrow> [0xFFFD]
           | v # vs \<Rightarrow>
               if \<not> (0xDC00 \<le> v \<and> v \<le> 0xDFFF) then 0xFFFD # decode_utf16_lossy us
               else ((unat u - 0xD800) * 1024 + (unat v - 0xDC00) + 0x10000)
                    # decode_utf16_lossy vs)"

definition from_utf16_lossy :: "u16 list \<Rightarrow> string" where
  "from_utf16_lossy us = string_of_chars (decode_utf16_lossy us)"

lemma decode_utf16_bmp:
  "list_all (\<lambda>u. \<not> (0xD800 \<le> u \<and> u \<le> 0xDFFF)) us \<Longrightarrow> decode_utf16_lossy us = map unat us"
  by (induction us) auto

end
