(* ===== verification/NetId.thy ===== *)
theory NetId
  imports Text "HOL-Library.List_Lexorder"
begin

text \<open>
  AMS addresses (\<open>src/core/netid.rs\<close>): the six-byte NetID, the pair with a port, their text
  forms and their parsers. The interface between a printer and its parser is the locale
  \<open>text_codec\<close>, interpreted for the two types.
\<close>

section \<open>NetIDs\<close>

text \<open>\<open>AmsNetId([u8; 6])\<close>: the array as six constructor arguments.\<close>

datatype AmsNetId = AmsNetId u8 u8 u8 u8 u8 u8

type_synonym AmsPort = u16

primrec octets :: "AmsNetId \<Rightarrow> bytes" where
  "octets (AmsNetId a b c d e f) = [a, b, c, d, e, f]"

definition netid_new :: "u8 \<Rightarrow> u8 \<Rightarrow> u8 \<Rightarrow> u8 \<Rightarrow> u8 \<Rightarrow> u8 \<Rightarrow> AmsNetId" where
  "netid_new a b c d e f = AmsNetId a b c d e f"

definition netid_local :: AmsNetId where
  "netid_local = AmsNetId 127 0 0 1 1 1"

fun from_slice :: "bytes \<Rightarrow> AmsNetId option" where
  "from_slice [a, b, c, d, e, f] = Some (AmsNetId a b c d e f)"
| "from_slice _ = None"

text \<open>\<open>Ipv4Addr::octets\<close> is the argument's four bytes.\<close>

definition from_ip :: "u8 \<times> u8 \<times> u8 \<times> u8 \<Rightarrow> u8 \<Rightarrow> u8 \<Rightarrow> AmsNetId" where
  "from_ip ip e f = (case ip of (a, b, c, d) \<Rightarrow> netid_new a b c d e f)"

definition is_zero :: "AmsNetId \<Rightarrow> bool" where
  "is_zero n \<longleftrightarrow> octets n = [0, 0, 0, 0, 0, 0]"

lemma length_octets [simp, wire_simps]: "length (octets n) = 6"
  by (cases n) simp

lemma from_slice_octets [simp, wire_simps]: "from_slice (octets n) = Some n"
  by (cases n) simp

lemma from_slice_eq_Some: "from_slice bs = Some n \<longleftrightarrow> bs = octets n"
  by (induction bs rule: from_slice.induct) (auto, (cases n, auto)+)

lemma from_slice_eq_None: "from_slice bs = None \<longleftrightarrow> length bs \<noteq> 6"
  by (induction bs rule: from_slice.induct) auto

lemma octets_inject [simp]: "octets m = octets n \<longleftrightarrow> m = n"
  by (metis from_slice_octets option.inject)

text \<open>The derived order compares the arrays byte by byte.\<close>

instantiation AmsNetId :: linorder
begin

definition less_eq_AmsNetId :: "AmsNetId \<Rightarrow> AmsNetId \<Rightarrow> bool" where
  "less_eq_AmsNetId m n \<longleftrightarrow> octets m \<le> octets n"

definition less_AmsNetId :: "AmsNetId \<Rightarrow> AmsNetId \<Rightarrow> bool" where
  "less_AmsNetId m n \<longleftrightarrow> octets m < octets n"

instance
  by standard (auto simp: less_eq_AmsNetId_def less_AmsNetId_def less_le)

end

section \<open>Text form of a NetID\<close>

datatype ParseAmsNetIdError = ParseByte parse_int_error | Not6Bytes

text \<open>The loop over \<open>s.split('.')\<close>: stops at the first piece that is not a byte.\<close>

fun parse_pieces :: "string list \<Rightarrow> ParseAmsNetIdError + bytes" where
  "parse_pieces [] = Inr []"
| "parse_pieces (item # items) =
     (case parse_uint 256 item of
        Inl e \<Rightarrow> Inl (ParseByte e)
      | Inr byte \<Rightarrow>
          (case parse_pieces items of
             Inl e \<Rightarrow> Inl e
           | Inr bytes \<Rightarrow> Inr (of_nat byte # bytes)))"

definition netid_from_str :: "string \<Rightarrow> ParseAmsNetIdError + AmsNetId" where
  "netid_from_str s =
     (case parse_pieces (split_on CHR ''.'' s) of
        Inl e \<Rightarrow> Inl e
      | Inr bytes \<Rightarrow>
          (case from_slice bytes of None \<Rightarrow> Inl Not6Bytes | Some n \<Rightarrow> Inr n))"

definition netid_display :: "AmsNetId \<Rightarrow> string" where
  "netid_display n = join CHR ''.'' (map (\<lambda>b. show_nat (unat b)) (octets n))"

section \<open>Addresses\<close>

datatype AmsAddr = AmsAddr (netid: AmsNetId) (port: AmsPort)

definition addr_new :: "AmsNetId \<Rightarrow> AmsPort \<Rightarrow> AmsAddr" where
  "addr_new n p = AmsAddr n p"

datatype ParseAmsAddrError =
    InvalidInput string
  | ParseAmsNetId ParseAmsNetIdError
  | InvalidPortNumber parse_int_error

definition addr_from_str :: "string \<Rightarrow> ParseAmsAddrError + AmsAddr" where
  "addr_from_str s =
     (case split_on CHR '':'' s of
        [addr, port_text] \<Rightarrow>
          (case netid_from_str addr of
             Inl e \<Rightarrow> Inl (ParseAmsNetId e)
           | Inr n \<Rightarrow>
               (case parse_uint 65536 port_text of
                  Inl e \<Rightarrow> Inl (InvalidPortNumber e)
                | Inr p \<Rightarrow> Inr (AmsAddr n (of_nat p))))
      | _ \<Rightarrow> Inl (InvalidInput s))"

definition addr_display :: "AmsAddr \<Rightarrow> string" where
  "addr_display a = netid_display (netid a) @ '':'' @ show_nat (unat (port a))"

section \<open>Printing and parsing\<close>

text \<open>The interface: parsing what was printed gives the value back.\<close>

locale text_codec =
  fixes print :: "'a \<Rightarrow> string"
    and parse :: "string \<Rightarrow> 'e + 'a"
  assumes parse_print: "parse (print x) = Inr x"
begin

lemma print_inject: "print x = print y \<Longrightarrow> x = y"
  by (metis parse_print sum.inject(2))

lemma print_eq_iff: "print x = print y \<longleftrightarrow> x = y"
  by (auto dest: print_inject)

end

lemma parse_pieces_display:
  "parse_pieces (map (\<lambda>b. show_nat (unat b)) bs) = Inr (bs :: bytes)"
  by (induction bs) (simp_all add: parse_uint_show_nat unat_u8_bound)

lemma display_pieces_no_separator:
  assumes "to_digit c = None"
  shows "c \<notin> set (show_nat k)"
  using assms by (rule not_digit_in_show_nat)

lemma split_netid_display:
  "split_on CHR ''.'' (netid_display n) = map (\<lambda>b. show_nat (unat b)) (octets n)"
  unfolding netid_display_def
proof (rule split_on_join)
  show "map (\<lambda>b. show_nat (unat b)) (octets n) \<noteq> []"
    by (cases n) simp
  have "to_digit CHR ''.'' = None"
    by (simp add: to_digit_def)
  then show "CHR ''.'' \<notin> set s"
    if "s \<in> set (map (\<lambda>b. show_nat (unat b)) (octets n))" for s
    using that by (auto dest: display_pieces_no_separator)
qed

interpretation netid_text: text_codec netid_display netid_from_str
  by unfold_locales
    (simp add: netid_from_str_def split_netid_display parse_pieces_display)

lemma set_join: "set (join c ss) \<subseteq> insert c (\<Union> (set ` set ss))"
  by (induction c ss rule: join.induct) auto

lemma colon_not_in_netid_display: "CHR '':'' \<notin> set (netid_display n)"
proof
  assume "CHR '':'' \<in> set (netid_display n)"
  then have "\<exists>b. CHR '':'' \<in> set (show_nat (unat (b :: u8)))"
    using set_join [of "CHR ''.''" "map (\<lambda>b. show_nat (unat b)) (octets n)"]
    by (auto simp: netid_display_def)
  moreover have "to_digit CHR '':'' = None"
    by (simp add: to_digit_def)
  ultimately show False
    by (auto dest: display_pieces_no_separator)
qed

lemma split_addr_display:
  "split_on CHR '':'' (addr_display a) = [netid_display (netid a), show_nat (unat (port a))]"
proof -
  have "to_digit CHR '':'' = None"
    by (simp add: to_digit_def)
  then show ?thesis
    by (simp add: addr_display_def split_on_append colon_not_in_netid_display
        split_on_single display_pieces_no_separator)
qed

lemma unat_port_bound: "unat (p :: AmsPort) < 65536"
  using unsigned_less [of p] by simp

interpretation addr_text: text_codec addr_display addr_from_str
  by unfold_locales
    (simp add: addr_from_str_def split_addr_display netid_text.parse_print
      parse_uint_show_nat unat_port_bound)

lemma parse_pieces_eq_Inr:
  "parse_pieces items = Inr bs \<longleftrightarrow> list_all2 (\<lambda>s b. parse_uint 256 s = Inr (unat b)) items bs"
proof (induction items arbitrary: bs)
  case (Cons s items)
  show ?case
  proof (cases "parse_uint 256 s")
    case (Inr n)
    then have "unat (of_nat n :: u8) = n"
      using parse_uint_bound [of 256 s n] by (simp add: unat_of_nat)
    then have byte: "of_nat n = b \<longleftrightarrow> n = unat b" for b :: u8
      by (auto simp: word_unat_eq_iff)
    have "parse_pieces (s # items) = Inr (b # bs') \<longleftrightarrow>
        of_nat n = b \<and> parse_pieces items = Inr bs'" for b bs'
      using Inr by (cases "parse_pieces items") auto
    moreover have "parse_pieces (s # items) \<noteq> Inr []"
      using Inr by (cases "parse_pieces items") auto
    ultimately show ?thesis
      using Inr by (cases bs) (simp_all add: Cons.IH byte)
  qed (cases bs; simp)
qed auto

lemma netid_from_str_eq_Inr:
  "netid_from_str s = Inr n \<longleftrightarrow> parse_pieces (split_on CHR ''.'' s) = Inr (octets n)"
  by (auto simp: netid_from_str_def from_slice_eq_Some split: sum.split option.split)

text \<open>
  C34: printing an AMS address and parsing the text gives the same address back, for the
  NetID alone and for the pair with its port.
\<close>

theorem address_text_roundtrip:
  "netid_from_str (netid_display n) = Inr n \<and> addr_from_str (addr_display a) = Inr a"
  by (simp add: netid_text.parse_print addr_text.parse_print)

text \<open>
  The text is accepted as a NetID exactly when it has six dot-separated pieces and each
  of them is the decimal form of the corresponding byte (leading zeros and a plus sign
  included); nothing else parses.
\<close>

theorem netid_from_str_accepts:
  "netid_from_str s = Inr n \<longleftrightarrow>
     list_all2 (\<lambda>p b. parse_uint 256 p = Inr (unat b)) (split_on CHR ''.'' s) (octets n)"
  by (simp add: netid_from_str_eq_Inr parse_pieces_eq_Inr)

end
