(* ===== verification/Protocol.thy ===== *)
theory Protocol
  imports Cursor NetId
begin

text \<open>
  The ADS/AMS wire protocol (\<open>src/core/protocol.rs\<close>, \<open>src/core/index.rs\<close>): commands, device
  states, and the packed structures of the frames. Each structure is a record; \<open>as_bytes_X\<close>
  is its memory image (zerocopy's \<open>as_bytes\<close> of a \<open>repr(C)\<close> structure without padding, every
  multi-byte field little-endian) and \<open>read_X\<close> is \<open>read_from_bytes\<close> of it. The structures
  are codecs: the interpretations at the end give round trips and exactness.
\<close>

section \<open>Constants\<close>

definition AMS_TCP_HEADER_SIZE :: nat where "AMS_TCP_HEADER_SIZE = 6"
definition AMS_HEADER_SIZE :: nat where "AMS_HEADER_SIZE = 32"
definition ADS_HEADER_SIZE :: nat where
  "ADS_HEADER_SIZE = AMS_TCP_HEADER_SIZE + AMS_HEADER_SIZE"

definition GET_SYMHANDLE_BYNAME :: u32 where "GET_SYMHANDLE_BYNAME = 0xF003"
definition RW_SYMVAL_BYHANDLE :: u32 where "RW_SYMVAL_BYHANDLE = 0xF005"
definition SYM_UPLOAD :: u32 where "SYM_UPLOAD = 0xF00B"
definition SYM_DT_UPLOAD :: u32 where "SYM_DT_UPLOAD = 0xF00E"
definition SYM_UPLOAD_INFO2 :: u32 where "SYM_UPLOAD_INFO2 = 0xF00F"
definition GET_TYPEINFO_BYNAME_EX :: u32 where "GET_TYPEINFO_BYNAME_EX = 0xF011"

lemmas header_sizes = ADS_HEADER_SIZE_def AMS_TCP_HEADER_SIZE_def AMS_HEADER_SIZE_def

section \<open>Commands\<close>

datatype Command =
    DevInfo | Read | Write | ReadWrite | ReadState | WriteControl
  | AddNotification | DeleteNotification | Notification

text \<open>\<open>cmd as u16\<close>\<close>

primrec command_code :: "Command \<Rightarrow> u16" where
  "command_code DevInfo = 1"
| "command_code Read = 2"
| "command_code Write = 3"
| "command_code ReadWrite = 9"
| "command_code ReadState = 4"
| "command_code WriteControl = 5"
| "command_code AddNotification = 6"
| "command_code DeleteNotification = 7"
| "command_code Notification = 8"

primrec action :: "Command \<Rightarrow> string" where
  "action DevInfo = ''get device info''"
| "action Read = ''read data''"
| "action Write = ''write data''"
| "action ReadWrite = ''write and read data''"
| "action ReadState = ''read state''"
| "action WriteControl = ''write control''"
| "action AddNotification = ''add notification''"
| "action DeleteNotification = ''delete notification''"
| "action Notification = ''notification''"

lemma command_code_inject [simp]: "command_code c = command_code d \<longleftrightarrow> c = d"
  by (cases c; cases d) simp_all

section \<open>Device states\<close>

datatype AdsState =
    Invalid | Idle | Reset | Init | Start | Run | Stop | SaveCfg | LoadCfg | PowerFail
  | PowerGood | Error | Shutdown | Suspend | Resume | Config | Reconfig | Stopping
  | Incompatible | Exception

text \<open>\<open>state as u16\<close>\<close>

primrec ads_state_code :: "AdsState \<Rightarrow> u16" where
  "ads_state_code Invalid = 0"
| "ads_state_code Idle = 1"
| "ads_state_code Reset = 2"
| "ads_state_code Init = 3"
| "ads_state_code Start = 4"
| "ads_state_code Run = 5"
| "ads_state_code Stop = 6"
| "ads_state_code SaveCfg = 7"
| "ads_state_code LoadCfg = 8"
| "ads_state_code PowerFail = 9"
| "ads_state_code PowerGood = 10"
| "ads_state_code Error = 11"
| "ads_state_code Shutdown = 12"
| "ads_state_code Suspend = 13"
| "ads_state_code Resume = 14"
| "ads_state_code Config = 15"
| "ads_state_code Reconfig = 16"
| "ads_state_code Stopping = 17"
| "ads_state_code Incompatible = 18"
| "ads_state_code Exception = 19"

definition ads_state_try_from :: "u16 \<Rightarrow> string + AdsState" where
  "ads_state_try_from value =
     (if value = 0 then Inr Invalid
      else if value = 1 then Inr Idle
      else if value = 2 then Inr Reset
      else if value = 3 then Inr Init
      else if value = 4 then Inr Start
      else if value = 5 then Inr Run
      else if value = 6 then Inr Stop
      else if value = 7 then Inr SaveCfg
      else if value = 8 then Inr LoadCfg
      else if value = 9 then Inr PowerFail
      else if value = 10 then Inr PowerGood
      else if value = 11 then Inr Error
      else if value = 12 then Inr Shutdown
      else if value = 13 then Inr Suspend
      else if value = 14 then Inr Resume
      else if value = 15 then Inr Config
      else if value = 16 then Inr Reconfig
      else if value = 17 then Inr Stopping
      else if value = 18 then Inr Incompatible
      else if value = 19 then Inr Exception
      else Inl ''invalid state constant'')"

definition ads_state_from_str :: "string \<Rightarrow> string + AdsState" where
  "ads_state_from_str s =
     (let l = to_ascii_lowercase s in
      if l = ''invalid'' then Inr Invalid
      else if l = ''idle'' then Inr Idle
      else if l = ''reset'' then Inr Reset
      else if l = ''init'' then Inr Init
      else if l = ''start'' then Inr Start
      else if l = ''run'' then Inr Run
      else if l = ''stop'' then Inr Stop
      else if l = ''savecfg'' then Inr SaveCfg
      else if l = ''loadcfg'' then Inr LoadCfg
      else if l = ''powerfail'' then Inr PowerFail
      else if l = ''powergood'' then Inr PowerGood
      else if l = ''error'' then Inr Error
      else if l = ''shutdown'' then Inr Shutdown
      else if l = ''suspend'' then Inr Suspend
      else if l = ''resume'' then Inr Resume
      else if l = ''config'' then Inr Config
      else if l = ''reconfig'' then Inr Reconfig
      else if l = ''stopping'' then Inr Stopping
      else if l = ''incompatible'' then Inr Incompatible
      else if l = ''exception'' then Inr Exception
      else Inl ''invalid state name'')"

text \<open>\<open>{:?}\<close> of a state: the variant's name.\<close>

primrec ads_state_debug :: "AdsState \<Rightarrow> string" where
  "ads_state_debug Invalid = ''Invalid''"
| "ads_state_debug Idle = ''Idle''"
| "ads_state_debug Reset = ''Reset''"
| "ads_state_debug Init = ''Init''"
| "ads_state_debug Start = ''Start''"
| "ads_state_debug Run = ''Run''"
| "ads_state_debug Stop = ''Stop''"
| "ads_state_debug SaveCfg = ''SaveCfg''"
| "ads_state_debug LoadCfg = ''LoadCfg''"
| "ads_state_debug PowerFail = ''PowerFail''"
| "ads_state_debug PowerGood = ''PowerGood''"
| "ads_state_debug Error = ''Error''"
| "ads_state_debug Shutdown = ''Shutdown''"
| "ads_state_debug Suspend = ''Suspend''"
| "ads_state_debug Resume = ''Resume''"
| "ads_state_debug Config = ''Config''"
| "ads_state_debug Reconfig = ''Reconfig''"
| "ads_state_debug Stopping = ''Stopping''"
| "ads_state_debug Incompatible = ''Incompatible''"
| "ads_state_debug Exception = ''Exception''"

lemma ads_state_try_from_code [simp]: "ads_state_try_from (ads_state_code st) = Inr st"
  by (cases st) (simp_all add: ads_state_try_from_def)

lemma ads_state_try_from_eq_Inr:
  "ads_state_try_from value = Inr st \<longleftrightarrow> value = ads_state_code st"
proof
  show "ads_state_try_from value = Inr st \<Longrightarrow> value = ads_state_code st"
    unfolding ads_state_try_from_def by (simp split: if_splits; elim conjE; hypsubst; simp)
qed simp

lemma ads_state_try_from_eq_Inl:
  "ads_state_try_from value = Inl e \<Longrightarrow> e = ''invalid state constant''"
  unfolding ads_state_try_from_def by (simp split: if_splits)

lemma ads_state_code_range: "ads_state_code st \<le> 19"
  by (cases st) simp_all

lemma ads_state_code_onto: "value \<le> 19 \<Longrightarrow> \<exists>st. value = ads_state_code st"
proof -
  assume "value \<le> 19"
  then have "unat value \<in> set [0..<20]"
    by (simp add: word_le_nat_alt)
  also have "[0..<20] = [0, 1, 2, 3, 4, 5, 6, 7, 8, 9, 10, 11, 12, 13, 14, 15, 16, 17, 18, 19]"
    by code_simp
  finally have "\<exists>st. ads_state_try_from value = Inr st"
    by (auto simp: ads_state_try_from_def word_unat_eq_iff)
  then show ?thesis
    by (auto simp: ads_state_try_from_eq_Inr)
qed

section \<open>Packed structures\<close>

record AdsHeader =
  ams_cmd :: u16
  hdr_length :: u32
  dest_netid :: AmsNetId
  dest_port :: u16
  src_netid :: AmsNetId
  src_port :: u16
  command :: u16
  state_flags :: u16
  data_length :: u32
  error_code :: u32
  invoke_id :: u32

definition as_bytes_AdsHeader :: "AdsHeader \<Rightarrow> bytes" where
  "as_bytes_AdsHeader h =
     to_le_bytes (ams_cmd h) @ to_le_bytes (hdr_length h) @ octets (dest_netid h)
     @ to_le_bytes (dest_port h) @ octets (src_netid h) @ to_le_bytes (src_port h)
     @ to_le_bytes (command h) @ to_le_bytes (state_flags h) @ to_le_bytes (data_length h)
     @ to_le_bytes (error_code h) @ to_le_bytes (invoke_id h)"

definition read_AdsHeader :: "bytes \<Rightarrow> AdsHeader option" where
  "read_AdsHeader bs =
     (if length bs \<noteq> ADS_HEADER_SIZE then None
      else case (from_slice (slice 6 6 bs), from_slice (slice 14 6 bs)) of
        (Some dest, Some src) \<Rightarrow> Some \<lparr>
          ams_cmd = from_le_bytes (slice 0 2 bs),
          hdr_length = from_le_bytes (slice 2 4 bs),
          dest_netid = dest,
          dest_port = from_le_bytes (slice 12 2 bs),
          src_netid = src,
          src_port = from_le_bytes (slice 20 2 bs),
          command = from_le_bytes (slice 22 2 bs),
          state_flags = from_le_bytes (slice 24 2 bs),
          data_length = from_le_bytes (slice 26 4 bs),
          error_code = from_le_bytes (slice 30 4 bs),
          invoke_id = from_le_bytes (slice 34 4 bs)\<rparr>
      | _ \<Rightarrow> None)"

record DeviceInfoRaw =
  major :: u8
  minor :: u8
  version :: u16
  raw_name :: bytes \<comment> \<open>\<open>[u8; 16]\<close>\<close>

definition read_DeviceInfoRaw :: "bytes \<Rightarrow> DeviceInfoRaw option" where
  "read_DeviceInfoRaw bs =
     (if length bs \<noteq> 20 then None
      else Some \<lparr>major = from_le_bytes (slice 0 1 bs), minor = from_le_bytes (slice 1 1 bs),
                 version = from_le_bytes (slice 2 2 bs), raw_name = slice 4 16 bs\<rparr>)"

record IndexLength =
  il_index_group :: u32
  il_index_offset :: u32
  il_length :: u32

definition as_bytes_IndexLength :: "IndexLength \<Rightarrow> bytes" where
  "as_bytes_IndexLength h =
     to_le_bytes (il_index_group h) @ to_le_bytes (il_index_offset h) @ to_le_bytes (il_length h)"

record IndexLengthRW =
  rw_index_group :: u32
  rw_index_offset :: u32
  rw_read_length :: u32
  rw_write_length :: u32

definition as_bytes_IndexLengthRW :: "IndexLengthRW \<Rightarrow> bytes" where
  "as_bytes_IndexLengthRW h =
     to_le_bytes (rw_index_group h) @ to_le_bytes (rw_index_offset h)
     @ to_le_bytes (rw_read_length h) @ to_le_bytes (rw_write_length h)"

record ReadState =
  rs_ads_state :: u16
  rs_dev_state :: u16

definition read_ReadState :: "bytes \<Rightarrow> ReadState option" where
  "read_ReadState bs =
     (if length bs \<noteq> 4 then None
      else Some \<lparr>rs_ads_state = from_le_bytes (slice 0 2 bs),
                 rs_dev_state = from_le_bytes (slice 2 2 bs)\<rparr>)"

record WriteControl =
  wc_ads_state :: u16
  wc_dev_state :: u16
  wc_data_length :: u32

definition as_bytes_WriteControl :: "WriteControl \<Rightarrow> bytes" where
  "as_bytes_WriteControl c =
     to_le_bytes (wc_ads_state c) @ to_le_bytes (wc_dev_state c) @ to_le_bytes (wc_data_length c)"

record AddNotif =
  an_index_group :: u32
  an_index_offset :: u32
  an_length :: u32
  an_trans_mode :: u32
  an_max_delay :: u32
  an_cycle_time :: u32

text \<open>The last field, \<open>reserved: [u8; 16]\<close>, is always zero.\<close>

definition as_bytes_AddNotif :: "AddNotif \<Rightarrow> bytes" where
  "as_bytes_AddNotif a =
     to_le_bytes (an_index_group a) @ to_le_bytes (an_index_offset a) @ to_le_bytes (an_length a)
     @ to_le_bytes (an_trans_mode a) @ to_le_bytes (an_max_delay a) @ to_le_bytes (an_cycle_time a)
     @ replicate 16 0"

record DeviceInfo =
  di_name :: string
  di_major :: u8
  di_minor :: u8
  di_version :: u16

record AdsStateInfo =
  ads_state :: AdsState
  device_state :: u16

section \<open>The header's memory image\<close>

lemma length_as_bytes_AdsHeader [simp]: "length (as_bytes_AdsHeader h) = ADS_HEADER_SIZE"
  by (simp add: as_bytes_AdsHeader_def header_sizes wire_simps)

lemma read_as_bytes_AdsHeader: "read_AdsHeader (as_bytes_AdsHeader h) = Some h"
proof -
  have "length (as_bytes_AdsHeader h) = ADS_HEADER_SIZE"
    by simp
  then show ?thesis
    unfolding read_AdsHeader_def
    by (simp add: as_bytes_AdsHeader_def wire_simps)
qed

lemma as_bytes_read_AdsHeader:
  assumes "read_AdsHeader bs = Some h"
  shows "as_bytes_AdsHeader h = bs"
proof -
  have len: "length bs = 38"
    using assms by (simp add: read_AdsHeader_def header_sizes split: if_splits)
  moreover have "octets (dest_netid h) = slice 6 6 bs" "octets (src_netid h) = slice 14 6 bs"
    using assms by (auto simp: read_AdsHeader_def from_slice_eq_Some
        split: if_splits option.splits)
  ultimately have "as_bytes_AdsHeader h = slice 0 2 bs @ slice 2 4 bs @ slice 6 6 bs
      @ slice 12 2 bs @ slice 14 6 bs @ slice 20 2 bs @ slice 22 2 bs @ slice 24 2 bs
      @ slice 26 4 bs @ slice 30 4 bs @ slice 34 4 bs"
    using assms by (auto simp: as_bytes_AdsHeader_def read_AdsHeader_def to_from_le_bytes
        split: if_splits option.splits)
  also have "\<dots> = slice 0 38 bs"
    by (simp add: slice_joins)
  finally show ?thesis
    by (simp add: slice_def len)
qed

interpretation header: pod as_bytes_AdsHeader read_AdsHeader ADS_HEADER_SIZE
proof unfold_locales
  fix bs :: bytes
  assume "length bs = ADS_HEADER_SIZE"
  moreover from this have "from_slice (slice 6 6 bs) \<noteq> None" "from_slice (slice 14 6 bs) \<noteq> None"
    by (simp_all add: from_slice_eq_None header_sizes)
  ultimately show "\<exists>h. read_AdsHeader bs = Some h"
    by (auto simp: read_AdsHeader_def)
qed (simp_all add: read_as_bytes_AdsHeader as_bytes_read_AdsHeader)

text \<open>
  The numeric and the textual form of a device state: a state survives its code and its
  printed name (in any ASCII case the debug form is parsed back), and a code is refused
  exactly when it is above 19.
\<close>

theorem ads_state_codes:
  "ads_state_try_from (ads_state_code st) = Inr st
   \<and> ads_state_from_str (ads_state_debug st) = Inr st
   \<and> (ads_state_try_from value = Inl ''invalid state constant'' \<longleftrightarrow> 19 < value)"
proof (intro conjI)
  show "ads_state_try_from (ads_state_code st) = Inr st"
    by simp
  show "ads_state_from_str (ads_state_debug st) = Inr st"
    by (cases st; simp add: ads_state_from_str_def to_ascii_lowercase_def ascii_lower_def Let_def;
        code_simp)
  show "ads_state_try_from value = Inl ''invalid state constant'' \<longleftrightarrow> 19 < value"
  proof
    assume "ads_state_try_from value = Inl ''invalid state constant''"
    then show "19 < value"
      using ads_state_code_onto [of "value"] by (metis ads_state_try_from_code leI sum.distinct(1))
  next
    assume "19 < value"
    then have "ads_state_try_from value \<noteq> Inr st'" for st'
      using ads_state_code_range [of st'] by (auto simp: ads_state_try_from_eq_Inr)
    then show "ads_state_try_from value = Inl ''invalid state constant''"
      by (metis ads_state_try_from_eq_Inl sum.exhaust)
  qed
qed

end
