(* ===== verification/Shared.thy ===== *)
theory Shared
  imports Protocol "HOL-Library.AList"
begin

text \<open>
  The state a client shares with its reader task (\<open>struct Shared\<close> of \<open>src/core/client.rs\<close>):
  the requests that wait for a reply, the notification subscribers, and why the connection
  ended. Here every method runs without interference; the interleavings of their critical
  sections are in theory \<open>Teardown\<close>.

  \<^item> A \<open>BTreeMap\<close> is an association list with distinct keys; where the code iterates over
    it, the entries are sorted by key.
  \<^item> A pending reply is the sender of a tokio \<open>oneshot\<close> channel: a channel is a number, and
    \<open>replies\<close> holds what has been sent on it.
  \<^item> A subscriber is the sender of a tokio \<open>mpsc\<close> channel of capacity 32: the number of a
    \<open>Channel\<close>, the messages sent and not yet received and whether the receiver is alive.
\<close>

type_synonym reply = "error + (AdsHeader \<times> bytes)"
type_synonym NotificationHandle = u32

record Channel =
  queue :: "bytes list"
  receiver_open :: bool

record Shared =
  commands :: "(u32 \<times> nat) list"
  subscribers :: "(NotificationHandle \<times> nat) list"
  closed :: "error option"
  replies :: "nat \<Rightarrow> reply option"
  channels :: "nat \<Rightarrow> Channel"

definition shared_new :: Shared where
  "shared_new = \<lparr>commands = [], subscribers = [], closed = None,
     replies = (\<lambda>_. None), channels = (\<lambda>_. \<lparr>queue = [], receiver_open = False\<rparr>)\<rparr>"

definition is_closed :: "Shared \<Rightarrow> bool" where
  "is_closed sh \<longleftrightarrow> closed sh \<noteq> None"

definition register :: "u32 \<Rightarrow> nat \<Rightarrow> (Shared, unit) op" where
  "register i reply sh =
     (if is_closed sh then (Err Disconnected, sh)
      else (Ok (), sh\<lparr>commands := AList.update i reply (commands sh)\<rparr>))"

definition subscribe :: "NotificationHandle \<Rightarrow> nat \<Rightarrow> (Shared, unit) op" where
  "subscribe handle sender sh =
     (if is_closed sh then (Err Disconnected, sh)
      else (Ok (), sh\<lparr>subscribers := AList.update handle sender (subscribers sh)\<rparr>))"

text \<open>\<open>oneshot::Sender::send\<close>: the sender is consumed, so a channel is sent on at most once.\<close>

definition send_reply :: "nat \<Rightarrow> reply \<Rightarrow> Shared \<Rightarrow> Shared" where
  "send_reply tx r sh = sh\<lparr>replies := (replies sh)(tx := Some r)\<rparr>"

definition tear_down :: "error \<Rightarrow> Shared \<Rightarrow> Shared" where
  "tear_down reason sh =
     (if closed sh \<noteq> None then sh
      else
        let sh = sh\<lparr>closed := Some (error_clone reason)\<rparr>;
            pending = commands sh;
            sh = sh\<lparr>commands := []\<rparr>;
            sh = fold (\<lambda>(_, reply). send_reply reply (Inl (error_clone reason))) pending sh
        in sh\<lparr>subscribers := []\<rparr>)"

text \<open>\<open>Drop\<close> of the \<open>PendingRequest\<close> guard that \<open>register\<close> returns.\<close>

definition drop_pending :: "u32 \<Rightarrow> Shared \<Rightarrow> Shared" where
  "drop_pending i sh = sh\<lparr>commands := AList.delete i (commands sh)\<rparr>"

section \<open>Channels\<close>

text \<open>\<open>mpsc::Sender::try_send\<close> on a channel of capacity 32.\<close>

datatype try_send_result = Sent | Full | Closed

definition CHANNEL_CAPACITY :: nat where "CHANNEL_CAPACITY = 32"

definition try_send :: "nat \<Rightarrow> bytes \<Rightarrow> Shared \<Rightarrow> try_send_result \<times> Shared" where
  "try_send ch msg sh =
     (let c = channels sh ch in
      if \<not> receiver_open c then (Closed, sh)
      else if CHANNEL_CAPACITY \<le> length (queue c) then (Full, sh)
      else (Sent, sh\<lparr>channels := (channels sh)(ch := c\<lparr>queue := queue c @ [msg]\<rparr>)\<rparr>))"

section \<open>Well-formedness\<close>

text \<open>
  The maps have distinct keys, and a connection that has ended holds neither a waiting
  request nor a subscriber.
\<close>

definition shared_ok :: "Shared \<Rightarrow> bool" where
  "shared_ok sh \<longleftrightarrow>
     distinct (map fst (commands sh)) \<and> distinct (map fst (subscribers sh))
     \<and> (is_closed sh \<longrightarrow> commands sh = [] \<and> subscribers sh = [])"

lemma fold_send_reply_fields [simp]:
  "commands (fold (\<lambda>(_, t). send_reply t r) ps sh) = commands sh"
  "subscribers (fold (\<lambda>(_, t). send_reply t r) ps sh) = subscribers sh"
  "closed (fold (\<lambda>(_, t). send_reply t r) ps sh) = closed sh"
  "channels (fold (\<lambda>(_, t). send_reply t r) ps sh) = channels sh"
  by (induction ps arbitrary: sh) (auto simp: send_reply_def)

lemma fold_send_reply_replies:
  "replies (fold (\<lambda>(_, t). send_reply t r) ps sh) =
     (\<lambda>t. if t \<in> snd ` set ps then Some r else replies sh t)"
  by (induction ps arbitrary: sh) (auto simp: send_reply_def fun_eq_iff)

lemma tear_down_fields:
  "closed (tear_down reason sh) =
     (case closed sh of None \<Rightarrow> Some (error_clone reason) | Some e \<Rightarrow> Some e)"
  "channels (tear_down reason sh) = channels sh"
  by (auto simp: tear_down_def Let_def split: option.split)

lemma tear_down_replies:
  "closed sh = None \<Longrightarrow> replies (tear_down reason sh) tx =
     (if tx \<in> snd ` set (commands sh) then Some (Inl (error_clone reason)) else replies sh tx)"
  by (simp add: tear_down_def Let_def fold_send_reply_replies)

lemma is_closed_tear_down [simp]: "is_closed (tear_down reason sh)"
  by (simp add: is_closed_def tear_down_fields split: option.split)

lemma shared_ok_new [simp, intro]: "shared_ok shared_new"
  by (simp add: shared_ok_def shared_new_def is_closed_def)

lemma shared_ok_register: "shared_ok sh \<Longrightarrow> shared_ok (snd (register i t sh))"
  by (auto simp: shared_ok_def register_def is_closed_def distinct_update)

lemma shared_ok_subscribe: "shared_ok sh \<Longrightarrow> shared_ok (snd (subscribe h ch sh))"
  by (auto simp: shared_ok_def subscribe_def is_closed_def distinct_update)

lemma shared_ok_tear_down: "shared_ok sh \<Longrightarrow> shared_ok (tear_down reason sh)"
  by (auto simp: shared_ok_def tear_down_def is_closed_def Let_def)

lemma shared_ok_drop_pending: "shared_ok sh \<Longrightarrow> shared_ok (drop_pending i sh)"
  by (auto simp: shared_ok_def drop_pending_def is_closed_def distinct_delete)

lemma shared_ok_send_reply: "shared_ok sh \<Longrightarrow> shared_ok (send_reply t r sh)"
  by (auto simp: shared_ok_def send_reply_def is_closed_def)

lemma shared_ok_try_send: "shared_ok sh \<Longrightarrow> shared_ok (snd (try_send ch msg sh))"
  by (auto simp: shared_ok_def try_send_def is_closed_def Let_def)

lemmas shared_ok_intros [intro] =
  shared_ok_register shared_ok_subscribe shared_ok_tear_down shared_ok_drop_pending
  shared_ok_send_reply shared_ok_try_send

end
