(* ===== verification/Notification.thy ===== *)
theory Notification
  imports Protocol
begin

text \<open>
  Notification messages (\<open>src/core/notification.rs\<close>). A message is a frame whose payload holds
  a number of stamps, each a timestamp and a number of samples, each a handle and its data.
  \<open>notification_new\<close> is the validating pass of \<open>Notification::new\<close>, \<open>sample_next\<close> the step of the
  iterator \<open>SampleIter\<close>, which trusts that pass: every read of it that could fail is an
  \<open>expect\<close>. The abstract content of a message is the list of its stamps; \<open>enc_stamp\<close> is the
  wire format the two are proved against.
\<close>

section \<open>Attributes\<close>

datatype NotificationTransmissionMode = NoTrans | ServerCycle | ServerOnChange

primrec trans_mode_code :: "NotificationTransmissionMode \<Rightarrow> u32" where
  "trans_mode_code NoTrans = 0"
| "trans_mode_code ServerCycle = 3"
| "trans_mode_code ServerOnChange = 4"

text \<open>The two durations are in milliseconds (\<open>Duration::as_millis\<close>).\<close>

record NotificationAttributes =
  attr_length :: nat
  attr_trans_mode :: NotificationTransmissionMode
  attr_max_delay :: nat
  attr_cycle_time :: nat

section \<open>Parsing\<close>

record Notification =
  ntf_data :: bytes
  ntf_nstamps :: u32

definition ntf_ctx :: string where "ntf_ctx = ''parsing notification''"

text \<open>The body of the inner loop and of the outer loop of \<open>Notification::new\<close>.\<close>

definition skip_sample :: "unit reader" where
  "skip_sample ptr =
     bindR (read_u32 ntf_ctx ptr) (\<lambda>(_, ptr).
     bindR (read_u32 ntf_ctx ptr) (\<lambda>(len, ptr).
       if unat len \<le> length ptr then Ok ((), drop (unat len) ptr)
       else Err (unexpected_eof ntf_ctx)))"

definition skip_stamp :: "unit reader" where
  "skip_stamp ptr =
     bindR (read_u64 ntf_ctx ptr) (\<lambda>(_, ptr).
     bindR (read_u32 ntf_ctx ptr) (\<lambda>(nsamples, ptr).
     bindR (read_n (unat nsamples) skip_sample ptr) (\<lambda>(_, ptr). Ok ((), ptr))))"

definition notification_new :: "bytes \<Rightarrow> Notification res" where
  "notification_new data =
     (if length data < ADS_HEADER_SIZE + 8 then Err (unexpected_eof ntf_ctx)
      else
        bindR (read_u32 ntf_ctx (drop (ADS_HEADER_SIZE + 4) data)) (\<lambda>(nstamps, ptr).
        bindR (read_n (unat nstamps) skip_stamp ptr) (\<lambda>(_, ptr).
          if ptr = [] then Ok \<lparr>ntf_data = data, ntf_nstamps = nstamps\<rparr>
          else Err (unexpected_eof ntf_ctx))))"

section \<open>Iterating over the samples\<close>

record Sample =
  sm_handle :: u32
  sm_timestamp :: u64
  sm_data :: bytes

record SampleIter =
  si_data :: bytes
  cur_timestamp :: u64
  stamps_left :: u32
  samples_left :: u32

text \<open>\<open>Result::expect\<close>: an error is a panic.\<close>

primrec expect :: "'a res \<Rightarrow> 'a res" where
  "expect (Ok x) = Ok x"
| "expect (Err e) = Panic"
| "expect Panic = Panic"

definition samples :: "Notification \<Rightarrow> SampleIter res" where
  "samples n =
     (if 46 \<le> length (ntf_data n)
      then Ok \<lparr>si_data = drop 46 (ntf_data n), cur_timestamp = 0,
               stamps_left = ntf_nstamps n, samples_left = 0\<rparr>
      else Panic)"

function sample_next :: "SampleIter \<Rightarrow> (Sample option \<times> SampleIter) res" where
  "sample_next it =
     (if 0 < samples_left it then
        bindR (expect (read_u32 ''size'' (si_data it))) (\<lambda>(handle, d).
        bindR (expect (read_u32 ''size'' d)) (\<lambda>(len, d).
        bindR (split_at (unat len) d) (\<lambda>(sample, rest).
          Ok (Some \<lparr>sm_handle = handle, sm_timestamp = cur_timestamp it, sm_data = sample\<rparr>,
              it\<lparr>si_data := rest, samples_left := samples_left it - 1\<rparr>))))
      else if 0 < stamps_left it then
        bindR (expect (read_u64 ''size'' (si_data it))) (\<lambda>(timestamp, d).
        bindR (expect (read_u32 ''size'' d)) (\<lambda>(nsamples, d).
          sample_next (it\<lparr>si_data := d, cur_timestamp := timestamp,
                          samples_left := nsamples, stamps_left := stamps_left it - 1\<rparr>)))
      else Ok (None, it))"
  by pat_completeness auto
termination
proof (relation "measure (\<lambda>it. unat (stamps_left it))", goal_cases)
  case (2 it)
  then have "0 < unat (stamps_left it)"
    by (simp add: word_less_nat_alt)
  then show ?case
    by (simp add: unat_minus_one word_gt_0 unat_gt_0)
qed simp

declare sample_next.simps [simp del]

lemma expect_eq_Ok [simp]: "expect m = Ok x \<longleftrightarrow> m = Ok x"
  by (cases m) auto

lemma expect_read_leD:
  assumes "expect (read_le ctx bs) = Ok (w :: 'a::len word, bs')"
  shows "length bs' \<le> length bs"
  using assms by (auto intro: consumesD [OF consumes_read_le])

lemma sample_next_shrinks:
  "sample_next it = Ok (Some s, it') \<Longrightarrow> length (si_data it') < length (si_data it)"
proof (induction it rule: sample_next.induct)
  case (1 it)
  consider "0 < samples_left it" | "\<not> 0 < samples_left it" "0 < stamps_left it"
    | "\<not> 0 < samples_left it" "\<not> 0 < stamps_left it"
    by blast
  then show ?case
  proof cases
    case 1
    with "1.prems" show ?thesis
      by (subst (asm) sample_next.simps)
        (auto simp: bindR_eq_Ok read_le_def read_exact_eq_Ok split_at_eq_Ok)
  next
    case 2
    let ?next = "\<lambda>timestamp nsamples d. it\<lparr>si_data := d, cur_timestamp := timestamp,
        samples_left := nsamples, stamps_left := stamps_left it - 1\<rparr>"
    from "1.prems" 2 obtain timestamp d nsamples d'
      where reads: "expect (read_u64 ''size'' (si_data it)) = Ok (timestamp, d)"
          "expect (read_u32 ''size'' d) = Ok (nsamples, d')"
        and rec: "sample_next (?next timestamp nsamples d') = Ok (Some s, it')"
      by (subst (asm) sample_next.simps) (auto simp: bindR_eq_Ok)
    have "length (si_data it') < length d'"
      using "1.IH" [OF 2 reads(1) refl reads(2) refl rec] by simp
    then show ?thesis
      using reads [THEN expect_read_leD] by simp
  next
    case 3
    with "1.prems" show ?thesis
      by (subst (asm) sample_next.simps) simp
  qed
qed

text \<open>\<open>for sample in notif.samples()\<close>: every sample, in order.\<close>

function collect_samples :: "SampleIter \<Rightarrow> Sample list res" where
  "collect_samples it =
     bindR (sample_next it) (\<lambda>(next, it').
       case next of
         None \<Rightarrow> Ok []
       | Some s \<Rightarrow> mapR (\<lambda>ss. s # ss) (collect_samples it'))"
  by pat_completeness auto
termination
  by (relation "measure (\<lambda>it. length (si_data it))") (auto dest: sample_next_shrinks)

declare collect_samples.simps [simp del]

definition all_samples :: "Notification \<Rightarrow> Sample list res" where
  "all_samples n = bindR (samples n) collect_samples"

section \<open>The content of a message\<close>

type_synonym raw_sample = "u32 \<times> bytes"
type_synonym stamp = "u64 \<times> raw_sample list"

definition enc_sample :: "raw_sample \<Rightarrow> bytes" where
  "enc_sample s = to_le_bytes (fst s) @ to_le_bytes (of_nat (length (snd s)) :: u32) @ snd s"

definition valid_sample :: "raw_sample \<Rightarrow> bool" where
  "valid_sample s \<longleftrightarrow> length (snd s) < 2 ^ 32"

definition enc_stamp :: "stamp \<Rightarrow> bytes" where
  "enc_stamp st =
     to_le_bytes (fst st) @ to_le_bytes (of_nat (length (snd st)) :: u32)
     @ concat (map enc_sample (snd st))"

definition valid_stamp :: "stamp \<Rightarrow> bool" where
  "valid_stamp st \<longleftrightarrow> length (snd st) < 2 ^ 32 \<and> list_all valid_sample (snd st)"

definition enc_message :: "bytes \<Rightarrow> stamp list \<Rightarrow> bytes" where
  "enc_message hdr stamps =
     hdr @ to_le_bytes (of_nat (length stamps) :: u32) @ concat (map enc_stamp stamps)"

definition stamp_samples :: "stamp \<Rightarrow> Sample list" where
  "stamp_samples st =
     map (\<lambda>(h, d). \<lparr>sm_handle = h, sm_timestamp = fst st, sm_data = d\<rparr>) (snd st)"

lemma skip_sample_iff:
  "skip_sample ptr = Ok (u, rest) \<longleftrightarrow> (\<exists>x. valid_sample x \<and> ptr = enc_sample x @ rest)"
proof
  assume "skip_sample ptr = Ok (u, rest)"
  then obtain h len p where p: "ptr = to_le_bytes (h :: u32) @ to_le_bytes (len :: u32) @ p"
      "unat len \<le> length p" "rest = drop (unat len) p"
    by (auto simp: skip_sample_def bindR_eq_Ok read_le_eq_Ok split: if_splits)
  let ?x = "(h, take (unat len) p)"
  have "valid_sample ?x"
    using p(2) unsigned_less [of len] by (simp add: valid_sample_def)
  moreover have "ptr = enc_sample ?x @ rest"
    using p by (simp add: enc_sample_def)
  ultimately show "\<exists>x. valid_sample x \<and> ptr = enc_sample x @ rest"
    by blast
next
  assume "\<exists>x. valid_sample x \<and> ptr = enc_sample x @ rest"
  then show "skip_sample ptr = Ok (u, rest)"
    by (auto simp: skip_sample_def enc_sample_def valid_sample_def read_le_append
        unat_of_nat_u32)
qed

interpretation sample_skip: wire_skipper enc_sample skip_sample valid_sample
  by unfold_locales (rule skip_sample_iff)

lemma skip_stamp_iff:
  "skip_stamp ptr = Ok (u, rest) \<longleftrightarrow> (\<exists>x. valid_stamp x \<and> ptr = enc_stamp x @ rest)"
proof
  assume "skip_stamp ptr = Ok (u, rest)"
  then obtain ts n p us where p: "ptr = to_le_bytes (ts :: u64) @ to_le_bytes (n :: u32) @ p"
      "read_n (unat n) skip_sample p = Ok (us, rest)"
    by (auto simp: skip_stamp_def bindR_eq_Ok read_le_eq_Ok)
  then obtain ss where ss: "length ss = unat n" "list_all valid_sample ss"
      "p = concat (map enc_sample ss) @ rest"
    using sample_skip.skip_n_exact by blast
  then have "valid_stamp (ts, ss)" "ptr = enc_stamp (ts, ss) @ rest"
    using p(1) unsigned_less [of n] by (simp_all add: valid_stamp_def enc_stamp_def)
  then show "\<exists>x. valid_stamp x \<and> ptr = enc_stamp x @ rest"
    by blast
next
  assume "\<exists>x. valid_stamp x \<and> ptr = enc_stamp x @ rest"
  then show "skip_stamp ptr = Ok (u, rest)"
    by (auto simp: skip_stamp_def enc_stamp_def valid_stamp_def read_le_append
        unat_of_nat_u32 sample_skip.skip_n_enc)
qed

interpretation stamp_skip: wire_skipper enc_stamp skip_stamp valid_stamp
  by unfold_locales (rule skip_stamp_iff)

subsection \<open>What \<open>Notification::new\<close> accepts\<close>

lemma notification_new_iff:
  "notification_new data = Ok n \<longleftrightarrow>
     (\<exists>hdr stamps. length hdr = 42 \<and> length stamps < 2 ^ 32 \<and> list_all valid_stamp stamps
        \<and> data = enc_message hdr stamps
        \<and> n = \<lparr>ntf_data = data, ntf_nstamps = of_nat (length stamps)\<rparr>)"
  (is "?accepts \<longleftrightarrow> ?message")
proof
  assume ?accepts
  then obtain nstamps p us where len: "46 \<le> length data"
      and p: "drop 42 data = to_le_bytes (nstamps :: u32) @ p"
      and us: "read_n (unat nstamps) skip_stamp p = Ok (us, [])"
      and n: "n = \<lparr>ntf_data = data, ntf_nstamps = nstamps\<rparr>"
    by (auto simp: notification_new_def bindR_eq_Ok read_le_eq_Ok header_sizes split: if_splits)
  obtain stamps where stamps: "length stamps = unat nstamps" "list_all valid_stamp stamps"
      "p = concat (map enc_stamp stamps)"
    using stamp_skip.skip_n_exact [OF us] by auto
  have "data = take 42 data @ drop 42 data"
    by simp
  then have "data = enc_message (take 42 data) stamps"
    unfolding enc_message_def using p stamps by simp
  then show ?message
    using len n stamps unsigned_less [of nstamps]
    by (intro exI [of _ "take 42 data"] exI [of _ stamps]) simp
next
  assume ?message
  then obtain hdr stamps where m: "length hdr = 42" "length stamps < 2 ^ 32"
      "list_all valid_stamp stamps" "data = enc_message hdr stamps"
      "n = \<lparr>ntf_data = data, ntf_nstamps = of_nat (length stamps)\<rparr>"
    by blast
  then have "read_n (length stamps) skip_stamp (concat (map enc_stamp stamps))
      = Ok (replicate (length stamps) (), [])"
    using stamp_skip.skip_n_enc [of stamps "length stamps" "[]"] by simp
  with m show ?accepts
    by (simp add: notification_new_def enc_message_def header_sizes read_le_append
        length_to_le_bytes unat_of_nat_u32)
qed

lemma skip_sample_not_Panic: "skip_sample ptr \<noteq> Panic"
  by (auto simp: skip_sample_def bindR_eq_Panic)

lemma skip_stamp_not_Panic: "skip_stamp ptr \<noteq> Panic"
  by (auto simp: skip_stamp_def bindR_eq_Panic read_n_not_Panic skip_sample_not_Panic)

text \<open>
  Parsing a notification is total: on any bytes the constructor either accepts them or
  reports an unexpected end of input; it never panics.
\<close>

theorem notification_new_total:
  "(\<exists>n. notification_new data = Ok n \<and> ntf_data n = data)
   \<or> notification_new data = Err (unexpected_eof ntf_ctx)"
proof (cases "notification_new data")
  case (Ok n)
  then show ?thesis
    by (auto simp: notification_new_def bindR_eq_Ok split: if_splits)
next
  case (Err e)
  have sample: "skip_sample p = Err e \<Longrightarrow> e = unexpected_eof ntf_ctx" for p e
    by (auto simp: skip_sample_def bindR_eq_Err read_le_eq_Err split: if_splits)
  have samples: "read_n k skip_sample p = Err e \<Longrightarrow> e = unexpected_eof ntf_ctx" for k p e
    by (induction k arbitrary: p) (auto simp: bindR_eq_Err dest: sample)
  have stamp: "skip_stamp p = Err e \<Longrightarrow> e = unexpected_eof ntf_ctx" for p e
    by (auto simp: skip_stamp_def bindR_eq_Err read_le_eq_Err dest: samples)
  have "read_n k skip_stamp p = Err e \<Longrightarrow> e = unexpected_eof ntf_ctx" for k p e
    by (induction k arbitrary: p) (auto simp: bindR_eq_Err dest: stamp)
  with Err show ?thesis
    by (auto simp: notification_new_def bindR_eq_Err read_le_eq_Err split: if_splits)
next
  case Panic
  then show ?thesis
    by (auto simp: notification_new_def bindR_eq_Panic read_n_not_Panic skip_stamp_not_Panic
        split: if_splits)
qed

subsection \<open>What the iterator yields\<close>

text \<open>
  The iterator stands on a message when its remaining bytes are the samples left of the
  current stamp and the stamps left after it.
\<close>

definition stands_on :: "SampleIter \<Rightarrow> raw_sample list \<Rightarrow> stamp list \<Rightarrow> bool" where
  "stands_on it ss stamps \<longleftrightarrow>
     si_data it = concat (map enc_sample ss) @ concat (map enc_stamp stamps)
     \<and> unat (samples_left it) = length ss \<and> list_all valid_sample ss
     \<and> unat (stamps_left it) = length stamps \<and> list_all valid_stamp stamps"

lemma sample_next_sample:
  assumes "stands_on it ((h, d) # ss) stamps"
  shows "\<exists>it'. sample_next it =
      Ok (Some \<lparr>sm_handle = h, sm_timestamp = cur_timestamp it, sm_data = d\<rparr>, it')
    \<and> stands_on it' ss stamps \<and> cur_timestamp it' = cur_timestamp it"
proof -
  have pos: "0 < samples_left it"
    using assms by (auto simp: stands_on_def word_less_nat_alt)
  have "si_data it = to_le_bytes h @ to_le_bytes (of_nat (length d) :: u32) @ d
      @ concat (map enc_sample ss) @ concat (map enc_stamp stamps)"
    and "length d < 2 ^ 32"
    using assms by (simp_all add: stands_on_def enc_sample_def valid_sample_def)
  moreover have "unat (samples_left it - 1) = length ss"
    using assms pos by (simp add: stands_on_def unat_minus_one word_gt_0)
  ultimately show ?thesis
    using assms pos
    by (subst sample_next.simps)
      (simp add: read_le_append unat_of_nat_u32 stands_on_def)
qed

lemma sample_next_stamp:
  assumes "stands_on it [] (st # stamps)"
  shows "\<exists>it'. sample_next it = sample_next it' \<and> stands_on it' (snd st) stamps
    \<and> cur_timestamp it' = fst st"
proof -
  have pos: "\<not> 0 < samples_left it" "0 < stamps_left it"
    using assms by (auto simp: stands_on_def word_less_nat_alt)
  have data: "si_data it = to_le_bytes (fst st) @ to_le_bytes (of_nat (length (snd st)) :: u32)
      @ concat (map enc_sample (snd st)) @ concat (map enc_stamp stamps)"
    and valid: "valid_stamp st" "list_all valid_stamp stamps"
    using assms by (simp_all add: stands_on_def enc_stamp_def)
  have left: "unat (stamps_left it - 1) = length stamps"
    using assms pos by (simp add: stands_on_def unat_minus_one word_gt_0)
  let ?it = "it\<lparr>si_data := concat (map enc_sample (snd st)) @ concat (map enc_stamp stamps),
      cur_timestamp := fst st, samples_left := of_nat (length (snd st)),
      stamps_left := stamps_left it - 1\<rparr>"
  have "sample_next it = sample_next ?it"
    using pos by (subst sample_next.simps) (simp add: data read_le_append)
  moreover have "stands_on ?it (snd st) stamps"
    using valid left by (simp add: stands_on_def valid_stamp_def unat_of_nat_u32)
  ultimately show ?thesis
    by (intro exI [of _ ?it]) simp
qed

lemma collect_samples_stands_on:
  "stands_on it ss stamps \<Longrightarrow>
     collect_samples it = Ok (stamp_samples (cur_timestamp it, ss) @ concat (map stamp_samples stamps))"
proof (induction stamps arbitrary: it ss)
  case Nil
  then show ?case
  proof (induction ss arbitrary: it)
    case Nil
    then have "\<not> 0 < samples_left it" "\<not> 0 < stamps_left it"
      by (simp_all add: stands_on_def word_less_nat_alt)
    then show ?case
      by (simp add: collect_samples.simps sample_next.simps stamp_samples_def)
  next
    case (Cons s ss)
    then show ?case
      using sample_next_sample [of it "fst s" "snd s" ss "[]"]
      by (auto simp: collect_samples.simps [of it] stamp_samples_def split: prod.split)
  qed
next
  case stamps: (Cons st stamps)
  from stamps.prems show ?case
  proof (induction ss arbitrary: it)
    case Nil
    then obtain it' where it': "sample_next it = sample_next it'"
        "stands_on it' (snd st) stamps" "cur_timestamp it' = fst st"
      using sample_next_stamp by blast
    then have "collect_samples it = collect_samples it'"
      by (simp add: collect_samples.simps)
    then show ?case
      using stamps.IH [OF it'(2)] it'(3) by (simp add: stamp_samples_def)
  next
    case (Cons s ss)
    then show ?case
      using sample_next_sample [of it "fst s" "snd s" ss "st # stamps"]
      by (auto simp: collect_samples.simps [of it] stamp_samples_def split: prod.split)
  qed
qed

lemma all_samples_message:
  assumes "length hdr = 42" and "length stamps < 2 ^ 32" and "list_all valid_stamp stamps"
  shows "all_samples \<lparr>ntf_data = enc_message hdr stamps, ntf_nstamps = of_nat (length stamps)\<rparr>
    = Ok (concat (map stamp_samples stamps))"
proof -
  have "drop 46 (enc_message hdr stamps) = concat (map enc_stamp stamps)"
    and "46 \<le> length (enc_message hdr stamps)"
    using assms(1) by (simp_all add: enc_message_def length_to_le_bytes)
  moreover have "collect_samples \<lparr>si_data = concat (map enc_stamp stamps), cur_timestamp = 0,
      stamps_left = of_nat (length stamps), samples_left = 0\<rparr>
    = Ok (concat (map stamp_samples stamps))"
    using assms collect_samples_stands_on [of _ "[]" stamps]
    by (simp add: stands_on_def unat_of_nat_u32 stamp_samples_def)
  ultimately show ?thesis
    by (simp add: all_samples_def samples_def)
qed

text \<open>
  C24: a notification built from stamps is accepted, and iterating over it yields exactly the
  samples of those stamps, in order, each with its handle, its data and its stamp's
  timestamp.
\<close>

theorem notification_samples_roundtrip:
  assumes "length hdr = 42" and "length stamps < 2 ^ 32" and "list_all valid_stamp stamps"
  shows "bindR (notification_new (enc_message hdr stamps)) all_samples
    = Ok (concat (map stamp_samples stamps))"
proof -
  have "notification_new (enc_message hdr stamps) =
      Ok \<lparr>ntf_data = enc_message hdr stamps, ntf_nstamps = of_nat (length stamps)\<rparr>"
    using assms notification_new_iff by blast
  then show ?thesis
    using assms by (simp add: all_samples_message)
qed

theorem notification_samples_roundtrip_witness:
  "bindR (notification_new (enc_message (replicate 42 0)
       [(7, [(1, [42, 0, 0, 0]), (2, [])]), (8, []), (9, [(1, [43])])])) all_samples
   = Ok [\<lparr>sm_handle = 1, sm_timestamp = 7, sm_data = [42, 0, 0, 0]\<rparr>,
         \<lparr>sm_handle = 2, sm_timestamp = 7, sm_data = []\<rparr>,
         \<lparr>sm_handle = 1, sm_timestamp = 9, sm_data = [43]\<rparr>]"
  using notification_samples_roundtrip [of "replicate 42 0"
      "[(7, [(1, [42, 0, 0, 0]), (2, [])]), (8, []), (9, [(1, [43])])]"]
  by (simp add: valid_stamp_def valid_sample_def stamp_samples_def)

text \<open>
  C25: the iterator's \<open>expect\<close>s and \<open>split_at\<close> never fire: over every message the
  constructor accepted, iterating to the end succeeds.
\<close>

theorem accepted_notification_never_panics:
  assumes "notification_new data = Ok n"
  shows "is_ok (all_samples n)"
  using assms by (auto simp: notification_new_iff all_samples_message)

theorem accepted_notification_never_panics_witness:
  "is_ok (all_samples \<lparr>ntf_data = replicate 42 0 @ [1, 0, 0, 0, 7, 0, 0, 0, 0, 0, 0, 0,
     1, 0, 0, 0, 5, 0, 0, 0, 2, 0, 0, 0, 42, 43], ntf_nstamps = 1\<rparr>)"
  by (rule accepted_notification_never_panics [of "replicate 42 0 @ [1, 0, 0, 0, 7, 0, 0, 0,
        0, 0, 0, 0, 1, 0, 0, 0, 5, 0, 0, 0, 2, 0, 0, 0, 42, 43]"])
    (simp add: notification_new_def header_sizes read_le_def read_exact_def from_le_bytes_def
      skip_stamp_def skip_sample_def)

end
