(* ===== verification/Client.thy ===== *)
theory Client
  imports Shared Notification
begin

text \<open>
  The client (\<open>src/core/client.rs\<close>): \<open>communicate\<close> builds a request, registers it, writes it,
  waits for its reply and checks it; every ADS command of \<open>impl Client\<close> is a call of it.

  What lies outside the program is a parameter: the socket, the peer and the other tasks are
  the functions of \<open>Env\<close>, which may change the whole client state while the caller waits.
  \<open>write_all\<close> and \<open>await_reply\<close> are the plain futures, the \<open>_timed\<close> ones the same futures
  under \<open>tokio::time::timeout\<close>. A reply of \<open>None\<close> is a receive error: the sender was dropped.
  An operation that never completes has no outcome here; with timeouts configured every
  future completes.
\<close>

section \<open>State\<close>

record Timeouts =
  tm_connect :: "nat option"
  tm_read :: "nat option"
  tm_write :: "nat option"

definition timeouts_new :: "nat \<Rightarrow> Timeouts" where
  "timeouts_new duration =
     \<lparr>tm_connect = Some duration, tm_read = Some duration, tm_write = Some duration\<rparr>"

definition timeouts_none :: Timeouts where
  "timeouts_none = \<lparr>tm_connect = None, tm_read = None, tm_write = None\<rparr>"

definition MAX_CONSECUTIVE_TIMEOUTS :: u32 where "MAX_CONSECUTIVE_TIMEOUTS = 3"

text \<open>
  \<open>next_oneshot\<close> and \<open>next_channel\<close> number the channels the client creates; \<open>cl_world\<close> is
  whatever state the environment keeps.
\<close>

record 'w Client =
  cl_source :: AmsAddr
  cl_target :: AmsAddr
  cl_timeouts :: Timeouts
  source_port_opened :: bool
  next_invoke_id :: u32
  consecutive_timeouts :: u32
  cl_shared :: Shared
  next_oneshot :: nat
  next_channel :: nat
  cl_world :: 'w

record 'w Env =
  write_all :: "bytes \<Rightarrow> 'w Client \<Rightarrow> (io_error + unit) \<times> 'w Client"
  write_all_timed :: "nat \<Rightarrow> bytes \<Rightarrow> 'w Client \<Rightarrow> (io_error + unit) timeout_result \<times> 'w Client"
  await_reply :: "nat \<Rightarrow> 'w Client \<Rightarrow> reply option \<times> 'w Client"
  await_reply_timed :: "nat \<Rightarrow> nat \<Rightarrow> 'w Client \<Rightarrow> reply option timeout_result \<times> 'w Client"
  shutdown :: "'w Client \<Rightarrow> 'w Client"
  stop_reader :: "'w Client \<Rightarrow> 'w Client"

definition client_is_closed :: "'w Client \<Rightarrow> bool" where
  "client_is_closed cl = is_closed (cl_shared cl)"

definition upd_shared :: "(Shared \<Rightarrow> Shared) \<Rightarrow> 'w Client \<Rightarrow> 'w Client" where
  "upd_shared f cl = cl\<lparr>cl_shared := f (cl_shared cl)\<rparr>"

section \<open>Building the request\<close>

text \<open>\<open>u32::try_from(usize)\<close>, whose error converts to \<open>Error::Overflow\<close>.\<close>

definition u32_try_from :: "nat \<Rightarrow> u32 res" where
  "u32_try_from n = (if n < 2 ^ 32 then Ok (of_nat n) else Err Overflow)"

definition request_header :: "'w Client \<Rightarrow> Command \<Rightarrow> u32 \<Rightarrow> nat \<Rightarrow> u32 \<Rightarrow> AdsHeader" where
  "request_header cl cmd len payload_len dispatched =
     \<lparr>ams_cmd = 0,
      hdr_length = len,
      dest_netid = netid (cl_target cl),
      dest_port = port (cl_target cl),
      src_netid = netid (cl_source cl),
      src_port = port (cl_source cl),
      command = command_code cmd,
      state_flags = 4,
      data_length = of_nat payload_len,
      error_code = 0,
      invoke_id = dispatched\<rparr>"

definition build_request :: "'w Client \<Rightarrow> Command \<Rightarrow> bytes list \<Rightarrow> u32 \<Rightarrow> bytes res" where
  "build_request cl cmd payload_bufs dispatched =
     (let payload_len = sum_list (map length payload_bufs);
          ads_data_len = AMS_HEADER_SIZE + payload_len
      in bindR (u32_try_from ads_data_len) (\<lambda>len.
           Ok (as_bytes_AdsHeader (request_header cl cmd len payload_len dispatched)
               @ concat payload_bufs)))"

section \<open>Checking the reply\<close>

text \<open>The data goes into the output buffers from the left, until one of the two runs out.\<close>

fun distribute :: "bytes \<Rightarrow> bytes list \<Rightarrow> bytes list" where
  "distribute rest [] = []"
| "distribute rest (buf # bufs) =
     (let n = min (length buf) (length rest)
      in (take n rest @ drop n buf)
         # (if length rest - n = 0 then bufs else distribute (drop n rest) bufs))"

definition check_reply ::
  "AmsAddr \<Rightarrow> Command \<Rightarrow> u32 \<Rightarrow> AdsHeader \<Rightarrow> bytes \<Rightarrow> bytes list \<Rightarrow> (nat \<times> bytes list) res" where
  "check_reply target cmd dispatched h resp_buf result_bufs =
     (if (src_netid h, src_port h) \<noteq> (netid target, port target) then
        Err (Reply (action cmd) ''response wasn't from commanded target'' 0)
      else if command h \<noteq> command_code cmd then
        Err (Reply (action cmd) ''unexpected command'' (ucast (command h)))
      else if state_flags h \<noteq> 5 then
        Err (Reply (action cmd) ''unexpected state flags'' (ucast (state_flags h)))
      else if invoke_id h \<noteq> dispatched then
        Err (Reply (action cmd) ''unexpected invoke ID'' (invoke_id h))
      else if error_code h \<noteq> 0 then ads_error (action cmd) (error_code h)
      else if length resp_buf < 4 then Panic
      else
        let result = from_le_bytes (take 4 resp_buf) :: u32 in
        if result \<noteq> 0 then ads_error (action cmd) result
        else if result_bufs = [] then Ok (0, [])
        else if length resp_buf < length (hd result_bufs) + 4 then
          Err (Reply (action cmd) ''got less data than expected'' (of_nat (length resp_buf)))
        else Ok (length resp_buf - 4, distribute (drop 4 resp_buf) result_bufs))"

section \<open>communicate\<close>

definition write_request :: "'w Env \<Rightarrow> bytes \<Rightarrow> ('w Client, unit) op" where
  "write_request env request cl =
     (case tm_write (cl_timeouts cl) of
        Some t \<Rightarrow>
          (case write_all_timed env t request cl of (r, cl) \<Rightarrow>
             (ctx_timeout ''dispatching assembled command payload (with timeout)'' r, cl))
      | None \<Rightarrow>
          (case write_all env request cl of (r, cl) \<Rightarrow>
             (ctx_io ''dispatching assembled command payload'' r, cl)))"

definition reply_timed_out :: error where
  "reply_timed_out = Io ''waiting for response to dispatched request'' (IoSimple TimedOut)"

definition on_reply_timeout :: "('w Client, 'a) op" where
  "on_reply_timeout cl =
     (let unanswered = consecutive_timeouts cl + 1;
          cl = cl\<lparr>consecutive_timeouts := unanswered\<rparr>
      in (Err reply_timed_out,
          if MAX_CONSECUTIVE_TIMEOUTS \<le> unanswered
          then upd_shared (tear_down (error_clone reply_timed_out)) cl else cl))"

definition on_reply ::
  "Command \<Rightarrow> u32 \<Rightarrow> bytes list \<Rightarrow> reply option \<Rightarrow> ('w Client, nat \<times> bytes list) op" where
  "on_reply cmd dispatched result_bufs reply cl =
     (case reply of
        Some (Inr (h, payload)) \<Rightarrow>
          (check_reply (cl_target cl) cmd dispatched h payload result_bufs,
           cl\<lparr>consecutive_timeouts := 0\<rparr>)
      | Some (Inl e) \<Rightarrow> (Err e, cl)
      | None \<Rightarrow>
          (Err (IoSync ''waiting for response to dispatched request''
                  ''response channel was closed'' dispatched), cl))"

text \<open>Everything between the registration and the drop of the pending guard.\<close>

definition communicate_registered ::
  "'w Env \<Rightarrow> Command \<Rightarrow> u32 \<Rightarrow> nat \<Rightarrow> bytes \<Rightarrow> bytes list \<Rightarrow> ('w Client, nat \<times> bytes list) op" where
  "communicate_registered env cmd dispatched rx request result_bufs cl =
     (case write_request env request cl of
        (Err error, cl) \<Rightarrow> (Err error, upd_shared (tear_down (error_clone error)) cl)
      | (Panic, cl) \<Rightarrow> (Panic, cl)
      | (Ok _, cl) \<Rightarrow>
          (case tm_read (cl_timeouts cl) of
             Some t \<Rightarrow>
               (case await_reply_timed env t rx cl of
                  (Elapsed _, cl) \<Rightarrow> on_reply_timeout cl
                | (InTime reply, cl) \<Rightarrow> on_reply cmd dispatched result_bufs reply cl)
           | None \<Rightarrow>
               (case await_reply env rx cl of
                  (reply, cl) \<Rightarrow> on_reply cmd dispatched result_bufs reply cl)))"

definition communicate ::
  "'w Env \<Rightarrow> Command \<Rightarrow> bytes list \<Rightarrow> bytes list \<Rightarrow> ('w Client, nat \<times> bytes list) op" where
  "communicate env cmd payload_bufs result_bufs cl =
     (let dispatched = next_invoke_id cl;
          cl = cl\<lparr>next_invoke_id := dispatched + 1\<rparr>
      in case build_request cl cmd payload_bufs dispatched of
           Err e \<Rightarrow> (Err e, cl)
         | Panic \<Rightarrow> (Panic, cl)
         | Ok request \<Rightarrow>
             let rx = next_oneshot cl;
                 cl = cl\<lparr>next_oneshot := rx + 1\<rparr>
             in case register dispatched rx (cl_shared cl) of
                  (Ok _, sh) \<Rightarrow>
                    (case communicate_registered env cmd dispatched rx request result_bufs
                            (cl\<lparr>cl_shared := sh\<rparr>) of
                       (r, cl) \<Rightarrow> (r, upd_shared (drop_pending dispatched) cl))
                | (Err e, sh) \<Rightarrow> (Err e, cl)
                | (Panic, sh) \<Rightarrow> (Panic, cl))"

section \<open>The ADS commands\<close>

text \<open>\<open>data.name\<close> up to the first zero byte, each byte as a Latin-1 character.\<close>

definition device_name :: "bytes \<Rightarrow> string" where
  "device_name name = string_of_chars (latin1_chars (takeWhile (\<lambda>ch. 0 < ch) name))"

definition read_device_info :: "'w Env \<Rightarrow> ('w Client, DeviceInfo) op" where
  "read_device_info env =
     bindS (communicate env DevInfo [] [replicate 20 0]) (\<lambda>(_, bufs).
     case read_DeviceInfoRaw (bufs ! 0) of
       Some data \<Rightarrow>
         returnS (Ok \<lparr>di_name = device_name (raw_name data), di_major = major data,
                      di_minor = minor data, di_version = version data\<rparr>)
     | None \<Rightarrow> returnS Panic)"

text \<open>
  The operations that fill the caller's buffer take its content and return the new one, with
  the length the reply announces.
\<close>

definition client_read :: "'w Env \<Rightarrow> u32 \<Rightarrow> u32 \<Rightarrow> bytes \<Rightarrow> ('w Client, nat \<times> bytes) op" where
  "client_read env index_group index_offset data =
     bindS (returnS (u32_try_from (length data))) (\<lambda>len.
     let header = \<lparr>il_index_group = index_group, il_index_offset = index_offset,
                   il_length = len\<rparr>
     in bindS (communicate env Read [as_bytes_IndexLength header] [to_le_bytes (0 :: u32), data])
          (\<lambda>(_, bufs). returnS (Ok (unat (from_le_bytes (bufs ! 0) :: u32), bufs ! 1))))"

definition client_read_exact :: "'w Env \<Rightarrow> u32 \<Rightarrow> u32 \<Rightarrow> bytes \<Rightarrow> ('w Client, bytes) op" where
  "client_read_exact env index_group index_offset data =
     bindS (client_read env index_group index_offset data) (\<lambda>(len, data).
     if len \<noteq> length data
     then returnS (Err (Reply ''read data'' ''got less data than expected'' (of_nat len)))
     else returnS (Ok data))"

text \<open>
  \<open>T::default()\<close> is given by its image; \<open>value_of\<close> reads the filled image as a \<open>T\<close>.
\<close>

definition client_read_value ::
  "'w Env \<Rightarrow> bytes \<Rightarrow> (bytes \<Rightarrow> 'v option) \<Rightarrow> u32 \<Rightarrow> u32 \<Rightarrow> ('w Client, 'v) op" where
  "client_read_value env init value_of index_group index_offset =
     bindS (client_read_exact env index_group index_offset init) (\<lambda>buf.
     case value_of buf of Some v \<Rightarrow> returnS (Ok v) | None \<Rightarrow> returnS Panic)"

definition client_write :: "'w Env \<Rightarrow> u32 \<Rightarrow> u32 \<Rightarrow> bytes \<Rightarrow> ('w Client, unit) op" where
  "client_write env index_group index_offset data =
     bindS (returnS (u32_try_from (length data))) (\<lambda>len.
     let header = \<lparr>il_index_group = index_group, il_index_offset = index_offset,
                   il_length = len\<rparr>
     in bindS (communicate env Write [as_bytes_IndexLength header, data] [])
          (\<lambda>_. returnS (Ok ())))"

definition client_write_value ::
  "'w Env \<Rightarrow> ('v \<Rightarrow> bytes) \<Rightarrow> u32 \<Rightarrow> u32 \<Rightarrow> 'v \<Rightarrow> ('w Client, unit) op" where
  "client_write_value env image_of index_group index_offset v =
     client_write env index_group index_offset (image_of v)"

definition client_read_write ::
  "'w Env \<Rightarrow> u32 \<Rightarrow> u32 \<Rightarrow> bytes \<Rightarrow> bytes \<Rightarrow> ('w Client, nat \<times> bytes) op" where
  "client_read_write env index_group index_offset read_data write_data =
     bindS (returnS (u32_try_from (length read_data))) (\<lambda>read_length.
     bindS (returnS (u32_try_from (length write_data))) (\<lambda>write_length.
     let header = \<lparr>rw_index_group = index_group, rw_index_offset = index_offset,
                   rw_read_length = read_length, rw_write_length = write_length\<rparr>
     in bindS (communicate env ReadWrite [as_bytes_IndexLengthRW header, write_data]
                 [to_le_bytes (0 :: u32), read_data])
          (\<lambda>(_, bufs). returnS (Ok (unat (from_le_bytes (bufs ! 0) :: u32), bufs ! 1)))))"

definition client_read_write_exact ::
  "'w Env \<Rightarrow> u32 \<Rightarrow> u32 \<Rightarrow> bytes \<Rightarrow> bytes \<Rightarrow> ('w Client, bytes) op" where
  "client_read_write_exact env index_group index_offset read_data write_data =
     bindS (client_read_write env index_group index_offset read_data write_data)
       (\<lambda>(len, read_data).
     if len \<noteq> length read_data
     then returnS (Err (Reply ''write/read data'' ''got less data than expected'' (of_nat len)))
     else returnS (Ok read_data))"

definition read_state :: "'w Env \<Rightarrow> ('w Client, AdsStateInfo) op" where
  "read_state env =
     bindS (communicate env Command.ReadState [] [replicate 4 0]) (\<lambda>(_, bufs).
     case read_ReadState (bufs ! 0) of
       Some state \<Rightarrow>
         (case ads_state_try_from (rs_ads_state state) of
            Inl e \<Rightarrow> returnS (Err (Reply ''read state'' e (ucast (rs_ads_state state))))
          | Inr st \<Rightarrow> returnS (Ok \<lparr>ads_state = st, device_state = rs_dev_state state\<rparr>))
     | None \<Rightarrow> returnS Panic)"

definition write_control :: "'w Env \<Rightarrow> AdsState \<Rightarrow> u16 \<Rightarrow> ('w Client, unit) op" where
  "write_control env st dev_state =
     (let data = \<lparr>wc_ads_state = ads_state_code st, wc_dev_state = dev_state,
                  wc_data_length = 0\<rparr>
      in bindS (communicate env Command.WriteControl [as_bytes_WriteControl data] [])
           (\<lambda>_. returnS (Ok ())))"

section \<open>Notifications\<close>

text \<open>\<open>mpsc::channel(32)\<close>: a new channel, whose receiver the caller keeps.\<close>

definition new_channel :: "('w Client, nat) op" where
  "new_channel cl =
     (let ch = next_channel cl;
          sh = cl_shared cl
      in (Ok ch, cl\<lparr>next_channel := ch + 1,
            cl_shared := sh\<lparr>channels := (channels sh)(ch := \<lparr>queue = [], receiver_open = True\<rparr>)\<rparr>\<rparr>))"

text \<open>The receiver is dropped when \<open>subscribe\<close> fails.\<close>

definition subscribe_channel :: "NotificationHandle \<Rightarrow> nat \<Rightarrow> ('w Client, unit) op" where
  "subscribe_channel handle ch cl =
     (case subscribe handle ch (cl_shared cl) of
        (Ok u, sh) \<Rightarrow> (Ok u, cl\<lparr>cl_shared := sh\<rparr>)
      | (r, sh) \<Rightarrow>
          (r, cl\<lparr>cl_shared := sh\<lparr>channels := (channels sh)(ch :=
                  (channels sh ch)\<lparr>receiver_open := False\<rparr>)\<rparr>\<rparr>))"

definition add_notification ::
  "'w Env \<Rightarrow> u32 \<Rightarrow> u32 \<Rightarrow> NotificationAttributes \<Rightarrow> ('w Client, nat \<times> NotificationHandle) op" where
  "add_notification env index_group index_offset attributes =
     bindS (returnS (u32_try_from (attr_length attributes))) (\<lambda>len.
     bindS (returnS (u32_try_from (attr_max_delay attributes))) (\<lambda>max_delay.
     bindS (returnS (u32_try_from (attr_cycle_time attributes))) (\<lambda>cycle_time.
     let data = \<lparr>an_index_group = index_group, an_index_offset = index_offset, an_length = len,
                 an_trans_mode = trans_mode_code (attr_trans_mode attributes),
                 an_max_delay = max_delay, an_cycle_time = cycle_time\<rparr>
     in bindS (communicate env AddNotification [as_bytes_AddNotif data] [to_le_bytes (0 :: u32)])
          (\<lambda>(_, bufs).
        let handle = from_le_bytes (bufs ! 0) :: u32 in
        bindS new_channel (\<lambda>receiver.
        bindS (subscribe_channel handle receiver) (\<lambda>_.
        returnS (Ok (receiver, handle))))))))"

definition delete_notification :: "'w Env \<Rightarrow> NotificationHandle \<Rightarrow> ('w Client, unit) op" where
  "delete_notification env handle =
     bindS (communicate env DeleteNotification [to_le_bytes handle] []) (\<lambda>_ cl.
       (Ok (), upd_shared (\<lambda>sh. sh\<lparr>subscribers := AList.delete handle (subscribers sh)\<rparr>) cl))"

section \<open>Closing\<close>

text \<open>\<open>Client::close\<close>: errors of the steps are ignored.\<close>

fun delete_all :: "'w Env \<Rightarrow> NotificationHandle list \<Rightarrow> 'w Client \<Rightarrow> 'w Client" where
  "delete_all env [] cl = cl"
| "delete_all env (h # hs) cl = delete_all env hs (snd (delete_notification env h cl))"

definition close_port_message :: "'w Client \<Rightarrow> bytes" where
  "close_port_message cl = [1, 0, 2, 0, 0, 0] @ to_le_bytes (port (cl_source cl))"

definition close :: "'w Env \<Rightarrow> 'w Client \<Rightarrow> 'w Client" where
  "close env cl =
     (let handles = sort (map fst (subscribers (cl_shared cl)));
          cl = delete_all env handles cl;
          cl = (if source_port_opened cl then snd (write_all env (close_port_message cl) cl)
                else cl);
          cl = shutdown env cl;
          cl = stop_reader env cl
      in upd_shared (tear_down Disconnected) cl)"

section \<open>The request on the wire\<close>

lemma concat_length: "sum_list (map length xss) = length (concat xss)"
  by (simp add: length_concat)

lemma u32_try_from_eq_Ok: "u32_try_from n = Ok w \<longleftrightarrow> n < 2 ^ 32 \<and> w = of_nat n"
  by (auto simp: u32_try_from_def)

lemma u32_try_from_not_Panic [simp]: "u32_try_from n \<noteq> Panic"
  by (simp add: u32_try_from_def)

lemma build_request_eq:
  "build_request cl cmd payload_bufs i =
     (if 32 + length (concat payload_bufs) < 2 ^ 32
      then Ok (as_bytes_AdsHeader (request_header cl cmd
             (of_nat (32 + length (concat payload_bufs))) (length (concat payload_bufs)) i)
           @ concat payload_bufs)
      else Err Overflow)"
  by (simp add: build_request_def Let_def u32_try_from_def concat_length AMS_HEADER_SIZE_def)

lemma build_request_not_Panic [simp]: "build_request cl cmd payload_bufs i \<noteq> Panic"
  by (simp add: build_request_eq)

text \<open>
  C23: the request a command sends is a well-formed frame: its first 38 bytes are the header
  with the command, the addresses, the invoke ID and the request flags, both length fields
  agree with the payload that follows, and a payload that would not fit 32 bits is refused
  before anything is sent.
\<close>

theorem request_frame:
  "if 32 + length (concat payload_bufs) < 2 ^ 32 then
     \<exists>h. build_request cl cmd payload_bufs i = Ok (as_bytes_AdsHeader h @ concat payload_bufs)
       \<and> unat (data_length h) = length (concat payload_bufs)
       \<and> unat (hdr_length h) = 32 + length (concat payload_bufs)
       \<and> (dest_netid h, dest_port h) = (netid (cl_target cl), port (cl_target cl))
       \<and> (src_netid h, src_port h) = (netid (cl_source cl), port (cl_source cl))
       \<and> command h = command_code cmd \<and> invoke_id h = i \<and> state_flags h = 4
       \<and> ams_cmd h = 0 \<and> error_code h = 0
   else build_request cl cmd payload_bufs i = Err Overflow"
proof (cases "32 + length (concat payload_bufs) < 2 ^ 32")
  case True
  let ?n = "length (concat payload_bufs)"
  let ?h = "request_header cl cmd (of_nat (32 + ?n)) ?n i"
  have "unat (of_nat (32 + ?n) :: u32) = 32 + ?n" "unat (of_nat ?n :: u32) = ?n"
    using True by (intro unat_of_nat_u32; simp)+
  with True show ?thesis
    unfolding if_P [OF True] by (intro exI [of _ ?h]) (simp add: build_request_eq request_header_def)
qed (simp add: build_request_eq)

section \<open>The reply's data\<close>

lemma length_distribute [simp]: "length (distribute d bufs) = length bufs"
  by (induction d bufs rule: distribute.induct) (auto simp: Let_def)

lemma map_length_distribute [simp]: "map length (distribute d bufs) = map length bufs"
  by (induction d bufs rule: distribute.induct) (auto simp: Let_def)

lemma distribute_Nil [simp]: "distribute [] bufs = bufs"
  by (cases bufs) (auto simp: Let_def)

lemma distribute_Cons:
  "distribute d (buf # bufs) =
     (take (length buf) d @ drop (length d) buf) # distribute (drop (length buf) d) bufs"
  by (cases "length d \<le> length buf") (auto simp: Let_def min_def)

lemma concat_distribute:
  "concat (distribute d bufs) =
     take (length (concat bufs)) d @ drop (length d) (concat bufs)"
proof (induction bufs arbitrary: d)
  case (Cons buf bufs)
  have "drop (length d) buf = [] \<or> drop (length buf) d = []"
    by (simp add: nat_le_linear)
  with Cons show ?case
    by (auto simp: distribute_Cons take_add simp del: distribute.simps)
qed simp

text \<open>The conditions under which a frame is the reply to this request.\<close>

definition reply_matches :: "AmsAddr \<Rightarrow> Command \<Rightarrow> u32 \<Rightarrow> AdsHeader \<Rightarrow> bool" where
  "reply_matches target cmd dispatched h \<longleftrightarrow>
     src_netid h = netid target \<and> src_port h = port target \<and> command h = command_code cmd
     \<and> state_flags h = 5 \<and> invoke_id h = dispatched"

lemma ads_error_simps [simp]: "ads_error act code \<noteq> Ok x" "ads_error act code \<noteq> Panic"
  by (auto simp: ads_error_def split: option.splits)

lemma check_reply_eq_Ok:
  "check_reply target cmd i h resp bufs = Ok (n, out) \<longleftrightarrow>
     reply_matches target cmd i h \<and> error_code h = 0 \<and> 4 \<le> length resp
     \<and> from_le_bytes (take 4 resp) = (0 :: u32)
     \<and> (if bufs = [] then n = 0 \<and> out = []
        else length (hd bufs) + 4 \<le> length resp \<and> n = length resp - 4
          \<and> out = distribute (drop 4 resp) bufs)"
  by (auto simp: check_reply_def reply_matches_def Let_def)

lemma check_reply_eq_Panic:
  "check_reply target cmd i h resp bufs = Panic \<longleftrightarrow>
     reply_matches target cmd i h \<and> error_code h = 0 \<and> length resp < 4"
  by (auto simp: check_reply_def reply_matches_def Let_def)

text \<open>
  C22: what a caller gets from a reply. The call succeeds only on a frame that matches the
  request in source, command, flags and invoke ID and reports no error in the header or in
  the result field; then the data after the result field fills the output buffers from the
  left, the buffers keep their sizes, the bytes beyond the data keep their content, and the
  first buffer is full.
\<close>

theorem reply_fills_buffers:
  assumes "check_reply target cmd i h resp bufs = Ok (n, out)" and "bufs \<noteq> []"
  shows "reply_matches target cmd i h \<and> error_code h = 0 \<and> take 4 resp = [0, 0, 0, 0]
    \<and> n = length resp - 4
    \<and> map length out = map length bufs
    \<and> concat out = take (length (concat bufs)) (drop 4 resp) @ drop n (concat bufs)
    \<and> hd out = take (length (hd bufs)) (drop 4 resp)"
proof -
  have ok: "reply_matches target cmd i h" "error_code h = 0" "4 \<le> length resp"
      "from_le_bytes (take 4 resp) = (0 :: u32)" "length (hd bufs) + 4 \<le> length resp"
      "n = length resp - 4" "out = distribute (drop 4 resp) bufs"
    using assms by (simp_all add: check_reply_eq_Ok)
  have "to_le_bytes (from_le_bytes (take 4 resp) :: u32) = take 4 resp"
    using ok(3) by (simp add: to_from_le_bytes)
  then have "take 4 resp = [0, 0, 0, 0]"
    by (simp add: ok(4) to_le_bytes_def)
  moreover have "hd out = take (length (hd bufs)) (drop 4 resp)"
    using ok assms(2) by (cases bufs) (simp_all add: distribute_Cons del: distribute.simps)
  ultimately show ?thesis
    using ok by (simp add: concat_distribute)
qed

text \<open>Evaluation of a check on a concrete reply.\<close>

lemma from_le_bytes_zeros [simp]: "from_le_bytes [0, 0, 0, 0] = (0 :: u32)"
  by (simp add: from_le_bytes_def)

definition sample_reply_header :: AdsHeader where
  "sample_reply_header =
     \<lparr>ams_cmd = 0, hdr_length = 44, dest_netid = AmsNetId 5 6 7 8 1 1, dest_port = 30000,
      src_netid = AmsNetId 1 2 3 4 1 1, src_port = 851, command = 2, state_flags = 5,
      data_length = 12, error_code = 0, invoke_id = 9\<rparr>"

theorem reply_fills_buffers_witness:
  "reply_matches (AmsAddr (AmsNetId 1 2 3 4 1 1) 851) Read 9 sample_reply_header
   \<and> map length [[4, 0, 0, 0], [42, 0, 0, 0, 0 :: u8]] = [4, 5]
   \<and> concat [[4, 0, 0, 0], [42, 0, 0, 0, 0 :: u8]] = [4, 0, 0, 0, 42, 0, 0, 0, 0]"
  using reply_fills_buffers [of "AmsAddr (AmsNetId 1 2 3 4 1 1) 851" Read 9 sample_reply_header
      "[0, 0, 0, 0, 4, 0, 0, 0, 42, 0, 0, 0]" "[[0, 0, 0, 0], [0, 0, 0, 0, 0]]" 8
      "[[4, 0, 0, 0], [42, 0, 0, 0, 0]]"]
  by (simp add: check_reply_def sample_reply_header_def Let_def)

end
