(* ===== verification/SymType.thy ===== *)
theory SymType
  imports Client
begin

text \<open>
  Symbol and type tables (\<open>src/symbol/type.rs\<close>): the PLC's symbols and types, the decoders of
  the two bulk uploads and of the answer to a query by name, and the operations that fetch
  them.

  \<^item> \<open>i32\<close> and \<open>i64\<close> are words read with \<^const>\<open>sint\<close>.
  \<^item> \<open>oc\<close> is whether the program was built with overflow checks (the debug profile): then an
    array bound that leaves \<open>i32\<close> panics, else it wraps.
  \<^item> The code reads a string into a fixed buffer, with its terminator; a length that does not
    fit the buffer panics.
  \<^item> A \<open>HashMap\<close> is a map.
\<close>

section \<open>Data\<close>

type_synonym i32 = u32
type_synonym i64 = u64

record Symbol =
  sym_name :: string
  ix_group :: u32
  ix_offset :: u32
  sym_typ :: string
  sym_size :: nat
  sym_base_type :: u32
  sym_flags :: u32

record Attribute =
  at_name :: string
  at_value :: string

record EnumInfo =
  ei_name :: string
  ei_value :: i64

record RpcMethodParameter =
  pm_name :: string
  pm_typ :: string
  pm_size :: nat
  pm_flags :: u32
  pm_comment :: string
  pm_attributes :: "Attribute list"

record RpcMethod =
  rm_name :: string
  rm_return_type :: string
  rm_return_size :: nat
  rm_comment :: string
  rm_parameters :: "RpcMethodParameter list"
  rm_attributes :: "Attribute list"

record Field =
  fd_name :: string
  fd_typ :: string
  fd_offset :: "u32 option"
  fd_size :: nat
  fd_array :: "(i32 \<times> i32) list"
  fd_base_type :: u32
  fd_flags :: u32
  fd_comment :: string
  fd_attributes :: "Attribute list option"

record Type =
  ty_name :: string
  ty_type_name :: string
  ty_comment :: string
  ty_size :: nat
  ty_array :: "(i32 \<times> i32) list"
  ty_fields :: "Field list"
  ty_base_type :: u32
  ty_flags :: u32
  ty_guid :: "string option"
  ty_methods :: "RpcMethod list option"
  ty_attributes :: "Attribute list option"
  ty_enum_info :: "EnumInfo list option"

type_synonym TypeMap = "string \<Rightarrow> Type option"

definition TYPE_FLAG_GUID :: u32 where "TYPE_FLAG_GUID = 0x080"
definition TYPE_FLAG_COPY_MASK :: u32 where "TYPE_FLAG_COPY_MASK = 0x200"
definition TYPE_FLAG_METHOD_INFOS :: u32 where "TYPE_FLAG_METHOD_INFOS = 0x800"
definition TYPE_FLAG_ATTRIBUTES :: u32 where "TYPE_FLAG_ATTRIBUTES = 0x1000"
definition TYPE_FLAG_ENUM_INFOS :: u32 where "TYPE_FLAG_ENUM_INFOS = 0x2000"
definition RPC_METHOD_ATTRIBUTE_FLAG :: u32 where "RPC_METHOD_ATTRIBUTE_FLAG = 0x08"
definition RPC_PARAM_ATTRIBUTE_FLAG :: u32 where "RPC_PARAM_ATTRIBUTE_FLAG = 0x40"

unbundle bit_operations_syntax

definition has_flag :: "u32 \<Rightarrow> u32 \<Rightarrow> bool" where
  "has_flag flags m \<longleftrightarrow> flags AND m \<noteq> 0"

section \<open>Pieces\<close>

text \<open>\<open>{:0width x}\<close> of a number that fits the width.\<close>

definition hex_digit :: "nat \<Rightarrow> char" where
  "hex_digit d = ''0123456789abcdef'' ! d"

fun show_hex :: "nat \<Rightarrow> nat \<Rightarrow> string" where
  "show_hex 0 n = []"
| "show_hex (Suc width) n = show_hex width (n div 16) @ [hex_digit (n mod 16)]"

definition format_guid :: "bytes \<Rightarrow> string" where
  "format_guid g =
     show_hex 8 (le_nat (take 4 g)) @ ''-'' @ show_hex 4 (le_nat (slice 4 2 g)) @ ''-''
     @ show_hex 4 (le_nat (slice 6 2 g)) @ ''-''
     @ concat (map (\<lambda>b. show_hex 2 (unat b)) (slice 8 2 g)) @ ''-''
     @ concat (map (\<lambda>b. show_hex 2 (unat b)) (slice 10 6 g))"

definition parse_guid :: "string reader" where
  "parse_guid ptr =
     bindR (read_exact ''parsing GUID'' 16 ptr) (\<lambda>(g, ptr). Ok (format_guid g, ptr))"

definition skip_copy_mask :: "nat \<Rightarrow> unit reader" where
  "skip_copy_mask sz ptr =
     bindR (read_exact ''skipping copy mask'' sz ptr) (\<lambda>(mask, ptr). Ok ((), ptr))"

text \<open>\<open>read_exact(&mut buf[..len + 1])\<close> and the lossy string of the first \<open>len\<close> bytes.\<close>

definition read_str :: "nat \<Rightarrow> string \<Rightarrow> nat \<Rightarrow> string reader" where
  "read_str capacity ctx len ptr =
     (if capacity < len + 1 then Panic
      else bindR (read_exact ctx (len + 1) ptr) (\<lambda>(b, ptr). Ok (from_utf8_lossy (take len b), ptr)))"

definition parse_attribute :: "Attribute reader" where
  "parse_attribute ptr =
     (let ctx = ''parsing attributes'' in
      bindR (read_u8 ctx ptr) (\<lambda>(name_len, ptr).
      bindR (read_u8 ctx ptr) (\<lambda>(value_len, ptr).
      bindR (read_str 256 ctx (unat name_len) ptr) (\<lambda>(name, ptr).
      bindR (read_str 256 ctx (unat value_len) ptr) (\<lambda>(val, ptr).
        Ok (\<lparr>at_name = name, at_value = val\<rparr>, ptr))))))"

definition parse_attributes :: "Attribute list reader" where
  "parse_attributes ptr =
     bindR (read_u16 ''parsing attributes'' ptr) (\<lambda>(count, ptr).
       read_n (unat count) parse_attribute ptr)"

text \<open>
  Rust's \<open>as i64\<close> of an IEEE float given by its bits: towards zero, saturating, and zero for a
  NaN. \<open>p\<close> and \<open>q\<close> are the widths of the fraction and of the exponent.
\<close>

definition saturate_i64 :: "int \<Rightarrow> i64" where
  "saturate_i64 v = word_of_int (max (- (2 ^ 63)) (min (2 ^ 63 - 1) v))"

definition float_as_i64 :: "nat \<Rightarrow> nat \<Rightarrow> nat \<Rightarrow> i64" where
  "float_as_i64 p q bits =
     (let frac = bits mod 2 ^ p;
          ex = bits div 2 ^ p mod 2 ^ q;
          bias = 2 ^ (q - 1) - 1;
          m = (if ex = 0 then frac else 2 ^ p + frac);
          mag = (if bias + p \<le> ex then m * 2 ^ (ex - (bias + p)) else m div 2 ^ (bias + p - max ex 1));
          sgn = (if bits div 2 ^ (p + q) mod 2 = 1 then -1 else 1)
      in if ex = 2 ^ q - 1 \<and> frac \<noteq> 0 then 0
         else saturate_i64 (sgn * int mag))"

text \<open>\<open>raw[..n]\<close> and \<open>raw[0]\<close>, which panic when the value is shorter.\<close>

definition raw_prefix :: "nat \<Rightarrow> bytes \<Rightarrow> bytes res" where
  "raw_prefix n bs = (if n \<le> length bs then Ok (take n bs) else Panic)"

definition raw_as :: "nat \<Rightarrow> (bytes \<Rightarrow> i64) \<Rightarrow> bytes \<Rightarrow> i64 res" where
  "raw_as n f bs = mapR f (raw_prefix n bs)"

definition i16_as_i64 :: "bytes \<Rightarrow> i64" where "i16_as_i64 b = scast (from_le_bytes b :: u16)"
definition i32_as_i64 :: "bytes \<Rightarrow> i64" where "i32_as_i64 b = scast (from_le_bytes b :: u32)"

definition enum_value :: "u32 \<Rightarrow> nat \<Rightarrow> bytes \<Rightarrow> i64 res" where
  "enum_value base_type sz bs =
     (if base_type = 2 then raw_as 2 i16_as_i64 bs
      else if base_type = 3 then raw_as 4 i32_as_i64 bs
      else if base_type = 4 then raw_as 4 (\<lambda>b. float_as_i64 23 8 (le_nat b)) bs
      else if base_type = 5 then raw_as 8 (\<lambda>b. float_as_i64 52 11 (le_nat b)) bs
      else if base_type = 16 then raw_as 1 (\<lambda>b. scast (from_le_bytes b :: u8)) bs
      else if base_type = 17 then raw_as 1 (\<lambda>b. ucast (from_le_bytes b :: u8)) bs
      else if base_type = 18 then raw_as 2 (\<lambda>b. ucast (from_le_bytes b :: u16)) bs
      else if base_type = 19 then raw_as 4 (\<lambda>b. ucast (from_le_bytes b :: u32)) bs
      else if base_type = 20 then raw_as 8 from_le_bytes bs
      else if base_type = 21 then raw_as 8 from_le_bytes bs
      else if sz = 1 then raw_as 1 (\<lambda>b. ucast (from_le_bytes b :: u8)) bs
      else if sz = 2 then raw_as 2 i16_as_i64 bs
      else if sz = 4 then raw_as 4 i32_as_i64 bs
      else if sz = 8 then raw_as 8 from_le_bytes bs
      else Err (Other (''Unexpected enum info value: base_type='' @ show_nat (unat base_type)
                       @ '', size='' @ show_nat sz)))"

definition parse_enum_info :: "nat \<Rightarrow> u32 \<Rightarrow> EnumInfo reader" where
  "parse_enum_info sz base_type ptr =
     (let ctx = ''parsing enum infos'' in
      bindR (read_u8 ctx ptr) (\<lambda>(name_len, ptr).
      bindR (read_str 256 ctx (unat name_len) ptr) (\<lambda>(name, ptr).
      bindR (read_exact ctx sz ptr) (\<lambda>(raw_value, ptr).
      bindR (enum_value base_type sz raw_value) (\<lambda>v.
        Ok (\<lparr>ei_name = name, ei_value = v\<rparr>, ptr))))))"

definition parse_enum_infos :: "nat \<Rightarrow> u32 \<Rightarrow> EnumInfo list reader" where
  "parse_enum_infos sz base_type ptr =
     bindR (read_u16 ''parsing enum infos'' ptr) (\<lambda>(count, ptr).
       read_n (unat count) (parse_enum_info sz base_type) ptr)"

section \<open>RPC methods\<close>

definition parse_rpc_method_parameter :: "bytes \<Rightarrow> RpcMethodParameter res" where
  "parse_rpc_method_parameter ptr =
     (let ctx = ''parsing RPC method parameter'' in
      bindR (read_u32 ctx ptr) (\<lambda>(sz, ptr).
      bindR (read_u32 ctx ptr) (\<lambda>(align_size, ptr).
      bindR (read_u32 ctx ptr) (\<lambda>(ads_data_type, ptr).
      bindR (read_u32 ctx ptr) (\<lambda>(flags, ptr).
      bindR (read_u32 ctx ptr) (\<lambda>(reserved, ptr).
      bindR (read_exact ctx 16 ptr) (\<lambda>(guid_bytes, ptr).
      bindR (read_u16 ctx ptr) (\<lambda>(length_is_param_index, ptr).
      bindR (read_u16 ctx ptr) (\<lambda>(name_len, ptr).
      bindR (read_u16 ctx ptr) (\<lambda>(type_len, ptr).
      bindR (read_u16 ctx ptr) (\<lambda>(comment_len, ptr).
      bindR (read_str 2048 ctx (unat name_len) ptr) (\<lambda>(name, ptr).
      bindR (read_str 2048 ctx (unat type_len) ptr) (\<lambda>(typ, ptr).
      bindR (read_str 2048 ctx (unat comment_len) ptr) (\<lambda>(comment, ptr).
      bindR (if has_flag flags RPC_PARAM_ATTRIBUTE_FLAG then parse_attributes ptr else Ok ([], ptr))
        (\<lambda>(attributes, ptr).
      Ok \<lparr>pm_name = name, pm_typ = typ, pm_size = unat sz, pm_flags = flags,
          pm_comment = comment, pm_attributes = attributes\<rparr>)))))))))))))))"

text \<open>
  An entry with its length in front, the four length bytes included: the entry and what
  follows it.
\<close>

definition read_block_checked :: "string \<Rightarrow> string \<Rightarrow> bytes reader" where
  "read_block_checked ctx msg ptr =
     bindR (read_u32 ctx ptr) (\<lambda>(entry_len, ptr).
       if unat entry_len < 4 then Err (Reply ctx msg entry_len)
       else split_at (unat entry_len - 4) ptr)"

definition with_block :: "bytes reader \<Rightarrow> (bytes \<Rightarrow> 'a res) \<Rightarrow> 'a reader" where
  "with_block block dec ptr =
     bindR (block ptr) (\<lambda>(entry, rest). bindR (dec entry) (\<lambda>x. Ok (x, rest)))"

definition parse_rpc_method :: "bytes \<Rightarrow> RpcMethod res" where
  "parse_rpc_method ptr =
     (let ctx = ''parsing RPC method'' in
      bindR (read_u32 ctx ptr) (\<lambda>(version, ptr).
      bindR (read_u32 ctx ptr) (\<lambda>(v_table_index, ptr).
      bindR (read_u32 ctx ptr) (\<lambda>(return_size, ptr).
      bindR (read_u32 ctx ptr) (\<lambda>(return_align_size, ptr).
      bindR (read_u32 ctx ptr) (\<lambda>(reserved, ptr).
      bindR (read_exact ctx 16 ptr) (\<lambda>(guid_bytes, ptr).
      bindR (read_u32 ctx ptr) (\<lambda>(return_ads_data_type, ptr).
      bindR (read_u32 ctx ptr) (\<lambda>(flags, ptr).
      bindR (read_u16 ctx ptr) (\<lambda>(name_len, ptr).
      bindR (read_u16 ctx ptr) (\<lambda>(return_type_len, ptr).
      bindR (read_u16 ctx ptr) (\<lambda>(comment_len, ptr).
      bindR (read_u16 ctx ptr) (\<lambda>(param_count, ptr).
      bindR (read_str 2048 ctx (unat name_len) ptr) (\<lambda>(name, ptr).
      bindR (read_str 2048 ctx (unat return_type_len) ptr) (\<lambda>(return_type, ptr).
      bindR (read_str 2048 ctx (unat comment_len) ptr) (\<lambda>(comment, ptr).
      bindR (read_n (unat param_count)
          (with_block (read_block_checked ctx ''invalid parameter entry length'')
             parse_rpc_method_parameter) ptr) (\<lambda>(parameters, ptr).
      bindR (if has_flag flags RPC_METHOD_ATTRIBUTE_FLAG then parse_attributes ptr else Ok ([], ptr))
        (\<lambda>(attributes, ptr).
      Ok \<lparr>rm_name = name, rm_return_type = return_type, rm_return_size = unat return_size,
          rm_comment = comment, rm_parameters = parameters, rm_attributes = attributes\<rparr>))))))))))))))))))"

definition parse_method_infos :: "RpcMethod list reader" where
  "parse_method_infos ptr =
     (let ctx = ''parsing method infos'' in
      bindR (read_u16 ctx ptr) (\<lambda>(count, ptr).
        read_n (unat count)
          (with_block (read_block_checked ctx ''invalid method entry length'') parse_rpc_method) ptr))"

section \<open>The optional parts of a type and of a field\<close>

text \<open>A part that is read only when its flag is set.\<close>

definition read_if :: "bool \<Rightarrow> 'a reader \<Rightarrow> 'a option reader" where
  "read_if b r ptr = (if b then bindR (r ptr) (\<lambda>(x, ptr). Ok (Some x, ptr)) else Ok (None, ptr))"

fun or_else :: "'a option \<Rightarrow> 'a option \<Rightarrow> 'a option" where
  "or_else (Some x) y = Some x"
| "or_else None y = y"

definition parse_type_flags :: "Type \<Rightarrow> Type reader" where
  "parse_type_flags typ ptr =
     bindR (read_if (has_flag (ty_flags typ) TYPE_FLAG_GUID) parse_guid ptr) (\<lambda>(guid, ptr).
     bindR (read_if (has_flag (ty_flags typ) TYPE_FLAG_COPY_MASK) (skip_copy_mask (ty_size typ)) ptr)
       (\<lambda>(mask, ptr).
     bindR (read_if (has_flag (ty_flags typ) TYPE_FLAG_METHOD_INFOS) parse_method_infos ptr)
       (\<lambda>(methods, ptr).
     bindR (read_if (has_flag (ty_flags typ) TYPE_FLAG_ATTRIBUTES) parse_attributes ptr)
       (\<lambda>(attributes, ptr).
     bindR (read_if (has_flag (ty_flags typ) TYPE_FLAG_ENUM_INFOS)
         (parse_enum_infos (ty_size typ) (ty_base_type typ)) ptr) (\<lambda>(enum_info, ptr).
     Ok (typ\<lparr>ty_guid := or_else guid (ty_guid typ), ty_methods := or_else methods (ty_methods typ),
             ty_attributes := or_else attributes (ty_attributes typ),
             ty_enum_info := or_else enum_info (ty_enum_info typ)\<rparr>, ptr))))))"

definition parse_field_attributes :: "u32 \<Rightarrow> nat \<Rightarrow> Attribute list option reader" where
  "parse_field_attributes flags sz ptr =
     bindR (read_if (has_flag flags TYPE_FLAG_GUID) parse_guid ptr) (\<lambda>(guid, ptr).
     bindR (read_if (has_flag flags TYPE_FLAG_COPY_MASK) (skip_copy_mask sz) ptr) (\<lambda>(mask, ptr).
     bindR (read_if (has_flag flags TYPE_FLAG_METHOD_INFOS) parse_method_infos ptr)
       (\<lambda>(methods, ptr).
     read_if (has_flag flags TYPE_FLAG_ATTRIBUTES) parse_attributes ptr)))"

section \<open>Types\<close>

text \<open>\<open>lower + total - 1\<close> on \<open>i32\<close>.\<close>

definition in_i32 :: "int \<Rightarrow> bool" where
  "in_i32 v \<longleftrightarrow> - (2 ^ 31) \<le> v \<and> v < 2 ^ 31"

definition upper_bound :: "bool \<Rightarrow> i32 \<Rightarrow> i32 \<Rightarrow> i32 res" where
  "upper_bound oc lower total_len =
     (if oc \<and> \<not> (in_i32 (sint lower + sint total_len) \<and> in_i32 (sint lower + sint total_len - 1))
      then Panic else Ok (lower + total_len - 1))"

definition read_dimension :: "bool \<Rightarrow> string \<Rightarrow> (i32 \<times> i32) reader" where
  "read_dimension oc ctx ptr =
     bindR (read_u32 ctx ptr) (\<lambda>(lower, ptr).
     bindR (read_u32 ctx ptr) (\<lambda>(total_len, ptr).
     bindR (upper_bound oc lower total_len) (\<lambda>upper. Ok ((lower, upper), ptr))))"

text \<open>What both decoders read of an entry after its first twelve bytes.\<close>

record Entry =
  en_size :: nat
  en_offset :: u32
  en_base_type :: u32
  en_flags :: u32
  en_sub_items :: nat
  en_name :: string
  en_type_name :: string
  en_comment :: string
  en_array :: "(i32 \<times> i32) list"

definition read_entry :: "bool \<Rightarrow> string \<Rightarrow> Entry reader" where
  "read_entry oc ctx ptr =
     bindR (read_u32 ctx ptr) (\<lambda>(sz, ptr).
     bindR (read_u32 ctx ptr) (\<lambda>(offset, ptr).
     bindR (read_u32 ctx ptr) (\<lambda>(base_type, ptr).
     bindR (read_u32 ctx ptr) (\<lambda>(flags, ptr).
     bindR (read_u16 ctx ptr) (\<lambda>(len_name, ptr).
     bindR (read_u16 ctx ptr) (\<lambda>(len_type, ptr).
     bindR (read_u16 ctx ptr) (\<lambda>(len_comment, ptr).
     bindR (read_u16 ctx ptr) (\<lambda>(array_dim, ptr).
     bindR (read_u16 ctx ptr) (\<lambda>(sub_items, ptr).
     bindR (read_str 1024 ctx (unat len_name) ptr) (\<lambda>(name, ptr).
     bindR (read_str 1024 ctx (unat len_type) ptr) (\<lambda>(type_name, ptr).
     bindR (read_str 1024 ctx (unat len_comment) ptr) (\<lambda>(comment, ptr).
     bindR (read_n (unat array_dim) (read_dimension oc ctx) ptr) (\<lambda>(array, ptr).
     Ok (\<lparr>en_size = unat sz, en_offset = offset, en_base_type = base_type, en_flags = flags,
          en_sub_items = unat sub_items, en_name = name, en_type_name = type_name,
          en_comment = comment, en_array = array\<rparr>, ptr))))))))))))))"

text \<open>An offset of -1 marks a field that lies somewhere else in memory.\<close>

definition field_of :: "Entry \<Rightarrow> Attribute list option \<Rightarrow> Field" where
  "field_of e attributes =
     \<lparr>fd_name = en_name e, fd_typ = en_type_name e,
      fd_offset = (if en_offset e = 0xFFFFFFFF then None else Some (en_offset e)),
      fd_size = en_size e, fd_array = en_array e, fd_base_type = en_base_type e,
      fd_flags = en_flags e, fd_comment = en_comment e, fd_attributes = attributes\<rparr>"

definition type_of :: "Entry \<Rightarrow> Field list \<Rightarrow> Type" where
  "type_of e fs =
     \<lparr>ty_name = en_name e, ty_type_name = en_type_name e, ty_comment = en_comment e,
      ty_size = en_size e, ty_array = en_array e, ty_fields = fs,
      ty_base_type = en_base_type e, ty_flags = en_flags e, ty_guid = None, ty_methods = None,
      ty_attributes = None, ty_enum_info = None\<rparr>"

section \<open>The bulk uploads\<close>

text \<open>
  \<open>decode_type_info\<close> with a parent, then without one. An entry shorter than its own length
  field panics: the subtraction when overflow is checked, the \<open>split_at\<close> otherwise.
\<close>

definition read_block :: "string \<Rightarrow> bytes reader" where
  "read_block ctx ptr =
     bindR (read_u32 ctx ptr) (\<lambda>(entry_size, ptr).
       if unat entry_size < 4 then Panic else split_at (unat entry_size - 4) ptr)"

definition type_info_ctx :: string where "type_info_ctx = ''decoding type info''"

definition read_bulk_entry :: "bool \<Rightarrow> Entry reader" where
  "read_bulk_entry oc ptr =
     (let ctx = type_info_ctx in
      bindR (read_u32 ctx ptr) (\<lambda>(version, ptr).
      if version \<noteq> 1 then Err (Reply ctx ''unknown type info version'' version)
      else
      bindR (read_u16 ctx ptr) (\<lambda>(subitem_index, ptr).
      bindR (read_u16 ctx ptr) (\<lambda>(plc_interface_id, ptr).
      bindR (read_u32 ctx ptr) (\<lambda>(reserved, ptr).
      read_entry oc ctx ptr)))))"

definition decode_field_info :: "bool \<Rightarrow> bytes \<Rightarrow> Field res" where
  "decode_field_info oc ptr =
     bindR (read_bulk_entry oc ptr) (\<lambda>(e, ptr).
     if en_sub_items e \<noteq> 0 then Panic
     else bindR (parse_field_attributes (en_flags e) (en_size e) ptr) (\<lambda>(attributes, ptr).
       Ok (field_of e attributes)))"

definition decode_type_info :: "bool \<Rightarrow> bytes \<Rightarrow> Type res" where
  "decode_type_info oc ptr =
     bindR (read_bulk_entry oc ptr) (\<lambda>(e, ptr).
     if en_offset e \<noteq> 0 then Panic
     else
       bindR (read_n (en_sub_items e) (with_block (read_block type_info_ctx) (decode_field_info oc)) ptr)
         (\<lambda>(fs, ptr).
       bindR (parse_type_flags (type_of e fs) ptr) (\<lambda>(typinfo, ptr). Ok typinfo)))"

text \<open>\<open>while !data_ptr.is_empty()\<close>\<close>

lemma read_block_shrinks: "read_block ctx ptr = Ok (b, rest) \<Longrightarrow> length rest < length ptr"
  by (auto simp: read_block_def bindR_eq_Ok read_le_def read_exact_eq_Ok split_at_eq_Ok split: if_splits)

function decode_blocks :: "string \<Rightarrow> (bytes \<Rightarrow> 'a res) \<Rightarrow> bytes \<Rightarrow> 'a list res" where
  "decode_blocks ctx dec ptr =
     (if ptr = [] then Ok []
      else bindR (read_block ctx ptr) (\<lambda>(entry, rest).
           bindR (dec entry) (\<lambda>x.
           bindR (decode_blocks ctx dec rest) (\<lambda>xs. Ok (x # xs)))))"
  by pat_completeness auto
termination
  by (relation "measure (\<lambda>(_, _, ptr). length ptr)") (auto dest: read_block_shrinks)

declare decode_blocks.simps [simp del]

definition symbol_ctx :: string where "symbol_ctx = ''decoding symbol info''"

definition decode_symbol :: "bytes \<Rightarrow> Symbol res" where
  "decode_symbol ptr =
     (let ctx = symbol_ctx in
      bindR (read_u32 ctx ptr) (\<lambda>(group, ptr).
      bindR (read_u32 ctx ptr) (\<lambda>(offset, ptr).
      bindR (read_u32 ctx ptr) (\<lambda>(sz, ptr).
      bindR (read_u32 ctx ptr) (\<lambda>(base_type, ptr).
      bindR (read_u16 ctx ptr) (\<lambda>(flags, ptr).
      bindR (read_u16 ctx ptr) (\<lambda>(legacy_array_dim, ptr).
      bindR (read_u16 ctx ptr) (\<lambda>(len_name, ptr).
      bindR (read_u16 ctx ptr) (\<lambda>(len_type, ptr).
      bindR (read_u16 ctx ptr) (\<lambda>(len_comment, ptr).
      bindR (read_str 1024 ctx (unat len_name) ptr) (\<lambda>(name, ptr).
      bindR (read_str 1024 ctx (unat len_type) ptr) (\<lambda>(typ, ptr).
      Ok \<lparr>sym_name = name, ix_group = group, ix_offset = offset, sym_typ = typ,
          sym_size = unat sz, sym_base_type = base_type, sym_flags = ucast flags\<rparr>))))))))))))"

definition insert_type :: "Type \<Rightarrow> TypeMap \<Rightarrow> TypeMap" where
  "insert_type typ type_map = type_map(ty_name typ \<mapsto> typ)"

definition decode_symbol_info :: "bool \<Rightarrow> bytes \<Rightarrow> bytes \<Rightarrow> (Symbol list \<times> TypeMap) res" where
  "decode_symbol_info oc symbol_data type_data =
     bindR (decode_blocks type_info_ctx (decode_type_info oc) type_data) (\<lambda>types.
     let type_map = fold insert_type types Map.empty in
     bindR (decode_blocks symbol_ctx decode_symbol symbol_data) (\<lambda>symbols.
     Ok (symbols, type_map)))"

definition get_symbol_info :: "bool \<Rightarrow> 'w Env \<Rightarrow> ('w Client, Symbol list \<times> TypeMap) op" where
  "get_symbol_info oc env =
     bindS (client_read_exact env SYM_UPLOAD_INFO2 0 (replicate 64 0)) (\<lambda>read_data.
     let symbol_len = unat (from_le_bytes (slice 4 4 read_data) :: u32);
         types_len = unat (from_le_bytes (slice 12 4 read_data) :: u32)
     in bindS (client_read_exact env SYM_DT_UPLOAD 0 (replicate types_len 0)) (\<lambda>type_data.
        bindS (client_read_exact env SYM_UPLOAD 0 (replicate symbol_len 0)) (\<lambda>symbol_data.
        returnS (decode_symbol_info oc symbol_data type_data))))"

section \<open>The query by name\<close>

definition by_name_ctx :: string where "by_name_ctx = ''decoding type info by name''"

definition read_named_entry :: "bool \<Rightarrow> Entry reader" where
  "read_named_entry oc ptr =
     (let ctx = by_name_ctx in
      bindR (read_u32 ctx ptr) (\<lambda>(version, ptr).
      bindR (read_u32 ctx ptr) (\<lambda>(hash, ptr).
      bindR (read_u32 ctx ptr) (\<lambda>(type_hash, ptr).
      read_entry oc ctx ptr))))"

definition decode_named_field :: "bool \<Rightarrow> bytes \<Rightarrow> Field res" where
  "decode_named_field oc ptr =
     bindR (read_named_entry oc ptr) (\<lambda>(e, ptr).
     bindR (parse_field_attributes (en_flags e) (en_size e) ptr) (\<lambda>(attributes, ptr).
       Ok (field_of e attributes)))"

definition decode_type_info_by_name :: "bool \<Rightarrow> bytes \<Rightarrow> Type res" where
  "decode_type_info_by_name oc ptr =
     bindR (read_named_entry oc ptr) (\<lambda>(e, ptr).
     bindR (read_n (en_sub_items e)
         (with_block (read_block_checked by_name_ctx ''invalid sub-item entry length'')
            (decode_named_field oc)) ptr) (\<lambda>(fs, ptr).
     bindR (parse_type_flags (type_of e fs) ptr) (\<lambda>(typinfo, ptr). Ok typinfo)))"

definition get_type_info_by_name :: "bool \<Rightarrow> 'w Env \<Rightarrow> string \<Rightarrow> ('w Client, Type) op" where
  "get_type_info_by_name oc env type_name =
     bindS (client_read_write env GET_TYPEINFO_BYNAME_EX 0 (replicate 4096 0) (as_bytes type_name))
       (\<lambda>(n, read_data).
     if length read_data < n then returnS Panic
     else let data = take n read_data in
       if length data < 4 then
         returnS (Err (Reply ''get type info by name'' ''response too short'' (of_nat (length data))))
       else
         let entry_length = unat (from_le_bytes (take 4 data) :: u32);
             body_end = min entry_length (length data)
         in if body_end < 4 then returnS Panic
            else returnS (decode_type_info_by_name oc (slice 4 (body_end - 4) data)))"

section \<open>The two decoders agree\<close>

text \<open>\<open>m\<close> succeeds only where \<open>m'\<close> does, with the same outcome.\<close>

definition ok_le :: "'a res \<Rightarrow> 'a res \<Rightarrow> bool" where
  "ok_le m m' \<longleftrightarrow> (\<forall>x. m = Ok x \<longrightarrow> m' = Ok x)"

lemma ok_leD: "ok_le m m' \<Longrightarrow> m = Ok x \<Longrightarrow> m' = Ok x"
  by (simp add: ok_le_def)

lemma ok_le_refl [simp]: "ok_le m m"
  by (simp add: ok_le_def)

lemma ok_le_Err [simp]: "ok_le (Err e) m" "ok_le Panic m"
  by (simp_all add: ok_le_def)

lemma ok_le_bindR: "ok_le m m' \<Longrightarrow> (\<And>x. ok_le (f x) (f' x)) \<Longrightarrow> ok_le (bindR m f) (bindR m' f')"
  by (auto simp: ok_le_def bindR_eq_Ok)

lemma ok_le_bind_prod:
  "ok_le m m' \<Longrightarrow> (\<And>x y. ok_le (f x y) (f' x y))
   \<Longrightarrow> ok_le (bindR m (\<lambda>(x, y). f x y)) (bindR m' (\<lambda>(x, y). f' x y))"
  by (auto simp: ok_le_def bindR_eq_Ok)

lemma ok_le_read_exact: "ok_le (read_exact ctx n ptr) (read_exact ctx' n ptr)"
  by (auto simp: ok_le_def read_exact_eq_Ok)

lemma ok_le_read_le: "ok_le (read_le ctx ptr) (read_le ctx' ptr)"
  unfolding read_le_def by (intro ok_le_bind_prod ok_le_read_exact ok_le_refl)

lemma ok_le_read_str: "ok_le (read_str cap ctx n ptr) (read_str cap ctx' n ptr)"
  unfolding read_str_def by (auto intro!: ok_le_bind_prod ok_le_read_exact)

lemma ok_le_read_n: "(\<And>ptr. ok_le (r ptr) (r' ptr)) \<Longrightarrow> ok_le (read_n n r ptr) (read_n n r' ptr)"
  by (induction n arbitrary: ptr) (auto intro!: ok_le_bind_prod)

lemmas ok_le_intros = ok_le_bind_prod ok_le_bindR ok_le_read_exact ok_le_read_le ok_le_read_str
  ok_le_read_n ok_le_refl

lemma ok_le_entry: "ok_le (read_entry oc ctx ptr) (read_entry oc ctx' ptr)"
  unfolding read_entry_def read_dimension_def by (intro ok_le_intros)

lemma ok_le_bulk_entry: "ok_le (read_bulk_entry oc ptr) (read_named_entry oc ptr)"
  unfolding ok_le_def
proof (intro allI impI)
  fix x
  assume "read_bulk_entry oc ptr = Ok x"
  then obtain i j r rest where ptr: "ptr = to_le_bytes (1 :: u32) @ to_le_bytes (i :: u16)
        @ to_le_bytes (j :: u16) @ to_le_bytes (r :: u32) @ rest"
      and x: "read_entry oc type_info_ctx rest = Ok x"
    by (auto simp: read_bulk_entry_def Let_def bindR_eq_Ok read_le_eq_Ok split: if_splits)
  have "to_le_bytes i @ to_le_bytes j = to_le_bytes (from_le_bytes (to_le_bytes i @ to_le_bytes j) :: u32)"
    by (rule to_from_le_bytes [symmetric]) (simp_all add: length_to_le_bytes)
  then have "ptr = to_le_bytes (1 :: u32)
      @ to_le_bytes (from_le_bytes (to_le_bytes i @ to_le_bytes j) :: u32) @ to_le_bytes r @ rest"
    unfolding ptr by (metis append.assoc)
  then show "read_named_entry oc ptr = Ok x"
    using ok_leD [OF ok_le_entry x] by (simp add: read_named_entry_def Let_def read_le_append)
qed

lemma ok_le_block: "ok_le (read_block ctx ptr) (read_block_checked ctx' msg ptr)"
  unfolding read_block_def read_block_checked_def
  by (intro ok_le_intros) simp

lemma ok_le_field: "ok_le (decode_field_info oc ptr) (decode_named_field oc ptr)"
  unfolding decode_field_info_def decode_named_field_def
  by (auto intro!: ok_le_bind_prod ok_le_bulk_entry)

lemma ok_le_type: "ok_le (decode_type_info oc ptr) (decode_type_info_by_name oc ptr)"
  unfolding decode_type_info_def decode_type_info_by_name_def with_block_def
  by (auto intro!: ok_le_bind_prod ok_le_bindR ok_le_bulk_entry ok_le_read_n ok_le_block ok_le_field)

end
