(* ===== verification/TypeTree.thy ===== *)
theory TypeTree
  imports SymType
begin

text \<open>
  Type trees (\<open>src/symbol/type_tree.rs\<close>): the shape of a symbol's memory, built from its type
  name and the type map of theory \<open>SymType\<close>, and lookup along a path.

  An \<open>IndexMap\<close> is an association list in insertion order; \<^const>\<open>AList.update\<close> replaces the
  value of an old key in place and appends a new one, as \<open>insert\<close> does. Building a tree
  follows the type names of the fields, so it need not end: \<open>try_from_type_or_field\<close> takes
  the depth it may go down as fuel, and \<open>None\<close> says that the code goes deeper.
\<close>

datatype SymbolTypeTree =
    TStruct "(string \<times> (SymbolTypeTree \<times> u32 option)) list" nat
  | TArray SymbolTypeTree nat
  | TVoid nat
  | TInt | TDint | TReal | TLreal | TSint | TUsint | TUint | TUdint | TLint | TUlint
  | TString nat
  | TWstring nat
  | TReal80
  | TBool
  | TCompound nat
  | TUnknown nat
  | TMissing

type_synonym type_fields = "(string \<times> (SymbolTypeTree \<times> u32 option)) list"

primrec get_size :: "SymbolTypeTree \<Rightarrow> nat" where
  "get_size (TStruct m n) = n"
| "get_size (TArray t n) = n"
| "get_size (TVoid n) = n"
| "get_size TInt = 2"
| "get_size TDint = 4"
| "get_size TReal = 4"
| "get_size TLreal = 8"
| "get_size TSint = 1"
| "get_size TUsint = 1"
| "get_size TUint = 2"
| "get_size TUdint = 4"
| "get_size TLint = 8"
| "get_size TUlint = 8"
| "get_size (TString n) = n"
| "get_size (TWstring n) = n"
| "get_size TReal80 = 10"
| "get_size TBool = 1"
| "get_size (TCompound n) = n"
| "get_size (TUnknown n) = n"
| "get_size TMissing = 0"

definition from_type_id :: "u32 \<Rightarrow> nat \<Rightarrow> SymbolTypeTree" where
  "from_type_id type_id n =
     (if type_id = 0 then TVoid n
      else if type_id = 2 then TInt
      else if type_id = 3 then TDint
      else if type_id = 4 then TReal
      else if type_id = 5 then TLreal
      else if type_id = 16 then TSint
      else if type_id = 17 then TUsint
      else if type_id = 18 then TUint
      else if type_id = 19 then TUdint
      else if type_id = 20 then TLint
      else if type_id = 21 then TUlint
      else if type_id = 30 then TString n
      else if type_id = 31 then TWstring n
      else if type_id = 32 then TReal80
      else if type_id = 33 then TBool
      else if type_id = 65 then TCompound n
      else TUnknown n)"

type_synonym tree_result = "symbol_type_tree_error + SymbolTypeTree"

text \<open>The loop over the fields: a field whose tree fails becomes \<open>Unknown\<close>.\<close>

fun insert_fields :: "(Field \<Rightarrow> tree_result option) \<Rightarrow> Field list \<Rightarrow> type_fields \<Rightarrow> type_fields option" where
  "insert_fields child [] struct_map = Some struct_map"
| "insert_fields child (f # fs) struct_map =
     (case child f of
        None \<Rightarrow> None
      | Some r \<Rightarrow>
          insert_fields child fs
            (AList.update (fd_name f)
              ((case r of Inr t \<Rightarrow> t | Inl e \<Rightarrow> TUnknown (fd_size f)), fd_offset f) struct_map))"

fun try_from_type_or_field :: "nat \<Rightarrow> u32 \<Rightarrow> nat \<Rightarrow> string \<Rightarrow> TypeMap \<Rightarrow> tree_result option" where
  "try_from_type_or_field 0 base_type n type_name type_map = None"
| "try_from_type_or_field (Suc fuel) base_type n type_name type_map =
     (case from_type_id base_type n of
        TCompound struct_size \<Rightarrow>
          (case type_map type_name of
             None \<Rightarrow> Some (Inl (MissingSymbolTypeInfo type_name))
           | Some tree_type \<Rightarrow>
               if ty_fields tree_type \<noteq> [] then
                 map_option (\<lambda>struct_map. Inr (TStruct struct_map (ty_size tree_type)))
                   (insert_fields
                     (\<lambda>f. try_from_type_or_field fuel (fd_base_type f) (fd_size f) (fd_typ f) type_map)
                     (ty_fields tree_type) [])
               else Some (Inr (TArray TUsint n)))
      | tree \<Rightarrow> Some (Inr tree))"

definition try_from_symbol :: "nat \<Rightarrow> Symbol \<Rightarrow> TypeMap \<Rightarrow> tree_result option" where
  "try_from_symbol fuel s type_map =
     try_from_type_or_field fuel (sym_base_type s) (sym_size s) (sym_typ s) type_map"

definition try_from_field :: "nat \<Rightarrow> Field \<Rightarrow> TypeMap \<Rightarrow> tree_result option" where
  "try_from_field fuel f type_map =
     try_from_type_or_field fuel (fd_base_type f) (fd_size f) (fd_typ f) type_map"

text \<open>Lookup along a path of names separated by dots.\<close>

definition type_child :: "SymbolTypeTree \<Rightarrow> string \<Rightarrow> SymbolTypeTree option" where
  "type_child t name =
     (case t of TStruct children n \<Rightarrow> map_option fst (map_of children name) | _ \<Rightarrow> None)"

fun type_walk :: "SymbolTypeTree \<Rightarrow> string list \<Rightarrow> SymbolTypeTree" where
  "type_walk current [] = current"
| "type_walk current (token # tokens) =
     (case type_child current token of Some child \<Rightarrow> type_walk child tokens | None \<Rightarrow> TMissing)"

definition type_get_child :: "SymbolTypeTree \<Rightarrow> string \<Rightarrow> SymbolTypeTree" where
  "type_get_child t symbol_path = type_walk t (split_on CHR ''.'' symbol_path)"

section \<open>What is built\<close>

text \<open>
  A tree the program can use: the keys of every struct are distinct, and no \<open>Compound\<close>, the
  mark of a type not looked up yet, is left in it.
\<close>

fun usable :: "SymbolTypeTree \<Rightarrow> bool" where
  "usable (TStruct m n) \<longleftrightarrow> distinct (map fst m) \<and> (\<forall>(name, t, off) \<in> set m. usable t)"
| "usable (TArray t n) \<longleftrightarrow> usable t"
| "usable (TCompound n) \<longleftrightarrow> False"
| "usable t \<longleftrightarrow> True"

lemma from_type_id_cases:
  "type_id \<noteq> 65 \<Longrightarrow> from_type_id type_id n \<noteq> TCompound k"
  "from_type_id 65 n = TCompound n"
  "type_id \<noteq> 65 \<Longrightarrow> usable (from_type_id type_id n)"
  by (simp_all add: from_type_id_def)

lemma insert_fields_keeps:
  assumes "insert_fields child fs m = Some m'" and "P m"
    and "\<And>f r m. P m \<Longrightarrow> f \<in> set fs \<Longrightarrow> child f = Some r \<Longrightarrow>
      P (AList.update (fd_name f) ((case r of Inr t \<Rightarrow> t | Inl e \<Rightarrow> TUnknown (fd_size f)), fd_offset f) m)"
  shows "P m'"
  using assms by (induction child fs m rule: insert_fields.induct) (auto split: option.splits)

lemma try_from_simps:
  "base_type \<noteq> 65 \<Longrightarrow>
     try_from_type_or_field (Suc fuel) base_type n name tm = Some (Inr (from_type_id base_type n))"
  "try_from_type_or_field (Suc fuel) 65 n name tm =
     (case tm name of
        None \<Rightarrow> Some (Inl (MissingSymbolTypeInfo name))
      | Some t \<Rightarrow>
          if ty_fields t \<noteq> [] then
            map_option (\<lambda>m. Inr (TStruct m (ty_size t)))
              (insert_fields (\<lambda>f. try_from_type_or_field fuel (fd_base_type f) (fd_size f) (fd_typ f) tm)
                (ty_fields t) [])
          else Some (Inr (TArray TUsint n)))"
  using from_type_id_cases(1) [of base_type n]
  by (cases "from_type_id base_type n"; simp add: from_type_id_cases)+

declare try_from_type_or_field.simps(2) [simp del]

lemma set_update_sub: "set (AList.update k v m) \<subseteq> insert (k, v) (set m)"
  by (induction m) auto

lemma usable_built:
  "try_from_type_or_field fuel base_type n name tm = Some (Inr t) \<Longrightarrow> usable t"
proof (induction fuel arbitrary: base_type n name t)
  case (Suc fuel)
  show ?case
  proof (cases "base_type = 65")
    case False
    with Suc.prems show ?thesis
      using try_from_simps(1) [OF False] from_type_id_cases(3) by auto
  next
    case True
    let ?child = "\<lambda>f. try_from_type_or_field fuel (fd_base_type f) (fd_size f) (fd_typ f) tm"
    let ?P = "\<lambda>m. distinct (map fst m) \<and> (\<forall>(name, t, off) \<in> set m. usable t)"
    have "?P m" if "insert_fields ?child fs [] = Some m" for fs m
    proof (rule insert_fields_keeps [OF that, of ?P])
      show "?P (AList.update (fd_name f)
          ((case r of Inr t \<Rightarrow> t | Inl e \<Rightarrow> TUnknown (fd_size f)), fd_offset f) m)"
        if "?P m" "?child f = Some r" for f r m
        using that Suc.IH set_update_sub
        by (fastforce simp: distinct_update split: sum.split)
    qed simp
    then show ?thesis
      using Suc.prems True
      by (auto simp: try_from_simps split: option.splits if_splits)
  qed
qed simp

text \<open>
  C19: a type tree that is built is usable: in every struct, at any depth, the names are
  distinct, and no type is left as an unresolved \<open>Compound\<close>.
\<close>

theorem type_tree_usable:
  assumes "try_from_symbol fuel s type_map = Some (Inr t)"
  shows "usable t"
  using assms by (auto simp: try_from_symbol_def intro: usable_built)

section \<open>When building ends\<close>

lemma insert_fields_total:
  "\<forall>f \<in> set fs. child f \<noteq> None \<Longrightarrow> insert_fields child fs m \<noteq> None"
  by (induction child fs m rule: insert_fields.induct) auto

lemma insert_fields_stuck:
  "f \<in> set fs \<Longrightarrow> child f = None \<Longrightarrow> insert_fields child fs m = None"
  by (induction child fs m rule: insert_fields.induct) (auto split: option.split)

lemma insert_fields_mono:
  assumes "insert_fields child fs m = Some m'" and "\<And>f r. child f = Some r \<Longrightarrow> child' f = Some r"
  shows "insert_fields child' fs m = Some m'"
  using assms(1)
proof (induction fs arbitrary: m)
  case (Cons f fs)
  then obtain r where r: "child f = Some r"
    by (cases "child f") simp_all
  with Cons.prems have "insert_fields child fs (AList.update (fd_name f)
      ((case r of Inr t \<Rightarrow> t | Inl e \<Rightarrow> TUnknown (fd_size f)), fd_offset f) m) = Some m'"
    by simp
  then have "insert_fields child' fs (AList.update (fd_name f)
      ((case r of Inr t \<Rightarrow> t | Inl e \<Rightarrow> TUnknown (fd_size f)), fd_offset f) m) = Some m'"
    by (rule Cons.IH)
  then show ?case
    by (simp add: assms(2) [OF r])
qed simp

text \<open>More fuel never changes a tree that was built.\<close>

lemma try_from_mono:
  "try_from_type_or_field fuel base_type n name tm = Some r \<Longrightarrow> fuel \<le> fuel' \<Longrightarrow>
     try_from_type_or_field fuel' base_type n name tm = Some r"
proof (induction fuel arbitrary: base_type n name r fuel')
  case (Suc fuel)
  from Suc.prems(2) obtain k where k: "fuel' = Suc k" "fuel \<le> k"
    by (auto dest: Suc_le_D)
  show ?case
  proof (cases "base_type = 65")
    case True
    let ?child = "\<lambda>fuel f. try_from_type_or_field fuel (fd_base_type f) (fd_size f) (fd_typ f) tm"
    have "insert_fields (?child k) fs [] = Some m" if "insert_fields (?child fuel) fs [] = Some m" for fs m
      by (rule insert_fields_mono [OF that]) (rule Suc.IH [OF _ k(2)])
    then show ?thesis
      using Suc.prems(1) unfolding k True try_from_simps
      by (auto split: option.splits if_splits)
  next
    case False
    then show ?thesis
      using Suc.prems(1) unfolding k by (simp add: try_from_simps)
  qed
qed simp

text \<open>
  The type map is acyclic when the types of a struct's compound fields have a smaller rank
  than the struct.
\<close>

definition ranked :: "(string \<Rightarrow> nat) \<Rightarrow> TypeMap \<Rightarrow> bool" where
  "ranked rank tm \<longleftrightarrow>
     (\<forall>name t f. tm name = Some t \<and> f \<in> set (ty_fields t) \<and> fd_base_type f = 65
        \<and> tm (fd_typ f) \<noteq> None \<longrightarrow> rank (fd_typ f) < rank name)"

lemma ranked_ends:
  "ranked rank tm \<Longrightarrow> 1 \<le> fuel \<Longrightarrow> (tm name \<noteq> None \<Longrightarrow> rank name + 2 \<le> fuel) \<Longrightarrow>
     try_from_type_or_field fuel base_type n name tm \<noteq> None"
proof (induction fuel arbitrary: base_type n name)
  case (Suc fuel)
  show ?case
  proof (cases "base_type = 65")
    case True
    let ?child = "\<lambda>f. try_from_type_or_field fuel (fd_base_type f) (fd_size f) (fd_typ f) tm"
    show ?thesis
    proof (cases "tm name")
      case (Some t)
      have "1 \<le> fuel"
        using Suc.prems(3) Some by simp
      have "\<forall>f \<in> set (ty_fields t). ?child f \<noteq> None"
      proof
        fix f
        assume f: "f \<in> set (ty_fields t)"
        show "?child f \<noteq> None"
        proof (cases "fd_base_type f = 65")
          case True
          then have "rank (fd_typ f) + 2 \<le> fuel" if "tm (fd_typ f) \<noteq> None"
            using that f Some Suc.prems(1,3) unfolding ranked_def by fastforce
          then show ?thesis
            using Suc.IH Suc.prems(1) \<open>1 \<le> fuel\<close> by blast
        next
          case False
          then show ?thesis
            using \<open>1 \<le> fuel\<close> by (cases fuel) (auto simp: try_from_simps)
        qed
      qed
      then show ?thesis
        using Some True insert_fields_total by (simp add: try_from_simps)
    qed (simp add: True try_from_simps)
  qed (simp add: try_from_simps)
qed simp

text \<open>
  C18: on an acyclic type map building a tree ends, after no more levels than the rank of the
  symbol's type says, and more fuel gives the same tree.
\<close>

theorem acyclic_types_build:
  assumes "ranked rank type_map" and "rank (sym_typ s) + 2 \<le> fuel"
  shows "\<exists>r. \<forall>fuel'. fuel \<le> fuel' \<longrightarrow> try_from_symbol fuel' s type_map = Some r"
proof -
  obtain r where "try_from_symbol fuel s type_map = Some r"
    using ranked_ends [OF assms(1)] assms(2) by (fastforce simp: try_from_symbol_def)
  then show ?thesis
    using try_from_mono unfolding try_from_symbol_def by blast
qed

text \<open>A set of types each of which has a compound field of a type in the set.\<close>

definition cyclic :: "string set \<Rightarrow> TypeMap \<Rightarrow> bool" where
  "cyclic names tm \<longleftrightarrow>
     (\<forall>name \<in> names. \<exists>t f. tm name = Some t \<and> f \<in> set (ty_fields t) \<and> fd_base_type f = 65
        \<and> fd_typ f \<in> names)"

lemma cyclic_diverges:
  "cyclic names tm \<Longrightarrow> name \<in> names \<Longrightarrow> try_from_type_or_field fuel 65 n name tm = None"
proof (induction fuel arbitrary: n name)
  case (Suc fuel)
  then obtain t f where t: "tm name = Some t" "f \<in> set (ty_fields t)" "fd_base_type f = 65" "fd_typ f \<in> names"
    unfolding cyclic_def by blast
  have "try_from_type_or_field fuel (fd_base_type f) (fd_size f) (fd_typ f) tm = None"
    using Suc.IH [OF Suc.prems(1) t(4)] t(3) by simp
  then have "insert_fields (\<lambda>f. try_from_type_or_field fuel (fd_base_type f) (fd_size f) (fd_typ f) tm)
      (ty_fields t) [] = None"
    using insert_fields_stuck [OF t(2)] by simp
  then show ?case
    using t by (auto simp: try_from_simps)
qed simp

text \<open>
  C31: on a type that contains itself, directly or through other types, building never ends:
  no depth of recursion is enough, so the program overflows its stack.
\<close>

theorem cyclic_types_diverge:
  assumes "cyclic names type_map" and "sym_typ s \<in> names" and "sym_base_type s = 65"
  shows "try_from_symbol fuel s type_map = None"
  using cyclic_diverges [OF assms(1,2)] assms(3) by (simp add: try_from_symbol_def)

section \<open>Paths\<close>

lemma type_walk_Missing: "ts \<noteq> [] \<Longrightarrow> type_walk TMissing ts = TMissing"
  by (cases ts) (simp_all add: type_child_def)

lemma type_walk_append: "qs \<noteq> [] \<Longrightarrow> type_walk t (ps @ qs) = type_walk (type_walk t ps) qs"
  by (induction t ps rule: type_walk.induct) (auto simp: type_walk_Missing split: option.split)

text \<open>
  Paths compose: the node at \<open>p.q\<close> is the node at \<open>q\<close> of the node at \<open>p\<close>, and there is
  nothing below a missing node.
\<close>

theorem type_paths_compose:
  "type_get_child t (p @ CHR ''.'' # q) = type_get_child (type_get_child t p) q"
  by (simp add: type_get_child_def split_on_append2 type_walk_append)

section \<open>Samples\<close>

definition plain_field :: "string \<Rightarrow> string \<Rightarrow> u32 \<Rightarrow> nat \<Rightarrow> u32 option \<Rightarrow> Field" where
  "plain_field name typ base_type n offset =
     \<lparr>fd_name = name, fd_typ = typ, fd_offset = offset, fd_size = n, fd_array = [],
      fd_base_type = base_type, fd_flags = 0, fd_comment = [], fd_attributes = None\<rparr>"

definition plain_type :: "string \<Rightarrow> nat \<Rightarrow> Field list \<Rightarrow> Type" where
  "plain_type name n fs =
     \<lparr>ty_name = name, ty_type_name = [], ty_comment = [], ty_size = n, ty_array = [], ty_fields = fs,
      ty_base_type = 65, ty_flags = 1, ty_guid = None, ty_methods = None, ty_attributes = None,
      ty_enum_info = None\<rparr>"

definition plain_symbol :: "string \<Rightarrow> string \<Rightarrow> nat \<Rightarrow> Symbol" where
  "plain_symbol name typ n =
     \<lparr>sym_name = name, ix_group = 0x4040, ix_offset = 0, sym_typ = typ, sym_size = n,
      sym_base_type = 65, sym_flags = 0\<rparr>"

definition nested_types :: TypeMap where
  "nested_types =
     [''A'' \<mapsto> plain_type ''A'' 6 [plain_field ''n'' ''INT'' 2 2 (Some 0), plain_field ''b'' ''B'' 65 4 (Some 2)],
      ''B'' \<mapsto> plain_type ''B'' 4 [plain_field ''x'' ''DINT'' 3 4 (Some 0)]]"

definition nested_tree :: SymbolTypeTree where
  "nested_tree = TStruct [(''n'', TInt, Some 0), (''b'', TStruct [(''x'', TDint, Some 0)] 4, Some 2)] 6"

lemma nested_tree_built:
  "try_from_symbol 3 (plain_symbol ''MAIN.a'' ''A'' 6) nested_types = Some (Inr nested_tree)"
  by (simp add: try_from_symbol_def plain_symbol_def nested_types_def plain_type_def plain_field_def
      nested_tree_def numeral_3_eq_3 try_from_simps from_type_id_def)

theorem type_tree_usable_witness: "usable nested_tree"
  using type_tree_usable [OF nested_tree_built] .

theorem acyclic_types_build_witness:
  "\<exists>r. \<forall>fuel. 3 \<le> fuel \<longrightarrow> try_from_symbol fuel (plain_symbol ''MAIN.a'' ''A'' 6) nested_types = Some r"
proof (rule acyclic_types_build)
  show "ranked (\<lambda>name. if name = ''A'' then 1 else 0) nested_types"
    by (auto simp: ranked_def nested_types_def plain_type_def plain_field_def split: if_splits)
  show "(if sym_typ (plain_symbol ''MAIN.a'' ''A'' 6) = ''A'' then 1 else 0) + 2 \<le> (3 :: nat)"
    by (simp add: plain_symbol_def)
qed

theorem cyclic_types_diverge_witness:
  "try_from_symbol 100 (plain_symbol ''MAIN.l'' ''LIST'' 8)
     [''LIST'' \<mapsto> plain_type ''LIST'' 8 [plain_field ''next'' ''LIST'' 65 8 (Some 0)]] = None"
  by (rule cyclic_types_diverge [of "{''LIST''}"])
    (simp_all add: cyclic_def plain_type_def plain_field_def plain_symbol_def)

end
