(* ===== verification/SymbolTree.thy ===== *)
theory SymbolTree
  imports TypeTree
begin

text \<open>
  Symbol trees (\<open>src/symbol/tree.rs\<close>): the values of a symbol's memory in the shape of its
  type tree, lookup along a path, time stamps, and the calls the serde deserializer makes.

  \<^item> Integers are words of their width; a float is its bit pattern.
  \<^item> \<open>to_f64\<close> of the \<open>extended\<close> crate and the calendar of the \<open>chrono\<close> crate are parameters.
  \<^item> A slice that goes beyond the data panics. The variant \<open>Int\<close> is named \<open>IntV\<close>.
\<close>

datatype SymbolTree =
    Missing
  | Malformed
  | Struct "(string \<times> SymbolTree) list"
  | Array "SymbolTree list"
  | Void bytes
  | IntV u16
  | Dint u32
  | Real u32
  | Lreal u64
  | Sint u8
  | Usint u8
  | Uint u16
  | Udint u32
  | Lint u64
  | Ulint u64
  | String string
  | Real80 u64
  | Bool bool
  | Unknown

section \<open>Reading a value\<close>

text \<open>\<open>match T::read_from_prefix(data) { Ok((num, _)) => C(num), Err(_) => Malformed }\<close>\<close>

definition read_num :: "('a::len word \<Rightarrow> SymbolTree) \<Rightarrow> bytes \<Rightarrow> SymbolTree" where
  "read_num mk bs = (case word_read_from_prefix bs of Some num \<Rightarrow> mk num | None \<Rightarrow> Malformed)"

text \<open>\<open>&data[0..n]\<close>\<close>

definition take_slice :: "nat \<Rightarrow> bytes \<Rightarrow> bytes res" where
  "take_slice n bs = (if n \<le> length bs then Ok (take n bs) else Panic)"

text \<open>The loop that reads a wide string two bytes at a time.\<close>

fun read_words :: "nat \<Rightarrow> bytes \<Rightarrow> u16 list res" where
  "read_words 0 bs = Ok []"
| "read_words (Suc n) bs =
     (if length bs < 2 then Panic
      else mapR (\<lambda>ws. from_le_bytes (take 2 bs) # ws) (read_words n (drop 2 bs)))"

definition read_wstring :: "nat \<Rightarrow> bytes \<Rightarrow> string option res" where
  "read_wstring n bs =
     (if n mod 2 \<noteq> 0 then Ok None
      else mapR (\<lambda>words. Some (from_utf16_lossy words)) (read_words (n div 2) bs))"

definition read_string :: "nat \<Rightarrow> bytes \<Rightarrow> string res" where
  "read_string n bs = mapR from_utf8_lossy (take_slice n bs)"

text \<open>The cases of \<open>from_bytes\<close> that do not descend.\<close>

definition read_leaf :: "(bytes \<Rightarrow> u64) \<Rightarrow> SymbolTypeTree \<Rightarrow> bytes \<Rightarrow> SymbolTree res" where
  "read_leaf to_f64 t bs =
     (case t of
        TStruct m n \<Rightarrow> Ok Malformed
      | TArray t n \<Rightarrow> mapR (\<lambda>b. Array [Void b]) (take_slice n bs)
      | TVoid n \<Rightarrow> mapR Void (take_slice n bs)
      | TInt \<Rightarrow> Ok (read_num IntV bs)
      | TDint \<Rightarrow> Ok (read_num Dint bs)
      | TReal \<Rightarrow> Ok (read_num Real bs)
      | TLreal \<Rightarrow> Ok (read_num Lreal bs)
      | TSint \<Rightarrow> Ok (read_num Sint bs)
      | TUsint \<Rightarrow> Ok (read_num Usint bs)
      | TUint \<Rightarrow> Ok (read_num Uint bs)
      | TUdint \<Rightarrow> Ok (read_num Udint bs)
      | TLint \<Rightarrow> Ok (read_num Lint bs)
      | TUlint \<Rightarrow> Ok (read_num Ulint bs)
      | TString n \<Rightarrow> mapR String (read_string n bs)
      | TWstring n \<Rightarrow>
          mapR (\<lambda>s. case s of Some s \<Rightarrow> String s | None \<Rightarrow> Malformed) (read_wstring n bs)
      | TReal80 \<Rightarrow> Ok (if length bs < 10 then Malformed else Real80 (to_f64 (take 10 bs)))
      | TBool \<Rightarrow> Ok (read_num (\<lambda>num :: u8. Bool (num \<noteq> 0)) bs)
      | TCompound n \<Rightarrow> Ok Malformed
      | TUnknown n \<Rightarrow> Ok Unknown
      | TMissing \<Rightarrow> Ok Missing)"

fun from_bytes :: "(bytes \<Rightarrow> u64) \<Rightarrow> bytes \<Rightarrow> SymbolTypeTree \<Rightarrow> nat \<Rightarrow> SymbolTree res"
  and from_fields ::
    "(bytes \<Rightarrow> u64) \<Rightarrow> bytes \<Rightarrow> type_fields \<Rightarrow> nat \<Rightarrow> (string \<times> SymbolTree) list
      \<Rightarrow> (string \<times> SymbolTree) list res"
where
  "from_bytes to_f64 data t parent_offset =
     (if length data < parent_offset then Ok Missing
      else case t of
        TStruct tree_type_map n \<Rightarrow> mapR Struct (from_fields to_f64 data tree_type_map parent_offset [])
      | _ \<Rightarrow> read_leaf to_f64 t (drop parent_offset data))"
| "from_fields to_f64 data [] parent_offset tree_map = Ok tree_map"
| "from_fields to_f64 data ((name, field_type_tree, offset) # fs) parent_offset tree_map =
     (case offset of
        Some child_offset \<Rightarrow>
          bindR (from_bytes to_f64 data field_type_tree (parent_offset + unat child_offset)) (\<lambda>child.
            from_fields to_f64 data fs parent_offset (AList.update name child tree_map))
      | None \<Rightarrow> from_fields to_f64 data fs parent_offset (AList.update name Missing tree_map))"

section \<open>Lookup\<close>

definition child_of :: "SymbolTree \<Rightarrow> string \<Rightarrow> SymbolTree option" where
  "child_of t name = (case t of Struct children \<Rightarrow> map_of children name | _ \<Rightarrow> None)"

fun walk :: "SymbolTree \<Rightarrow> string list \<Rightarrow> SymbolTree" where
  "walk current [] = current"
| "walk current (token # tokens) =
     (case child_of current token of Some child \<Rightarrow> walk child tokens | None \<Rightarrow> Missing)"

definition get_child :: "SymbolTree \<Rightarrow> string \<Rightarrow> SymbolTree" where
  "get_child t symbol_path = walk t (split_on CHR ''.'' symbol_path)"

definition uint_of :: "(string \<times> SymbolTree) list \<Rightarrow> string \<Rightarrow> u16 option" where
  "uint_of m key = (case map_of m key of Some (Uint v) \<Rightarrow> Some v | _ \<Rightarrow> None)"

text \<open>
  \<open>from_ymd_opt\<close> and \<open>and_hms_milli_opt\<close> of chrono give a date, or none when there is no such
  day or time.
\<close>

definition datetime ::
  "(nat \<Rightarrow> nat \<Rightarrow> nat \<Rightarrow> 'date option) \<Rightarrow> ('date \<Rightarrow> nat \<Rightarrow> nat \<Rightarrow> nat \<Rightarrow> nat \<Rightarrow> 'dt option)
   \<Rightarrow> u16 \<Rightarrow> u16 \<Rightarrow> u16 \<Rightarrow> u16 \<Rightarrow> u16 \<Rightarrow> u16 \<Rightarrow> u16 \<Rightarrow> 'dt option" where
  "datetime from_ymd and_hms year month day hour minute second milliseconds =
     Option.bind (from_ymd (unat year) (unat month) (unat day)) (\<lambda>date.
       and_hms date (unat hour) (unat minute) (unat second) (unat milliseconds))"

definition get_timestamp ::
  "(nat \<Rightarrow> nat \<Rightarrow> nat \<Rightarrow> 'date option) \<Rightarrow> ('date \<Rightarrow> nat \<Rightarrow> nat \<Rightarrow> nat \<Rightarrow> nat \<Rightarrow> 'dt option)
   \<Rightarrow> SymbolTree \<Rightarrow> string \<Rightarrow> 'dt option" where
  "get_timestamp from_ymd and_hms t path =
     (case get_child t path of
        Struct m \<Rightarrow>
          Option.bind (uint_of m ''wYear'') (\<lambda>year.
          Option.bind (uint_of m ''wMonth'') (\<lambda>month.
          Option.bind (uint_of m ''wDay'') (\<lambda>day.
          Option.bind (uint_of m ''wHour'') (\<lambda>hour.
          Option.bind (uint_of m ''wMinute'') (\<lambda>minute.
          Option.bind (uint_of m ''wSecond'') (\<lambda>second.
          Option.bind (uint_of m ''wMilliseconds'') (\<lambda>milliseconds.
          datetime from_ymd and_hms year month day hour minute second milliseconds)))))))
      | _ \<Rightarrow> None)"

section \<open>Deserializing\<close>

text \<open>
  The call a deserializer makes of the visitor it is given. A map or a sequence is handed over
  as an accessor: the entries and the position in them.
\<close>

record MapAccessor =
  ma_items :: "(string \<times> SymbolTree) list"
  ma_index :: nat

record SeqAccessor =
  sa_items :: "SymbolTree list"
  sa_index :: nat

datatype visit =
    VisitMap MapAccessor
  | VisitSeq SeqAccessor
  | VisitI16 u16
  | VisitI32 u32
  | VisitF32 u32
  | VisitF64 u64
  | VisitI8 u8
  | VisitU8 u8
  | VisitU16 u16
  | VisitU32 u32
  | VisitI64 u64
  | VisitU64 u64
  | VisitString string
  | VisitBool bool
  | VisitNone
  | VisitSome SymbolTree
  | VisitNewtype SymbolTree
  | VisitBytes bytes
  | VisitStr string

type_synonym de_error = string

definition map_accessor_new :: "(string \<times> SymbolTree) list \<Rightarrow> MapAccessor" where
  "map_accessor_new items = \<lparr>ma_items = items, ma_index = 0\<rparr>"

definition seq_accessor_new :: "SymbolTree list \<Rightarrow> SeqAccessor" where
  "seq_accessor_new items = \<lparr>sa_items = items, sa_index = 0\<rparr>"

primrec deserialize_any :: "SymbolTree \<Rightarrow> de_error + visit" where
  "deserialize_any (Struct index_map) = Inr (VisitMap (map_accessor_new index_map))"
| "deserialize_any (Array symbol_trees) = Inr (VisitSeq (seq_accessor_new symbol_trees))"
| "deserialize_any (IntV v) = Inr (VisitI16 v)"
| "deserialize_any (Dint v) = Inr (VisitI32 v)"
| "deserialize_any (Real v) = Inr (VisitF32 v)"
| "deserialize_any (Lreal v) = Inr (VisitF64 v)"
| "deserialize_any (Sint v) = Inr (VisitI8 v)"
| "deserialize_any (Usint v) = Inr (VisitU8 v)"
| "deserialize_any (Uint v) = Inr (VisitU16 v)"
| "deserialize_any (Udint v) = Inr (VisitU32 v)"
| "deserialize_any (Lint v) = Inr (VisitI64 v)"
| "deserialize_any (Ulint v) = Inr (VisitU64 v)"
| "deserialize_any (String v) = Inr (VisitString v)"
| "deserialize_any (Real80 v) = Inr (VisitF64 v)"
| "deserialize_any (Bool v) = Inr (VisitBool v)"
| "deserialize_any Missing = Inr VisitNone"
| "deserialize_any Unknown = Inl ''unable to deserialize SymbolTree::Unknown''"
| "deserialize_any (Void bs) = Inr (VisitBytes bs)"
| "deserialize_any Malformed = Inl ''unable to deserialize SymbolTree::Malformed''"

definition deserialize_option :: "SymbolTree \<Rightarrow> de_error + visit" where
  "deserialize_option t = Inr (if t = Missing then VisitNone else VisitSome t)"

definition deserialize_newtype_struct :: "SymbolTree \<Rightarrow> de_error + visit" where
  "deserialize_newtype_struct t = Inr (VisitNewtype t)"

definition key_deserialize_any :: "string \<Rightarrow> de_error + visit" where
  "key_deserialize_any key = Inr (VisitStr key)"

text \<open>A seed is what the visitor does with a key's or a value's deserializer.\<close>

definition next_key_seed ::
  "(string \<Rightarrow> de_error + 'k) \<Rightarrow> MapAccessor \<Rightarrow> (de_error + 'k option) \<times> MapAccessor" where
  "next_key_seed seed acc =
     (if ma_index acc < length (ma_items acc)
      then (map_sum id Some (seed (fst (ma_items acc ! ma_index acc))), acc)
      else (Inr None, acc))"

definition next_value_seed ::
  "(SymbolTree \<Rightarrow> de_error + 'v) \<Rightarrow> MapAccessor \<Rightarrow> (de_error + 'v) \<times> MapAccessor" where
  "next_value_seed seed acc =
     (if ma_index acc < length (ma_items acc)
      then (seed (snd (ma_items acc ! ma_index acc)), acc\<lparr>ma_index := ma_index acc + 1\<rparr>)
      else (Inl ''failed to get next value from map'', acc))"

definition next_element_seed ::
  "(SymbolTree \<Rightarrow> de_error + 'v) \<Rightarrow> SeqAccessor \<Rightarrow> (de_error + 'v option) \<times> SeqAccessor" where
  "next_element_seed seed acc =
     (if sa_index acc < length (sa_items acc)
      then (map_sum id Some (seed (sa_items acc ! sa_index acc)), acc\<lparr>sa_index := sa_index acc + 1\<rparr>)
      else (Inr None, acc))"

section \<open>Reading within the data\<close>

text \<open>How far beyond its offset a tree reads.\<close>

fun extent :: "SymbolTypeTree \<Rightarrow> nat" and fields_extent :: "type_fields \<Rightarrow> nat" where
  "extent t = (case t of TStruct m n \<Rightarrow> fields_extent m | _ \<Rightarrow> get_size t)"
| "fields_extent [] = 0"
| "fields_extent ((name, t, offset) # fs) =
     max (case offset of Some off \<Rightarrow> unat off + extent t | None \<Rightarrow> 0) (fields_extent fs)"

declare extent.simps [simp del] from_bytes.simps [simp del]

lemma read_words_ok: "2 * n \<le> length bs \<Longrightarrow> is_ok (read_words n bs)"
  by (induction n bs rule: read_words.induct) (auto simp: is_ok_iff mapR_eq_Ok)

lemma is_ok_mapR [simp]: "is_ok (mapR f m) = is_ok m"
  by (cases m) auto

lemma read_leaf_ok: "get_size t \<le> length bs \<Longrightarrow> is_ok (read_leaf to_f64 t bs)"
  by (cases t) (auto simp: read_leaf_def take_slice_def read_string_def read_wstring_def read_words_ok
      minus_mod_eq_mult_div [symmetric])

lemma from_bytes_ok:
  "parent_offset + extent t \<le> length data \<Longrightarrow> is_ok (from_bytes to_f64 data t parent_offset)"
  "parent_offset + fields_extent fs \<le> length data \<Longrightarrow>
     is_ok (from_fields to_f64 data fs parent_offset tree_map)"
proof (induction to_f64 data t parent_offset and to_f64 data fs parent_offset tree_map
    rule: from_bytes_from_fields.induct)
  case (1 to_f64 data t parent_offset)
  have "is_ok (read_leaf to_f64 t (drop parent_offset data))" if "extent t = get_size t"
    using that "1.prems" by (intro read_leaf_ok) simp
  then show ?case
    using 1 by (cases t) (simp_all add: from_bytes.simps extent.simps)
next
  case (3 to_f64 data name t offset fs parent_offset tree_map)
  show ?case
  proof (cases offset)
    case (Some off)
    then have "is_ok (from_bytes to_f64 data t (parent_offset + unat off))"
      using 3 by simp
    then obtain child where "from_bytes to_f64 data t (parent_offset + unat off) = Ok child"
      by (auto simp: is_ok_iff)
    then show ?thesis
      using 3 Some by simp
  qed (use 3 in simp)
qed simp

text \<open>
  C21: reading stays within the data. When the data reaches as far as the type tree does,
  building the symbol tree does not panic.
\<close>

theorem tree_within_data:
  assumes "parent_offset + extent t \<le> length data"
  shows "is_ok (from_bytes to_f64 data t parent_offset)"
  by (rule from_bytes_ok(1) [OF assms])

lemma read_words_short: "length bs < 2 * n \<Longrightarrow> read_words n bs = Panic"
  by (induction n bs rule: read_words.induct) auto

text \<open>
  A wide string cut short panics. When fewer bytes are left than the string is long, the
  tree is not \<open>Malformed\<close>: the slice of the missing bytes panics first.
\<close>

theorem short_wstring_panics:
  assumes "n mod 2 = 0" and "parent_offset \<le> length data" and "length data < parent_offset + n"
  shows "from_bytes to_f64 data (TWstring n) parent_offset = Panic"
proof -
  have "length (drop parent_offset data) < 2 * (n div 2)"
    using assms by (simp add: minus_mod_eq_mult_div [symmetric])
  then show ?thesis
    using assms by (simp add: from_bytes.simps read_leaf_def read_wstring_def read_words_short)
qed

section \<open>The tree has the shape of its type\<close>

text \<open>The type and the offset of the node at a path; a field with no offset has no place.\<close>

fun locate :: "SymbolTypeTree \<Rightarrow> nat \<Rightarrow> string list \<Rightarrow> (SymbolTypeTree \<times> nat) option" where
  "locate t offset [] = Some (t, offset)"
| "locate t offset (name # names) =
     (case t of
        TStruct m n \<Rightarrow>
          (case map_of m name of
             Some (child, Some child_offset) \<Rightarrow> locate child (offset + unat child_offset) names
           | _ \<Rightarrow> None)
      | _ \<Rightarrow> None)"

lemma locate_beyond: "locate t offset ns = Some (t', offset') \<Longrightarrow> offset \<le> offset'"
proof (induction ns arbitrary: t offset)
  case (Cons n ns)
  then obtain child off where "locate child (offset + unat (off :: u32)) ns = Some (t', offset')"
    by (auto split: SymbolTypeTree.splits option.splits)
  then show ?case
    using Cons.IH [of child "offset + unat off"] by simp
qed simp

lemma from_fields_old:
  "from_fields to_f64 data fs offset acc = Ok m \<Longrightarrow> name \<notin> fst ` set fs \<Longrightarrow> map_of m name = map_of acc name"
proof (induction fs arbitrary: acc)
  case (Cons f fs)
  obtain k t off where f: "f = (k, t, off)"
    by (cases f) auto
  show ?case
    using Cons f by (cases off) (auto simp: bindR_eq_Ok update_conv' split: if_splits)
qed simp

lemma from_fields_entry:
  assumes "from_fields to_f64 data fs offset acc = Ok m" and "distinct (map fst fs)"
    and "map_of fs name = Some (t, Some off)"
  shows "\<exists>child. map_of m name = Some child \<and> from_bytes to_f64 data t (offset + unat off) = Ok child"
  using assms
proof (induction fs arbitrary: acc)
  case (Cons f fs)
  obtain k t' off' where f: "f = (k, t', off')"
    by (cases f) auto
  show ?case
  proof (cases "k = name")
    case True
    then obtain child where "from_bytes to_f64 data t (offset + unat off) = Ok child"
      and rest: "from_fields to_f64 data fs offset (AList.update name child acc) = Ok m"
      using Cons.prems f by (auto simp: bindR_eq_Ok)
    moreover have "name \<notin> fst ` set fs"
      using Cons.prems(2) f True by simp
    ultimately show ?thesis
      using from_fields_old [OF rest] by (simp add: update_conv')
  next
    case False
    then show ?thesis
      using Cons f by (cases off') (auto simp: bindR_eq_Ok)
  qed
qed simp

lemma walk_Missing [simp]: "walk Missing ns = Missing"
  by (cases ns) (simp_all add: child_of_def)

lemma from_bytes_beyond: "length data < offset \<Longrightarrow> from_bytes to_f64 data t offset = Ok Missing"
  by (simp add: from_bytes.simps)

lemma walk_located:
  "usable t \<Longrightarrow> from_bytes to_f64 data t offset = Ok tree \<Longrightarrow> locate t offset ns = Some (t', offset') \<Longrightarrow>
     from_bytes to_f64 data t' offset' = Ok (walk tree ns)"
proof (induction t offset ns arbitrary: tree rule: locate.induct)
  case (2 t offset name ns)
  then obtain m n child off where t: "t = TStruct m n" and entry: "map_of m name = Some (child, Some off)"
    and rest: "locate child (offset + unat off) ns = Some (t', offset')"
    by (auto split: SymbolTypeTree.splits option.splits)
  show ?case
  proof (cases "length data < offset")
    case True
    then have "tree = Missing"
      using "2.prems"(2) by (simp add: from_bytes_beyond)
    then show ?thesis
      using True locate_beyond [OF rest] by (simp add: from_bytes_beyond child_of_def)
  next
    case False
    then obtain tm where tm: "tree = Struct tm" "from_fields to_f64 data m offset [] = Ok tm"
      using "2.prems"(2) t by (auto simp: from_bytes.simps mapR_eq_Ok)
    have usable: "distinct (map fst m)" "usable child"
      using "2.prems"(1) t map_of_SomeD [OF entry] by auto
    obtain c where c: "map_of tm name = Some c" "from_bytes to_f64 data child (offset + unat off) = Ok c"
      using from_fields_entry [OF tm(2) usable(1) entry] by blast
    then show ?thesis
      using "2.IH" [OF t entry] usable(2) rest tm(1) by (simp add: child_of_def)
  qed
qed simp

text \<open>
  C11: the tree has the shape of its type. The value found at a path of the symbol tree is the
  value the type at that path has in the data, at the sum of the offsets along the path.
\<close>

theorem child_reads_at_offset:
  assumes "usable t" and "from_bytes to_f64 data t parent_offset = Ok tree"
    and "locate t parent_offset (split_on CHR ''.'' path) = Some (child_type, child_offset)"
  shows "from_bytes to_f64 data child_type child_offset = Ok (get_child tree path)"
  using walk_located [OF assms] by (simp add: get_child_def)

text \<open>
  Numbers read back. The bytes of an integer, of a float's bits or of a boolean at an
  offset, whatever surrounds them, are read as the value of that type and width.
\<close>

theorem numbers_read_back:
  "from_bytes to_f64 (pre @ to_le_bytes (i16 :: u16) @ post) TInt (length pre) = Ok (IntV i16)
   \<and> from_bytes to_f64 (pre @ to_le_bytes i16 @ post) TUint (length pre) = Ok (Uint i16)
   \<and> from_bytes to_f64 (pre @ to_le_bytes (i32 :: u32) @ post) TDint (length pre) = Ok (Dint i32)
   \<and> from_bytes to_f64 (pre @ to_le_bytes i32 @ post) TUdint (length pre) = Ok (Udint i32)
   \<and> from_bytes to_f64 (pre @ to_le_bytes i32 @ post) TReal (length pre) = Ok (Real i32)
   \<and> from_bytes to_f64 (pre @ to_le_bytes (i64 :: u64) @ post) TLint (length pre) = Ok (Lint i64)
   \<and> from_bytes to_f64 (pre @ to_le_bytes i64 @ post) TUlint (length pre) = Ok (Ulint i64)
   \<and> from_bytes to_f64 (pre @ to_le_bytes i64 @ post) TLreal (length pre) = Ok (Lreal i64)
   \<and> from_bytes to_f64 (pre @ to_le_bytes (i8 :: u8) @ post) TSint (length pre) = Ok (Sint i8)
   \<and> from_bytes to_f64 (pre @ to_le_bytes i8 @ post) TUsint (length pre) = Ok (Usint i8)
   \<and> from_bytes to_f64 (pre @ to_le_bytes i8 @ post) TBool (length pre) = Ok (Bool (i8 \<noteq> 0))"
  by (simp add: from_bytes.simps read_leaf_def read_num_def word_read_from_prefix_append)

section \<open>Driving the accessors\<close>

text \<open>What a visitor that asks for every entry, key then value, is given.\<close>

function visit_entries :: "MapAccessor \<Rightarrow> (string \<times> SymbolTree) list" where
  "visit_entries acc =
     (case next_key_seed Inr acc of
        (Inr (Some key), acc) \<Rightarrow>
          (case next_value_seed Inr acc of
             (Inr val, acc) \<Rightarrow> (key, val) # visit_entries acc
           | _ \<Rightarrow> [])
      | _ \<Rightarrow> [])"
  by pat_completeness auto
termination
  by (relation "measure (\<lambda>acc. length (ma_items acc) - ma_index acc)")
    (auto simp: next_key_seed_def next_value_seed_def split: if_splits)

function visit_elements :: "SeqAccessor \<Rightarrow> SymbolTree list" where
  "visit_elements acc =
     (case next_element_seed Inr acc of
        (Inr (Some val), acc) \<Rightarrow> val # visit_elements acc
      | _ \<Rightarrow> [])"
  by pat_completeness auto
termination
  by (relation "measure (\<lambda>acc. length (sa_items acc) - sa_index acc)")
    (auto simp: next_element_seed_def split: if_splits)

declare visit_entries.simps [simp del] visit_elements.simps [simp del]

lemma visit_entries_from: "visit_entries acc = drop (ma_index acc) (ma_items acc)"
proof (induction acc rule: visit_entries.induct)
  case (1 acc)
  show ?case
  proof (cases "ma_index acc < length (ma_items acc)")
    case True
    then have "visit_entries acc = ma_items acc ! ma_index acc
        # visit_entries (acc\<lparr>ma_index := ma_index acc + 1\<rparr>)"
      by (subst visit_entries.simps) (simp add: next_key_seed_def next_value_seed_def)
    with True 1 show ?thesis
      by (simp add: next_key_seed_def next_value_seed_def Cons_nth_drop_Suc)
  qed (simp add: visit_entries.simps [of acc] next_key_seed_def)
qed

lemma visit_elements_from: "visit_elements acc = drop (sa_index acc) (sa_items acc)"
proof (induction acc rule: visit_elements.induct)
  case (1 acc)
  show ?case
  proof (cases "sa_index acc < length (sa_items acc)")
    case True
    then have "visit_elements acc = sa_items acc ! sa_index acc
        # visit_elements (acc\<lparr>sa_index := sa_index acc + 1\<rparr>)"
      by (subst visit_elements.simps) (simp add: next_element_seed_def)
    with True 1 show ?thesis
      by (simp add: next_element_seed_def Cons_nth_drop_Suc)
  qed (simp add: visit_elements.simps [of acc] next_element_seed_def)
qed

text \<open>
  Deserializing loses nothing. A visitor that goes through the accessor it is given for a
  struct or an array sees every entry once, in the order of the fields.
\<close>

theorem accessors_complete:
  "visit_entries (map_accessor_new items) = items \<and> visit_elements (seq_accessor_new trees) = trees"
  by (simp add: visit_entries_from visit_elements_from map_accessor_new_def seq_accessor_new_def)

section \<open>Samples\<close>

definition sample_tree :: SymbolTypeTree where
  "sample_tree =
     TStruct [(''n'', TUint, Some 0), (''b'', TStruct [(''x'', TUdint, Some 0), (''y'', TBool, None)] 4, Some 2)] 6"

definition sample_data :: bytes where "sample_data = [7, 0, 42, 0, 0, 0]"

definition sample_value :: SymbolTree where
  "sample_value = Struct [(''n'', Uint 7), (''b'', Struct [(''x'', Udint 42), (''y'', Missing)])]"

lemma sample_value_built: "from_bytes to_f64 sample_data sample_tree 0 = Ok sample_value"
  by (simp add: sample_data_def sample_tree_def sample_value_def from_bytes.simps read_leaf_def
      read_num_def word_read_from_prefix_def word_read_from_bytes_def from_le_bytes_def)

theorem child_reads_at_offset_witness:
  "from_bytes (\<lambda>b. 0) sample_data TUdint 2 = Ok (get_child sample_value ''b.x'')"
  by (rule child_reads_at_offset [OF _ sample_value_built]) (simp_all add: sample_tree_def)

theorem tree_within_data_witness: "is_ok (from_bytes (\<lambda>b. 0) sample_data sample_tree 0)"
  by (rule tree_within_data) (simp add: sample_data_def sample_tree_def extent.simps)

theorem short_wstring_panics_witness:
  "from_bytes (\<lambda>b. 0) [1, 2, 3] (TWstring 4) 0 = Panic"
  using short_wstring_panics [of 4 0 "[1, 2, 3]"] by simp

end
