(* ===== verification/SymbolMap.thy ===== *)
theory SymbolMap
  imports SymbolTree
begin

text \<open>
  Symbol maps (\<open>src/symbol/map.rs\<close>): the flat view of a symbol, a map from the path of every
  primitive value to its type and its offset in the symbol, and the values read through it.

  \<open>oc\<close> is whether the program was built with overflow checks: then an offset that leaves \<open>u32\<close>
  panics, else it wraps. A \<open>f32\<close> becomes a \<open>f64\<close> by the parameter \<open>widen\<close>.
\<close>

definition TIMESTRUCT_KEYS :: "string list" where
  "TIMESTRUCT_KEYS =
     [''wYear'', ''wMonth'', ''wDayOfWeek'', ''wDay'', ''wHour'', ''wMinute'', ''wSecond'',
      ''wMilliseconds'']"

datatype PrimitiveSymbolType =
    PInt | PDint | PReal | PLreal | PSint | PUsint | PUint | PUdint | PLint | PUlint
  | PString nat
  | PWstring nat
  | PReal80
  | PBool
  | PTimeStruct "nat list"
  | PVoid nat

record PrimitiveSymbolDescriptor =
  symbol_type :: PrimitiveSymbolType
  root_symbol_offset :: u32

type_synonym SymbolTypeMap = "(string \<times> PrimitiveSymbolDescriptor) list"

definition from_type :: "PrimitiveSymbolType \<Rightarrow> u32 \<Rightarrow> PrimitiveSymbolDescriptor" where
  "from_type t offset = \<lparr>symbol_type = t, root_symbol_offset = offset\<rparr>"

datatype 'dt PrimitiveValue =
    VInt u64
  | VUint u64
  | VFloat u64
  | VString string
  | VTimestamp 'dt
  | VBool bool
  | VMalformed
  | VVoid bytes

section \<open>Flattening a type tree\<close>

text \<open>\<open>IndexMap::append\<close>: every entry of the other map is inserted, in order.\<close>

definition append_map :: "('k \<times> 'v) list \<Rightarrow> ('k \<times> 'v) list \<Rightarrow> ('k \<times> 'v) list" where
  "append_map m other = fold (\<lambda>(k, v) m. AList.update k v m) other m"

definition add_offset :: "bool \<Rightarrow> u32 \<Rightarrow> u32 \<Rightarrow> u32 res" where
  "add_offset oc a b = (if oc \<and> 2 ^ 32 \<le> unat a + unat b then Panic else Ok (a + b))"

text \<open>
  The offsets of a time struct, in the order of the keys; \<open>None\<close> when a field has no offset or
  is not a \<open>Uint\<close>.
\<close>

fun position :: "string list \<Rightarrow> string \<Rightarrow> nat option" where
  "position [] x = None"
| "position (y # ys) x = (if y = x then Some 0 else map_option Suc (position ys x))"

fun timestruct_offsets :: "type_fields \<Rightarrow> nat list \<Rightarrow> nat list option" where
  "timestruct_offsets [] offsets = Some offsets"
| "timestruct_offsets ((symbol_name, t, child_offset) # fs) offsets =
     (case child_offset of
        None \<Rightarrow> None
      | Some off \<Rightarrow>
          if t \<noteq> TUint then None
          else case position TIMESTRUCT_KEYS symbol_name of
            None \<Rightarrow> None
          | Some index \<Rightarrow> timestruct_offsets fs (offsets[index := unat off]))"

definition primitive_of :: "SymbolTypeTree \<Rightarrow> PrimitiveSymbolType option" where
  "primitive_of t =
     (case t of
        TInt \<Rightarrow> Some PInt
      | TDint \<Rightarrow> Some PDint
      | TReal \<Rightarrow> Some PReal
      | TLreal \<Rightarrow> Some PLreal
      | TSint \<Rightarrow> Some PSint
      | TUsint \<Rightarrow> Some PUsint
      | TUint \<Rightarrow> Some PUint
      | TUdint \<Rightarrow> Some PUdint
      | TLint \<Rightarrow> Some PLint
      | TUlint \<Rightarrow> Some PUlint
      | TString n \<Rightarrow> Some (PString n)
      | TWstring n \<Rightarrow> Some (PWstring n)
      | TReal80 \<Rightarrow> Some PReal80
      | TBool \<Rightarrow> Some PBool
      | TArray t n \<Rightarrow> Some (PVoid n)
      | TVoid n \<Rightarrow> Some (PVoid n)
      | TUnknown n \<Rightarrow> Some (PVoid n)
      | _ \<Rightarrow> None)"

fun from_tree :: "bool \<Rightarrow> SymbolTypeTree \<Rightarrow> u32 \<Rightarrow> string \<Rightarrow> SymbolTypeMap res"
  and from_tree_fields :: "bool \<Rightarrow> type_fields \<Rightarrow> u32 \<Rightarrow> string \<Rightarrow> SymbolTypeMap \<Rightarrow> SymbolTypeMap res"
where
  "from_tree oc t offset path =
     (case t of
        TStruct index_map n \<Rightarrow>
          if map fst index_map = TIMESTRUCT_KEYS then
            (case timestruct_offsets index_map (replicate 8 0) of
               None \<Rightarrow> Ok []
             | Some offsets \<Rightarrow> Ok [(path, from_type (PTimeStruct offsets) offset)])
          else from_tree_fields oc index_map offset path []
      | TCompound n \<Rightarrow> Panic
      | TMissing \<Rightarrow> Ok []
      | _ \<Rightarrow> Ok (case primitive_of t of Some p \<Rightarrow> [(path, from_type p offset)] | None \<Rightarrow> []))"
| "from_tree_fields oc [] offset path m = Ok m"
| "from_tree_fields oc ((child_path, child_tree, child_offset) # fs) offset path m =
     (case child_offset of
        None \<Rightarrow> from_tree_fields oc fs offset path m
      | Some off \<Rightarrow>
          bindR (add_offset oc offset off) (\<lambda>sum.
          bindR (from_tree oc child_tree sum
                  (if path = [] then child_path else path @ ''.'' @ child_path)) (\<lambda>other.
          from_tree_fields oc fs offset path (append_map m other))))"

section \<open>Reading values\<close>

text \<open>\<open>&data[n..]\<close>\<close>

definition slice_from :: "nat \<Rightarrow> bytes \<Rightarrow> bytes res" where
  "slice_from n bs = (if n \<le> length bs then Ok (drop n bs) else Panic)"

definition u16_at :: "nat \<Rightarrow> bytes \<Rightarrow> u16 option res" where
  "u16_at offset bs = mapR word_read_from_prefix (slice_from offset bs)"

text \<open>\<open>?\<close> on a size error: the outcome \<open>Ok (Inl ())\<close>.\<close>

definition bind_size :: "'a option res \<Rightarrow> ('a \<Rightarrow> (unit + 'b) res) \<Rightarrow> (unit + 'b) res" where
  "bind_size m f = bindR m (\<lambda>v. case v of Some x \<Rightarrow> f x | None \<Rightarrow> Ok (Inl ()))"

definition datetime_from_bytes ::
  "(nat \<Rightarrow> nat \<Rightarrow> nat \<Rightarrow> 'date option) \<Rightarrow> ('date \<Rightarrow> nat \<Rightarrow> nat \<Rightarrow> nat \<Rightarrow> nat \<Rightarrow> 'dt option)
   \<Rightarrow> nat list \<Rightarrow> bytes \<Rightarrow> (unit + 'dt option) res" where
  "datetime_from_bytes from_ymd and_hms offsets bs =
     bind_size (u16_at (offsets ! 0) bs) (\<lambda>year.
     bind_size (u16_at (offsets ! 1) bs) (\<lambda>month.
     bind_size (u16_at (offsets ! 3) bs) (\<lambda>day.
     bind_size (u16_at (offsets ! 4) bs) (\<lambda>hour.
     bind_size (u16_at (offsets ! 5) bs) (\<lambda>minute.
     bind_size (u16_at (offsets ! 6) bs) (\<lambda>second.
     bind_size (u16_at (offsets ! 7) bs) (\<lambda>milliseconds.
       Ok (Inr (datetime from_ymd and_hms year month day hour minute second milliseconds)))))))))"

definition value_num :: "('a::len word \<Rightarrow> 'dt PrimitiveValue) \<Rightarrow> bytes \<Rightarrow> 'dt PrimitiveValue" where
  "value_num mk bs = (case word_read_from_prefix bs of Some num \<Rightarrow> mk num | None \<Rightarrow> VMalformed)"

definition read_primitive ::
  "(u32 \<Rightarrow> u64) \<Rightarrow> (bytes \<Rightarrow> u64)
   \<Rightarrow> (nat \<Rightarrow> nat \<Rightarrow> nat \<Rightarrow> 'date option) \<Rightarrow> ('date \<Rightarrow> nat \<Rightarrow> nat \<Rightarrow> nat \<Rightarrow> nat \<Rightarrow> 'dt option)
   \<Rightarrow> PrimitiveSymbolType \<Rightarrow> bytes \<Rightarrow> 'dt PrimitiveValue res" where
  "read_primitive widen to_f64 from_ymd and_hms t bs =
     (case t of
        PTimeStruct offsets \<Rightarrow>
          mapR (\<lambda>r. case r of Inr (Some dt) \<Rightarrow> VTimestamp dt | _ \<Rightarrow> VMalformed)
            (datetime_from_bytes from_ymd and_hms offsets bs)
      | PReal \<Rightarrow> Ok (value_num (\<lambda>v :: u32. VFloat (widen v)) bs)
      | PLreal \<Rightarrow> Ok (value_num VFloat bs)
      | PSint \<Rightarrow> Ok (value_num (\<lambda>v :: u8. VInt (scast v)) bs)
      | PInt \<Rightarrow> Ok (value_num (\<lambda>v :: u16. VInt (scast v)) bs)
      | PDint \<Rightarrow> Ok (value_num (\<lambda>v :: u32. VInt (scast v)) bs)
      | PLint \<Rightarrow> Ok (value_num VInt bs)
      | PUsint \<Rightarrow> Ok (value_num (\<lambda>v :: u8. VUint (ucast v)) bs)
      | PUint \<Rightarrow> Ok (value_num (\<lambda>v :: u16. VUint (ucast v)) bs)
      | PUdint \<Rightarrow> Ok (value_num (\<lambda>v :: u32. VUint (ucast v)) bs)
      | PUlint \<Rightarrow> Ok (value_num VUint bs)
      | PString n \<Rightarrow> mapR VString (read_string n bs)
      | PBool \<Rightarrow> Ok (value_num (\<lambda>v :: u8. VBool (v \<noteq> 0)) bs)
      | PWstring n \<Rightarrow>
          mapR (\<lambda>s. case s of Some s \<Rightarrow> VString s | None \<Rightarrow> VMalformed) (read_wstring n bs)
      | PReal80 \<Rightarrow> Ok (if length bs < 10 then VMalformed else VFloat (to_f64 (take 10 bs)))
      | PVoid n \<Rightarrow> mapR VVoid (take_slice n bs))"

definition read_descriptor ::
  "(u32 \<Rightarrow> u64) \<Rightarrow> (bytes \<Rightarrow> u64)
   \<Rightarrow> (nat \<Rightarrow> nat \<Rightarrow> nat \<Rightarrow> 'date option) \<Rightarrow> ('date \<Rightarrow> nat \<Rightarrow> nat \<Rightarrow> nat \<Rightarrow> nat \<Rightarrow> 'dt option)
   \<Rightarrow> bytes \<Rightarrow> PrimitiveSymbolDescriptor \<Rightarrow> 'dt PrimitiveValue res" where
  "read_descriptor widen to_f64 from_ymd and_hms bs d =
     bindR (slice_from (unat (root_symbol_offset d)) bs)
       (read_primitive widen to_f64 from_ymd and_hms (symbol_type d))"

fun map_from_bytes ::
  "(bytes \<Rightarrow> PrimitiveSymbolDescriptor \<Rightarrow> 'dt PrimitiveValue res) \<Rightarrow> bytes \<Rightarrow> SymbolTypeMap
   \<Rightarrow> (string \<times> 'dt PrimitiveValue) list \<Rightarrow> (string \<times> 'dt PrimitiveValue) list res" where
  "map_from_bytes read bs [] m = Ok m"
| "map_from_bytes read bs ((path, d) # ds) m =
     bindR (read bs d) (\<lambda>v. map_from_bytes read bs ds (AList.update path v m))"

declare from_tree.simps [simp del]

section \<open>Flattening loses and invents nothing\<close>

text \<open>What the primitive at a path of a type tree is, and where it lies.\<close>

definition node_type :: "SymbolTypeTree \<Rightarrow> PrimitiveSymbolType option" where
  "node_type t =
     (case t of
        TStruct m n \<Rightarrow>
          if map fst m = TIMESTRUCT_KEYS
          then map_option PTimeStruct (timestruct_offsets m (replicate 8 0)) else None
      | _ \<Rightarrow> primitive_of t)"

definition children :: "SymbolTypeTree \<Rightarrow> type_fields" where
  "children t =
     (case t of TStruct m n \<Rightarrow> if map fst m = TIMESTRUCT_KEYS then [] else m | _ \<Rightarrow> [])"

fun find_primitive :: "SymbolTypeTree \<Rightarrow> u32 \<Rightarrow> string list \<Rightarrow> PrimitiveSymbolDescriptor option" where
  "find_primitive t offset [] = map_option (\<lambda>p. from_type p offset) (node_type t)"
| "find_primitive t offset (name # names) =
     (case map_of (children t) name of
        Some (child, Some child_offset) \<Rightarrow> find_primitive child (offset + child_offset) names
      | _ \<Rightarrow> None)"

text \<open>Names that a path tells apart: not empty and without a dot.\<close>

fun plain_names :: "SymbolTypeTree \<Rightarrow> bool" where
  "plain_names (TStruct m n) \<longleftrightarrow>
     (\<forall>(name, t, off) \<in> set m. name \<noteq> [] \<and> CHR ''.'' \<notin> set name \<and> plain_names t)"
| "plain_names t \<longleftrightarrow> True"

text \<open>The names along a path, and along its part below another path.\<close>

definition tokens :: "string \<Rightarrow> string list" where
  "tokens s = (if s = [] then [] else split_on CHR ''.'' s)"

definition below :: "string \<Rightarrow> string \<Rightarrow> string list option" where
  "below path s =
     (if path = [] then Some (tokens s)
      else if s = path then Some []
      else if take (Suc (length path)) s = path @ ''.''
        then Some (split_on CHR ''.'' (drop (Suc (length path)) s))
      else None)"

definition extend_path :: "string \<Rightarrow> string \<Rightarrow> string" where
  "extend_path path name = (if path = [] then name else path @ ''.'' @ name)"

lemma take_eq_append_iff: "take (length p) s = p \<longleftrightarrow> (\<exists>r. s = p @ r)"
  by (metis append_eq_conv_conj append_take_drop_id)

lemma below_dot [simp]: "path \<noteq> [] \<Longrightarrow> below path (path @ CHR ''.'' # r) = Some (split_on CHR ''.'' r)"
  by (simp add: below_def)

lemma below_eq_Some:
  "path \<noteq> [] \<Longrightarrow> below path s = Some ns \<longleftrightarrow>
     (s = path \<and> ns = []) \<or> (\<exists>r. s = path @ CHR ''.'' # r \<and> split_on CHR ''.'' r = ns)"
  using take_eq_append_iff [of "path @ ''.''" s] by (auto simp: below_def)

lemma split_on_eq_Cons:
  "split_on c s = n # ns \<longleftrightarrow>
     c \<notin> set n \<and> (if ns = [] then s = n else \<exists>r. s = n @ c # r \<and> split_on c r = ns)"
proof
  assume split: "split_on c s = n # ns"
  then have "c \<notin> set n"
    using split_on_pieces [of n c s] by simp
  moreover have "s = join c (n # ns)"
    using join_split_on [of c s] split by simp
  moreover have "ns = split_on c (join c ns)" if "ns \<noteq> []"
    using that split split_on_pieces [of _ c s] by (intro split_on_join [symmetric]) auto
  ultimately show "c \<notin> set n \<and> (if ns = [] then s = n else \<exists>r. s = n @ c # r \<and> split_on c r = ns)"
    by (cases ns) auto
qed (auto simp: split_on_single split_on_append split: if_splits)

lemma below_child:
  assumes "name \<noteq> []" and "CHR ''.'' \<notin> set name"
  shows "below (extend_path path name) s = Some ns \<longleftrightarrow> below path s = Some (name # ns)"
proof (cases "path = []")
  case True
  have "tokens s = name # ns \<longleftrightarrow> s \<noteq> [] \<and> split_on CHR ''.'' s = name # ns"
    by (simp add: tokens_def)
  then show ?thesis
    using assms True below_eq_Some [OF assms(1), of s ns]
    by (auto simp: extend_path_def split_on_eq_Cons below_def [of "[]"])
next
  case False
  then have "extend_path path name \<noteq> []"
    by (simp add: extend_path_def)
  then show ?thesis
    using assms False by (auto simp: below_eq_Some extend_path_def split_on_eq_Cons)
qed

lemma below_extend:
  assumes "name \<noteq> []" and "CHR ''.'' \<notin> set name"
  shows "below (extend_path path name) s =
    (case below path s of Some (n # ns) \<Rightarrow> if n = name then Some ns else None | _ \<Rightarrow> None)"
proof (cases "below (extend_path path name) s")
  case None
  then have "below path s \<noteq> Some (name # ns)" for ns
    using below_child [OF assms, of path s ns] by simp
  with None show ?thesis
    by (auto split: option.split list.split)
next
  case (Some ns)
  then show ?thesis
    using below_child [OF assms, of path s ns] by simp
qed

lemma map_of_append_rev: "map_of (append_map m other) = map_of m ++ map_of (rev other)"
  by (induction other arbitrary: m) (auto simp: append_map_def update_conv' map_add_def fun_eq_iff split: option.split)

lemma map_of_append_map:
  assumes "distinct (map fst other)"
  shows "map_of (append_map m other) k =
    (case map_of other k of Some v \<Rightarrow> Some v | None \<Rightarrow> map_of m k)"
proof -
  have "map_of (rev other) = map_of other"
    using assms by (intro map_of_inject_set [THEN iffD2]) (simp_all add: rev_map [symmetric])
  then show ?thesis
    by (simp add: map_of_append_rev map_add_def)
qed

lemma distinct_append_map: "distinct (map fst m) \<Longrightarrow> distinct (map fst (append_map m other))"
  by (induction other arbitrary: m) (auto simp: append_map_def distinct_update)

lemma from_tree_Ok:
  "from_tree oc t offset path = Ok m \<Longrightarrow>
     (node_type t = None \<longrightarrow> from_tree_fields oc (children t) offset path [] = Ok m)
     \<and> (\<forall>p. node_type t = Some p \<longrightarrow> m = [(path, from_type p offset)] \<and> children t = [])"
  by (cases t)
    (auto simp: from_tree.simps node_type_def children_def primitive_of_def split: if_splits option.splits)

lemma from_tree_distinct:
  "from_tree oc t offset path = Ok m \<Longrightarrow> distinct (map fst m)"
  "from_tree_fields oc fs offset path acc = Ok m \<Longrightarrow> distinct (map fst acc) \<Longrightarrow> distinct (map fst m)"
proof (induction oc t offset path and oc fs offset path acc arbitrary: m and m rule: from_tree_from_tree_fields.induct)
  case (1 oc t offset path)
  then show ?case
    by (cases t) (auto simp: from_tree.simps split: if_splits option.splits)
next
  case (3 oc child_path child_tree child_offset fs offset path m)
  then show ?case
    by (auto simp: bindR_eq_Ok distinct_append_map split: option.splits)
qed simp

definition find_in :: "type_fields \<Rightarrow> u32 \<Rightarrow> string list \<Rightarrow> PrimitiveSymbolDescriptor option" where
  "find_in fs offset names =
     (case names of
        [] \<Rightarrow> None
      | name # names \<Rightarrow>
          (case map_of fs name of
             Some (child, Some child_offset) \<Rightarrow> find_primitive child (offset + child_offset) names
           | _ \<Rightarrow> None))"

lemma find_in_simps [simp]:
  "find_in [] offset names = None"
  "find_in fs offset [] = None"
  "find_in ((k, t, off) # fs) offset (name # names) =
     (if k = name then (case off of Some off \<Rightarrow> find_primitive t (offset + off) names | None \<Rightarrow> None)
      else find_in fs offset (name # names))"
  by (simp_all add: find_in_def split: list.split option.split)

lemma find_in_absent: "name \<notin> fst ` set fs \<Longrightarrow> find_in fs offset (name # names) = None"
  by (simp add: find_in_def map_of_eq_None_iff [THEN iffD2])

lemma find_primitive_children:
  "find_primitive t offset (name # names) = find_in (children t) offset (name # names)"
  by (simp add: find_in_def)

lemma below_empty_iff: "below path s = Some [] \<longleftrightarrow> s = path"
  by (auto simp: below_def tokens_def)

lemma from_tree_lookup:
  "from_tree oc t offset path = Ok m \<Longrightarrow> usable t \<Longrightarrow> plain_names t \<Longrightarrow>
     map_of m s = Option.bind (below path s) (find_primitive t offset)"
  "from_tree_fields oc fs offset path acc = Ok m \<Longrightarrow> distinct (map fst fs) \<Longrightarrow>
     (\<forall>(name, t, off) \<in> set fs. usable t \<and> name \<noteq> [] \<and> CHR ''.'' \<notin> set name \<and> plain_names t) \<Longrightarrow>
     map_of m s =
       (case Option.bind (below path s) (find_in fs offset) of Some d \<Rightarrow> Some d | None \<Rightarrow> map_of acc s)"
proof (induction oc t offset path and oc fs offset path acc arbitrary: m and m rule: from_tree_from_tree_fields.induct)
  case (1 oc t offset path)
  show ?case
  proof (cases "node_type t")
    case None
    then have rest: "from_tree_fields oc (children t) offset path [] = Ok m"
      using from_tree_Ok [OF "1.prems"(1)] by simp
    have "map_of m s = Option.bind (below path s) (find_in (children t) offset)"
    proof (cases "\<exists>fs n. t = TStruct fs n \<and> map fst fs \<noteq> TIMESTRUCT_KEYS")
      case True
      then obtain fs n where t: "t = TStruct fs n" "map fst fs \<noteq> TIMESTRUCT_KEYS"
        by blast
      then have "\<forall>(name, t, off) \<in> set fs.
          usable t \<and> name \<noteq> [] \<and> CHR ''.'' \<notin> set name \<and> plain_names t"
        using "1.prems"(2,3) by fastforce
      then show ?thesis
        using "1.IH" [OF t] rest "1.prems"(2) t by (simp add: children_def split: option.split)
    next
      case False
      then have "children t = []"
        by (cases t) (auto simp: children_def)
      then show ?thesis
        using rest by (cases "below path s") simp_all
    qed
    then show ?thesis
      using None by (cases "below path s"; cases "the (below path s)") (auto simp: find_primitive_children simp del: find_primitive.simps(2))
  next
    case (Some p)
    then have "m = [(path, from_type p offset)]" "children t = []"
      using from_tree_Ok [OF "1.prems"(1)] by auto
    then show ?thesis
      using Some below_empty_iff [of path s]
      by (cases "below path s"; cases "the (below path s)") (auto simp: find_primitive_children simp del: find_primitive.simps(2))
  qed
next
  case (2 oc offset path m)
  then show ?case
    by (simp split: option.split)
next
  case (3 oc k t off fs offset path acc)
  have k: "k \<noteq> []" "CHR ''.'' \<notin> set k" "k \<notin> fst ` set fs" "usable t" "plain_names t"
    using "3.prems"(2,3) by auto
  show ?case
  proof (cases off)
    case None
    then have "map_of m s =
        (case Option.bind (below path s) (find_in fs offset) of Some d \<Rightarrow> Some d | None \<Rightarrow> map_of acc s)"
      using 3 by simp
    then show ?thesis
      using None find_in_absent [OF k(3)]
      by (cases "below path s"; cases "the (below path s)") auto
  next
    case (Some o')
    then obtain other where other: "from_tree oc t (offset + o') (extend_path path k) = Ok other"
      and rest: "from_tree_fields oc fs offset path (append_map acc other) = Ok m"
      and add: "add_offset oc offset o' = Ok (offset + o')"
      using "3.prems"(1) by (auto simp: bindR_eq_Ok extend_path_def add_offset_def split: if_splits)
    have in_fs: "map_of m s =
        (case Option.bind (below path s) (find_in fs offset) of
           Some d \<Rightarrow> Some d | None \<Rightarrow> map_of (append_map acc other) s)"
      using "3.IH" Some add other rest "3.prems"(2,3) by (simp add: extend_path_def)
    have "map_of other s = Option.bind (below (extend_path path k) s) (find_primitive t (offset + o'))"
      using "3.IH"(2) [OF Some add] other k by (simp add: extend_path_def)
    then have in_acc: "map_of (append_map acc other) s =
        (case Option.bind (below (extend_path path k) s) (find_primitive t (offset + o')) of
           Some d \<Rightarrow> Some d | None \<Rightarrow> map_of acc s)"
      using map_of_append_map [OF from_tree_distinct(1) [OF other]] by simp
    show ?thesis
      using in_fs in_acc find_in_absent [OF k(3)] Some
      by (cases "below path s"; cases "the (below path s)") (auto simp: below_extend [OF k(1,2)] split: option.split)
  qed
qed

text \<open>
  C13: the flat map is the lookup in the type tree. For any path at all, the map that \<open>from_tree\<close>
  returns holds exactly the primitive the type tree has at that path, with its type and the sum
  of the offsets along the path; a time struct counts as one primitive, and a path that leads
  nowhere, into a time struct or through a field without an offset is not in the map.
\<close>

theorem type_map_lookup:
  assumes "from_tree oc t offset [] = Ok m" and "usable t" and "plain_names t"
  shows "map_of m s = find_primitive t offset (tokens s)"
  using from_tree_lookup(1) [OF assms] by (simp add: below_def)

section \<open>The map is built\<close>

lemma fields_extent_member:
  "(name, t, Some off) \<in> set fs \<Longrightarrow> unat off + extent t \<le> fields_extent fs"
  by (induction fs) (auto simp: le_max_iff_disj)

lemma from_tree_ok:
  "usable t \<Longrightarrow> (oc \<longrightarrow> unat offset + extent t < 2 ^ 32) \<Longrightarrow> is_ok (from_tree oc t offset path)"
  "(\<forall>(name, t, off) \<in> set fs. usable t) \<Longrightarrow> (oc \<longrightarrow> unat offset + fields_extent fs < 2 ^ 32) \<Longrightarrow>
     is_ok (from_tree_fields oc fs offset path acc)"
proof (induction oc t offset path and oc fs offset path acc rule: from_tree_from_tree_fields.induct)
  case (1 oc t offset path)
  then show ?case
    by (cases t) (auto simp: from_tree.simps extent.simps split: option.split)
next
  case (3 oc k t off fs offset path acc)
  show ?case
  proof (cases off)
    case (Some o')
    have fits: "unat offset + unat o' + extent t < 2 ^ 32" "unat offset + fields_extent fs < 2 ^ 32" if oc
      using "3.prems"(2) that Some by simp_all
    then have add: "add_offset oc offset o' = Ok (offset + o')"
      by (auto simp: add_offset_def)
    have "unat (offset + o') = unat offset + unat o'" if oc
      using fits [OF that] by (simp add: unat_word_ariths)
    then have "oc \<longrightarrow> unat (offset + o') + extent t < 2 ^ 32"
      using fits by simp
    then obtain other where "from_tree oc t (offset + o') (if path = [] then k else path @ ''.'' @ k) = Ok other"
      using "3.IH"(2) [OF Some add] "3.prems"(1) by (auto simp: is_ok_iff)
    then show ?thesis
      using "3.IH"(3) [OF Some add] "3.prems"(1) Some add fits by simp
  qed (use 3 in simp)
qed simp

text \<open>
  C20: the map of a symbol can be built. When the type tree comes from a symbol and the type map,
  flattening it does not reach \<open>unimplemented!\<close>, and where overflow is checked it does not
  overflow as long as the tree spans less than 4 GiB; no path is in the map twice.
\<close>

theorem type_map_built:
  assumes "try_from_symbol fuel symbol type_map = Some (Inr t)" and "oc \<longrightarrow> extent t < 2 ^ 32"
  shows "\<exists>m. from_tree oc t 0 path = Ok m \<and> distinct (map fst m)"
proof -
  have "usable t"
    using assms(1) by (auto simp: try_from_symbol_def intro: usable_built)
  then have "is_ok (from_tree oc t 0 path)"
    using assms(2) by (intro from_tree_ok(1)) auto
  then show ?thesis
    using from_tree_distinct(1) by (auto simp: is_ok_iff)
qed

section \<open>The flat view and the tree view\<close>

text \<open>The primitive value of a leaf of the symbol tree.\<close>

fun flat_value :: "(u32 \<Rightarrow> u64) \<Rightarrow> SymbolTree \<Rightarrow> 'dt PrimitiveValue option" where
  "flat_value widen (IntV v) = Some (VInt (scast v))"
| "flat_value widen (Dint v) = Some (VInt (scast v))"
| "flat_value widen (Real v) = Some (VFloat (widen v))"
| "flat_value widen (Lreal v) = Some (VFloat v)"
| "flat_value widen (Sint v) = Some (VInt (scast v))"
| "flat_value widen (Usint v) = Some (VUint (ucast v))"
| "flat_value widen (Uint v) = Some (VUint (ucast v))"
| "flat_value widen (Udint v) = Some (VUint (ucast v))"
| "flat_value widen (Lint v) = Some (VInt v)"
| "flat_value widen (Ulint v) = Some (VUint v)"
| "flat_value widen (String s) = Some (VString s)"
| "flat_value widen (Real80 v) = Some (VFloat v)"
| "flat_value widen (Bool b) = Some (VBool b)"
| "flat_value widen (Void bs) = Some (VVoid bs)"
| "flat_value widen (Array [Void bs]) = Some (VVoid bs)"
| "flat_value widen Malformed = Some VMalformed"
| "flat_value widen t = None"

lemma flat_value_num:
  assumes "\<And>v. flat_value widen (mk v) = Some (mk' v)"
  shows "flat_value widen (read_num mk bs) = Some (value_num mk' bs)"
  using assms by (simp add: read_num_def value_num_def split: option.split)

lemma read_leaf_agrees:
  assumes "primitive_of t = Some p" and "read_leaf to_f64 t bs = Ok tree" and "flat_value widen tree = Some v"
  shows "read_primitive widen to_f64 from_ymd and_hms p bs = Ok v"
  using assms
  by (cases t)
    (auto simp: primitive_of_def read_leaf_def read_primitive_def mapR_eq_Ok flat_value_num split: option.splits if_splits)

lemma find_primitive_locate:
  assumes "find_primitive t (of_nat offset) ns = Some d"
  shows "\<exists>leaf o'. locate t offset ns = Some (leaf, o') \<and> node_type leaf = Some (symbol_type d)
    \<and> root_symbol_offset d = of_nat o' \<and> o' + extent leaf \<le> offset + extent t"
  using assms
proof (induction ns arbitrary: t offset)
  case Nil
  then show ?case
    by (auto simp: from_type_def)
next
  case (Cons n ns)
  then obtain child off where entry: "map_of (children t) n = Some (child, Some off)"
    and rest: "find_primitive child (of_nat offset + off) ns = Some d"
    by (auto split: option.splits)
  then obtain fs k where t: "t = TStruct fs k" and fs: "map_of fs n = Some (child, Some off)"
    by (auto simp: children_def split: SymbolTypeTree.splits if_splits)
  have "of_nat offset + off = of_nat (offset + unat off)"
    by simp
  then have "find_primitive child (of_nat (offset + unat off)) ns = Some d"
    using rest by (simp only:)
  from Cons.IH [OF this] obtain leaf o' where "locate child (offset + unat off) ns = Some (leaf, o')"
    "node_type leaf = Some (symbol_type d)" "root_symbol_offset d = of_nat o'"
    "o' + extent leaf \<le> offset + unat off + extent child"
    by blast
  moreover have "unat off + extent child \<le> extent t"
    using fields_extent_member [OF map_of_SomeD [OF fs]] by (simp add: t extent.simps)
  ultimately show ?case
    using t fs by auto
qed

lemma timestruct_shape:
  assumes "map fst fs = TIMESTRUCT_KEYS" and "timestruct_offsets fs (replicate 8 0) = Some offsets"
  obtains y mo w d h mi sec ms where
    "fs = [(''wYear'', TUint, Some y), (''wMonth'', TUint, Some mo), (''wDayOfWeek'', TUint, Some w),
           (''wDay'', TUint, Some d), (''wHour'', TUint, Some h), (''wMinute'', TUint, Some mi),
           (''wSecond'', TUint, Some sec), (''wMilliseconds'', TUint, Some ms)]"
    and "offsets = [unat y, unat mo, unat w, unat d, unat h, unat mi, unat sec, unat ms]"
  using assms
  by (auto simp: TIMESTRUCT_KEYS_def map_eq_Cons_conv numeral_eq_Suc split: option.splits if_splits)

lemma u16_prefix:
  "2 \<le> length bs \<Longrightarrow> word_read_from_prefix bs = Some (from_le_bytes (take 2 bs) :: u16)"
  by (simp add: word_read_from_prefix_def word_read_from_bytes_def)

lemma u16_at_within:
  "n + 2 \<le> length bs \<Longrightarrow> u16_at n bs = Ok (Some (from_le_bytes (take 2 (drop n bs))))"
  by (simp add: u16_at_def slice_from_def u16_prefix)

lemma uint_within:
  "offset + n + 2 \<le> length data \<Longrightarrow>
     from_bytes to_f64 data TUint (offset + n)
     = Ok (Uint (from_le_bytes (take 2 (drop n (drop offset data)))))"
  by (simp add: from_bytes.simps read_leaf_def read_num_def u16_prefix add.commute)

text \<open>A time struct in the data: both views take the date from the same bytes.\<close>

lemma timestruct_value:
  assumes "map fst fs = TIMESTRUCT_KEYS" and "timestruct_offsets fs (replicate 8 0) = Some offsets"
    and "offset + fields_extent fs \<le> length data"
  shows "\<exists>dt tm. read_primitive widen to_f64 from_ymd and_hms (PTimeStruct offsets) (drop offset data)
        = Ok (case dt of Some dt \<Rightarrow> VTimestamp dt | None \<Rightarrow> VMalformed)
      \<and> from_bytes to_f64 data (TStruct fs k) offset = Ok (Struct tm)
      \<and> (\<forall>tree path. get_child tree path = Struct tm \<longrightarrow> get_timestamp from_ymd and_hms tree path = dt)"
proof -
  obtain y mo w d h mi sec ms where fs:
    "fs = [(''wYear'', TUint, Some y), (''wMonth'', TUint, Some mo), (''wDayOfWeek'', TUint, Some w),
           (''wDay'', TUint, Some d), (''wHour'', TUint, Some h), (''wMinute'', TUint, Some mi),
           (''wSecond'', TUint, Some sec), (''wMilliseconds'', TUint, Some ms)]"
    and offsets: "offsets = [unat y, unat mo, unat w, unat d, unat h, unat mi, unat sec, unat ms]"
    using timestruct_shape [OF assms(1,2)] .
  have bounds: "offset + unat off + 2 \<le> length data" if "off \<in> {y, mo, w, d, h, mi, sec, ms}" for off
  proof -
    have "snd ` set fs = (\<lambda>off. (TUint, Some off)) ` {y, mo, w, d, h, mi, sec, ms}"
      by (simp add: fs)
    then have "(TUint, Some off) \<in> snd ` set fs"
      using that by blast
    then obtain name where "(name, TUint, Some off) \<in> set fs"
      by (force simp: image_iff)
    from fields_extent_member [OF this] assms(3) show ?thesis
      by (simp add: extent.simps)
  qed
  let ?v = "\<lambda>off :: u32. from_le_bytes (take 2 (drop (unat off) (drop offset data))) :: u16"
  let ?dt = "datetime from_ymd and_hms (?v y) (?v mo) (?v d) (?v h) (?v mi) (?v sec) (?v ms)"
  have at: "u16_at (unat off) (drop offset data) = Ok (Some (?v off))"
    "from_bytes to_f64 data TUint (offset + unat off) = Ok (Uint (?v off))"
    if "off \<in> {y, mo, w, d, h, mi, sec, ms}" for off
    using bounds [OF that] by (simp_all add: u16_at_within uint_within)
  have "from_bytes to_f64 data (TStruct fs k) offset
    = Ok (Struct [(''wYear'', Uint (?v y)), (''wMonth'', Uint (?v mo)), (''wDayOfWeek'', Uint (?v w)),
           (''wDay'', Uint (?v d)), (''wHour'', Uint (?v h)), (''wMinute'', Uint (?v mi)),
           (''wSecond'', Uint (?v sec)), (''wMilliseconds'', Uint (?v ms))])" (is "_ = Ok (Struct ?tm)")
    using bounds [of y] by (subst from_bytes.simps) (simp add: fs at)
  moreover have "read_primitive widen to_f64 from_ymd and_hms (PTimeStruct offsets) (drop offset data)
      = Ok (case ?dt of Some dt \<Rightarrow> VTimestamp dt | None \<Rightarrow> VMalformed)"
    by (simp add: read_primitive_def datetime_from_bytes_def offsets at bind_size_def)
  moreover have "\<forall>tree path. get_child tree path = Struct ?tm \<longrightarrow> get_timestamp from_ymd and_hms tree path = ?dt"
    by (simp add: get_timestamp_def uint_of_def)
  ultimately show ?thesis
    by blast
qed

lemma read_primitive_ok:
  assumes "node_type t = Some p" and "offset + extent t \<le> length data"
  shows "is_ok (read_primitive widen to_f64 from_ymd and_hms p (drop offset data))"
proof (cases "\<exists>fs k. t = TStruct fs k")
  case True
  then obtain fs k offsets where "t = TStruct fs k" "map fst fs = TIMESTRUCT_KEYS"
    "timestruct_offsets fs (replicate 8 0) = Some offsets" "p = PTimeStruct offsets"
    using assms(1) by (auto simp: node_type_def split: if_splits)
  then show ?thesis
    using timestruct_value [of fs offsets offset data widen to_f64 from_ymd and_hms k] assms(2)
    by (auto simp: extent.simps is_ok_iff)
next
  case False
  then have "primitive_of t = Some p" "get_size t \<le> length (drop offset data)"
    using assms by (cases t; simp add: node_type_def extent.simps primitive_of_def)+
  then show ?thesis
    by (cases t) (auto simp: primitive_of_def read_primitive_def take_slice_def read_string_def
        read_wstring_def read_words_ok minus_mod_eq_mult_div [symmetric])
qed

lemma map_from_bytes_spec:
  "distinct (map fst ds) \<Longrightarrow> (\<And>path d. map_of ds path = Some d \<Longrightarrow> is_ok (read bs d)) \<Longrightarrow>
     \<exists>vm. map_from_bytes read bs ds m = Ok vm
       \<and> (\<forall>path. map_of ds path = None \<longrightarrow> map_of vm path = map_of m path)
       \<and> (\<forall>path d v. map_of ds path = Some d \<longrightarrow> read bs d = Ok v \<longrightarrow> map_of vm path = Some v)"
proof (induction ds arbitrary: m)
  case (Cons e ds)
  obtain k d where e: "e = (k, d)"
    by (cases e)
  then obtain v where v: "read bs d = Ok v"
    using Cons.prems(2) [of k d] by (auto simp: is_ok_iff)
  have "map_of ds k = None"
    using Cons.prems(1) e by (simp add: map_of_eq_None_iff)
  then have "is_ok (read bs d')" if "map_of ds path = Some d'" for path d'
    using Cons.prems(2) [of path d'] that e by (cases "path = k") auto
  then obtain vm where "map_from_bytes read bs ds (AList.update k v m) = Ok vm"
    "\<forall>path. map_of ds path = None \<longrightarrow> map_of vm path = map_of (AList.update k v m) path"
    "\<forall>path d v. map_of ds path = Some d \<longrightarrow> read bs d = Ok v \<longrightarrow> map_of vm path = Some v"
    using Cons.IH [of "AList.update k v m"] Cons.prems(1) e by auto
  then show ?case
    using v e \<open>map_of ds k = None\<close> by (intro exI [of _ vm]) (auto simp: update_conv')
qed simp

text \<open>What an entry of the map reads, and how it relates to the tree.\<close>

definition tree_node :: "SymbolTree \<Rightarrow> string \<Rightarrow> SymbolTree" where
  "tree_node tree path = (if path = [] then tree else get_child tree path)"

lemma tree_node_walk: "tree_node tree path = walk tree (tokens path)"
  by (simp add: tree_node_def get_child_def tokens_def)

lemma leaf_value:
  fixes v :: "'dt PrimitiveValue"
  assumes "node_type t = Some p" and "offset \<le> length data" and "from_bytes to_f64 data t offset = Ok tree"
    and "flat_value widen tree = Some v"
  shows "read_primitive widen to_f64 from_ymd and_hms p (drop offset data) = Ok v"
proof (cases "\<exists>fs k. t = TStruct fs k")
  case True
  then have "flat_value widen tree = (None :: 'dt PrimitiveValue option)"
    using assms(3) by (auto simp: from_bytes.simps mapR_eq_Ok split: if_splits)
  then show ?thesis
    using assms(4) by simp
next
  case False
  then have "primitive_of t = Some p" "read_leaf to_f64 t (drop offset data) = Ok tree"
    using assms(1-3) by (cases t; simp add: node_type_def from_bytes.simps)+
  then show ?thesis
    using assms(4) by (rule read_leaf_agrees)
qed

lemma timestamp_value:
  assumes "node_type t = Some (PTimeStruct offsets)" and "offset + extent t \<le> length data"
    and "from_bytes to_f64 data t offset = Ok (get_child tree path)"
  shows "read_primitive widen to_f64 from_ymd and_hms (PTimeStruct offsets) (drop offset data)
    = Ok (case get_timestamp from_ymd and_hms tree path of Some dt \<Rightarrow> VTimestamp dt | None \<Rightarrow> VMalformed)"
proof -
  obtain fs k where "t = TStruct fs k" "map fst fs = TIMESTRUCT_KEYS"
    "timestruct_offsets fs (replicate 8 0) = Some offsets"
    using assms(1) by (auto simp: node_type_def primitive_of_def split: SymbolTypeTree.splits if_splits)
  then show ?thesis
    using timestruct_value [of fs offsets offset data widen to_f64 from_ymd and_hms k] assms(2,3)
    by (auto simp: extent.simps)
qed

lemma entry_value:
  assumes "usable t" and "plain_names t" and "extent t \<le> length data" and "extent t < 2 ^ 32"
    and "from_tree oc t 0 [] = Ok m" and "from_bytes to_f64 data t 0 = Ok tree" and "map_of m path = Some d"
  shows "\<exists>v. read_descriptor widen to_f64 from_ymd and_hms data d = Ok v
    \<and> (\<forall>u. flat_value widen (tree_node tree path) = Some u \<longrightarrow> v = u)
    \<and> (\<forall>offsets. path \<noteq> [] \<and> symbol_type d = PTimeStruct offsets \<longrightarrow>
         v = (case get_timestamp from_ymd and_hms tree path of Some dt \<Rightarrow> VTimestamp dt | None \<Rightarrow> VMalformed))"
proof -
  have "find_primitive t (of_nat 0) (tokens path) = Some d"
    using type_map_lookup [OF assms(5,1,2)] assms(7) by simp
  from find_primitive_locate [OF this] obtain leaf o' where leaf: "locate t 0 (tokens path) = Some (leaf, o')"
    "node_type leaf = Some (symbol_type d)" "root_symbol_offset d = of_nat o'" "o' + extent leaf \<le> extent t"
    by auto
  have within: "o' + extent leaf \<le> length data"
    using leaf(4) assms(3) by simp
  have "unat (root_symbol_offset d) = o'"
    unfolding leaf(3) by (rule unat_of_nat_u32) (rule le_less_trans [OF _ assms(4)], use leaf(4) in simp)
  then have read: "read_descriptor widen to_f64 from_ymd and_hms data d
      = read_primitive widen to_f64 from_ymd and_hms (symbol_type d) (drop o' data)"
    using within by (simp add: read_descriptor_def slice_from_def)
  obtain v where v: "read_primitive widen to_f64 from_ymd and_hms (symbol_type d) (drop o' data) = Ok v"
    using iffD1 [OF is_ok_iff read_primitive_ok [OF leaf(2) within]] ..
  have node: "from_bytes to_f64 data leaf o' = Ok (tree_node tree path)"
    using walk_located [OF assms(1,6) leaf(1)] by (simp add: tree_node_walk)
  have "v = u" if "flat_value widen (tree_node tree path) = Some u" for u
    using leaf_value [OF leaf(2) _ node that, of from_ymd and_hms] within v by simp
  moreover have "v = (case get_timestamp from_ymd and_hms tree path of Some dt \<Rightarrow> VTimestamp dt | None \<Rightarrow> VMalformed)"
    if "path \<noteq> []" "symbol_type d = PTimeStruct offsets" for offsets
    using timestamp_value [of leaf offsets o' data to_f64 tree path widen from_ymd and_hms] leaf(2) within node v that
    by (simp add: tree_node_def)
  ultimately show ?thesis
    using read v by auto
qed


section \<open>Samples\<close>

definition event_tree :: SymbolTypeTree where
  "event_tree =
     TStruct [(''n'', TInt, Some 0), (''y'', TBool, None),
       (''at'', TStruct (zip TIMESTRUCT_KEYS (map (\<lambda>n. (TUint, Some n)) [0, 2, 4, 6, 8, 10, 12, 14])) 16, Some 2)] 18"

definition event_data :: bytes where
  "event_data = [255, 255, 234, 7, 3, 0, 4, 0, 26, 0, 4, 0, 15, 0, 12, 0, 219, 3]"

definition event_map :: SymbolTypeMap where
  "event_map = [(''n'', from_type PInt 0), (''at'', from_type (PTimeStruct [0, 2, 4, 6, 8, 10, 12, 14]) 2)]"

lemma replicate_8: "replicate 8 (0 :: nat) = [0, 0, 0, 0, 0, 0, 0, 0]"
  by (simp add: eval_nat_numeral)

lemma event_map_built: "from_tree True event_tree 0 [] = Ok event_map"
  by (simp add: event_tree_def event_map_def from_tree.simps TIMESTRUCT_KEYS_def add_offset_def
      append_map_def from_type_def primitive_of_def replicate_8)

lemma event_tree_fine: "usable event_tree" "plain_names event_tree" "extent event_tree = 18"
  by (simp_all add: event_tree_def TIMESTRUCT_KEYS_def extent.simps)

theorem type_map_lookup_witness:
  "map_of event_map ''at'' = find_primitive event_tree 0 [''at'']
   \<and> map_of event_map ''at.wYear'' = find_primitive event_tree 0 [''at'', ''wYear'']"
  using type_map_lookup [OF event_map_built event_tree_fine(1,2)] by (simp add: tokens_def)

theorem type_map_built_witness:
  "\<exists>m. from_tree True nested_tree 0 [] = Ok m \<and> distinct (map fst m)"
  by (rule type_map_built [OF nested_tree_built]) (simp add: nested_tree_def extent.simps)

definition event_date :: "nat \<Rightarrow> nat \<Rightarrow> nat \<Rightarrow> (nat \<times> nat \<times> nat) option" where
  "event_date y m d = (if 1 \<le> m \<and> m \<le> 12 \<and> 1 \<le> d \<and> d \<le> 28 then Some (y, m, d) else None)"

definition event_time :: "nat \<times> nat \<times> nat \<Rightarrow> nat \<Rightarrow> nat \<Rightarrow> nat \<Rightarrow> nat \<Rightarrow> nat list option" where
  "event_time date h m s ms =
     (if h < 24 \<and> m < 60 \<and> s < 60 \<and> ms < 1000 then Some [fst date, fst (snd date), snd (snd date), h, m, s, ms]
      else None)"

definition event_value :: SymbolTree where
  "event_value =
     Struct [(''n'', IntV (-1)), (''y'', Missing),
       (''at'', Struct [(''wYear'', Uint 2026), (''wMonth'', Uint 3), (''wDayOfWeek'', Uint 4), (''wDay'', Uint 26),
          (''wHour'', Uint 4), (''wMinute'', Uint 15), (''wSecond'', Uint 12), (''wMilliseconds'', Uint 987)])]"

lemma event_value_built: "from_bytes to_f64 event_data event_tree 0 = Ok event_value"
  by (simp add: event_data_def event_tree_def event_value_def TIMESTRUCT_KEYS_def from_bytes.simps read_leaf_def
      read_num_def word_read_from_prefix_def word_read_from_bytes_def from_le_bytes_def)


end
