(* ===== verification/DataTypes.thy ===== *)
theory DataTypes
  imports SymbolTree
begin

text \<open>
  The values a program reads from and writes to the PLC (\<open>src/data_types/\<close>) and the parameters
  of RPC methods (\<open>src/params.rs\<close>).

  \<^item> Every type is \<open>repr(C)\<close>: its image is the images of its fields in order; the targets are
    little-endian. A signed integer is the word of its width, a float its bit pattern.
  \<^item> \<open>size\<close> and \<open>from_bytes\<close> of the trait \<open>AdsData\<close> are the two operations of the interface
    \<open>ads_data\<close>; zerocopy's \<open>read_from_bytes\<close> accepts exactly the images of the type's size.
  \<^item> The calendar of the \<open>chrono\<close> crate is a parameter.
\<close>

section \<open>The types\<close>

datatype AdsBool = AdsBool u8
datatype AdsDint = AdsDint u32
datatype AdsInt = AdsInt u16
datatype AdsLreal = AdsLreal u64
datatype AdsReal = AdsReal u32
datatype AdsUdint = AdsUdint u32
datatype AdsUint = AdsUint u16
datatype AdsWord = AdsWord u16
datatype AdsTime = AdsTime AdsUdint

record AdsString16 =
  inner :: bytes
  null_terminator :: u8

record AdsTimeStruct =
  ts_year :: AdsWord
  ts_month :: AdsWord
  ts_day_of_week :: AdsWord
  ts_day :: AdsWord
  ts_hour :: AdsWord
  ts_minute :: AdsWord
  ts_second :: AdsWord
  ts_milliseconds :: AdsWord

section \<open>Conversions\<close>

definition bool_from :: "bool \<Rightarrow> AdsBool" where
  "bool_from v = (if v then AdsBool 1 else AdsBool 0)"

primrec bool_into :: "AdsBool \<Rightarrow> bool res" where
  "bool_into (AdsBool n) = (if n = 1 then Ok True else if n = 0 then Ok False else Panic)"

primrec dint_into :: "AdsDint \<Rightarrow> u32" where
  "dint_into (AdsDint v) = v"

definition int_from :: "u16 \<Rightarrow> AdsInt" where
  "int_from v = AdsInt v"

primrec int_into :: "AdsInt \<Rightarrow> u16" where
  "int_into (AdsInt v) = v"

definition lreal_from :: "u64 \<Rightarrow> AdsLreal" where
  "lreal_from v = AdsLreal v"

primrec lreal_into :: "AdsLreal \<Rightarrow> u64" where
  "lreal_into (AdsLreal v) = v"

definition real_from :: "u32 \<Rightarrow> AdsReal" where
  "real_from v = AdsReal v"

primrec real_into :: "AdsReal \<Rightarrow> u32" where
  "real_into (AdsReal v) = v"

definition uint_from :: "u16 \<Rightarrow> AdsUint" where
  "uint_from v = AdsUint v"

primrec uint_into :: "AdsUint \<Rightarrow> u16" where
  "uint_into (AdsUint v) = v"

primrec word_into :: "AdsWord \<Rightarrow> u16" where
  "word_into (AdsWord v) = v"

text \<open>\<open>bytemuck::cast\<close> of two \<open>u16\<close>: the same four bytes as a \<open>u32\<close>.\<close>

definition udint_from_u16s :: "u16 \<Rightarrow> u16 \<Rightarrow> AdsUdint" where
  "udint_from_u16s a b = AdsUdint (from_le_bytes (to_le_bytes a @ to_le_bytes b))"

definition udint_from :: "u32 \<Rightarrow> AdsUdint" where
  "udint_from v = AdsUdint v"

primrec udint_into :: "AdsUdint \<Rightarrow> u32" where
  "udint_into (AdsUdint v) = v"

definition time_from :: "u32 \<Rightarrow> AdsTime" where
  "time_from v = AdsTime (udint_from v)"

primrec time_into :: "AdsTime \<Rightarrow> u32" where
  "time_into (AdsTime v) = udint_into v"

definition timestruct_into ::
  "(nat \<Rightarrow> nat \<Rightarrow> nat \<Rightarrow> 'date option) \<Rightarrow> ('date \<Rightarrow> nat \<Rightarrow> nat \<Rightarrow> nat \<Rightarrow> nat \<Rightarrow> 'dt option)
   \<Rightarrow> AdsTimeStruct \<Rightarrow> 'dt option" where
  "timestruct_into from_ymd and_hms v =
     (let year = word_into (ts_year v);
          month = word_into (ts_month v);
          day = word_into (ts_day v);
          hour = word_into (ts_hour v);
          minute = word_into (ts_minute v);
          sec = word_into (ts_second v);
          milliseconds = word_into (ts_milliseconds v)
      in Option.bind (from_ymd (unat year) (unat month) (unat day)) (\<lambda>date.
           and_hms date (unat hour) (unat minute) (unat sec) (unat milliseconds)))"

text \<open>Strings of at most 16 bytes, with a terminator that the code never sets.\<close>

datatype AdsString16FromStringError = LongerThan16Bytes
datatype AdsString16CheckTerminatorError = TerminatorNotZero u8

definition new_zeroed :: AdsString16 where
  "new_zeroed = \<lparr>inner = replicate 16 0, null_terminator = 0\<rparr>"

definition string16_try_from :: "string \<Rightarrow> AdsString16FromStringError + AdsString16" where
  "string16_try_from s =
     (let src = as_bytes s;
          src_len = length src
      in if 16 < src_len then Inl LongerThan16Bytes
         else Inr (new_zeroed\<lparr>inner := src @ drop src_len (inner new_zeroed)\<rparr>))"

definition string16_into :: "AdsString16 \<Rightarrow> string" where
  "string16_into val = trim_end_nul (string_of_chars (latin1_chars (inner val)))"

definition check_terminator :: "AdsString16 \<Rightarrow> AdsString16CheckTerminatorError + unit" where
  "check_terminator v =
     (if null_terminator v \<noteq> 0 then Inl (TerminatorNotZero (null_terminator v)) else Inr ())"

section \<open>The trait \<open>AdsData\<close>\<close>

text \<open>
  An implementation of the trait: \<open>size()\<close>, \<open>default()\<close>, and zerocopy's \<open>as_bytes\<close> and
  \<open>read_from_bytes\<close>. A newtype of an integer or a float has the image of what it wraps.
\<close>

record 'v AdsData =
  data_size :: nat
  data_default :: 'v
  data_image :: "'v \<Rightarrow> bytes"
  data_read :: "bytes \<Rightarrow> 'v option"

definition ads_from_bytes :: "'v AdsData \<Rightarrow> bytes \<Rightarrow> 'v option" where
  "ads_from_bytes T bs = data_read T bs"

definition newtype_data :: "('a::len word \<Rightarrow> 'v) \<Rightarrow> ('v \<Rightarrow> 'a word) \<Rightarrow> 'v AdsData" where
  "newtype_data mk un =
     \<lparr>data_size = LENGTH('a) div 8, data_default = mk 0, data_image = (\<lambda>v. to_le_bytes (un v)),
      data_read = (\<lambda>bs. map_option mk (word_read_from_bytes bs))\<rparr>"

primrec bool_inner :: "AdsBool \<Rightarrow> u8" where
  "bool_inner (AdsBool n) = n"

definition bool_data :: "AdsBool AdsData" where "bool_data = newtype_data AdsBool bool_inner"
definition dint_data :: "AdsDint AdsData" where "dint_data = newtype_data AdsDint dint_into"
definition int_data :: "AdsInt AdsData" where "int_data = newtype_data AdsInt int_into"
definition lreal_data :: "AdsLreal AdsData" where "lreal_data = newtype_data AdsLreal lreal_into"
definition real_data :: "AdsReal AdsData" where "real_data = newtype_data AdsReal real_into"
definition udint_data :: "AdsUdint AdsData" where "udint_data = newtype_data AdsUdint udint_into"
definition uint_data :: "AdsUint AdsData" where "uint_data = newtype_data AdsUint uint_into"
definition word_data :: "AdsWord AdsData" where "word_data = newtype_data AdsWord word_into"
definition time_data :: "AdsTime AdsData" where
  "time_data = newtype_data (\<lambda>v. AdsTime (AdsUdint v)) time_into"

definition string16_data :: "AdsString16 AdsData" where
  "string16_data =
     \<lparr>data_size = 17, data_default = new_zeroed, data_image = (\<lambda>v. inner v @ [null_terminator v]),
      data_read = (\<lambda>bs. if length bs = 17
        then Some \<lparr>inner = take 16 bs, null_terminator = bs ! 16\<rparr> else None)\<rparr>"

definition timestruct_data :: "AdsTimeStruct AdsData" where
  "timestruct_data =
     \<lparr>data_size = 16,
      data_default = \<lparr>ts_year = AdsWord 0, ts_month = AdsWord 0, ts_day_of_week = AdsWord 0,
        ts_day = AdsWord 0, ts_hour = AdsWord 0, ts_minute = AdsWord 0, ts_second = AdsWord 0,
        ts_milliseconds = AdsWord 0\<rparr>,
      data_image = (\<lambda>v. concat (map (\<lambda>w. to_le_bytes (word_into w))
        [ts_year v, ts_month v, ts_day_of_week v, ts_day v, ts_hour v, ts_minute v, ts_second v,
         ts_milliseconds v])),
      data_read = (\<lambda>bs. if length bs = 16
        then (let w = (\<lambda>i. AdsWord (from_le_bytes (slice i 2 bs))) in
          Some \<lparr>ts_year = w 0, ts_month = w 2, ts_day_of_week = w 4, ts_day = w 6, ts_hour = w 8,
            ts_minute = w 10, ts_second = w 12, ts_milliseconds = w 14\<rparr>)
        else None)\<rparr>"

section \<open>Parameters of RPC methods\<close>

definition into_data_1 :: "'a AdsData \<Rightarrow> 'a \<Rightarrow> bytes" where
  "into_data_1 P1 p = data_image P1 p"

definition into_data_2 :: "'a AdsData \<Rightarrow> 'b AdsData \<Rightarrow> 'a \<times> 'b \<Rightarrow> bytes" where
  "into_data_2 P1 P2 = (\<lambda>(a, b). concat [data_image P1 a, data_image P2 b])"

definition into_data_3 :: "'a AdsData \<Rightarrow> 'b AdsData \<Rightarrow> 'c AdsData \<Rightarrow> 'a \<times> 'b \<times> 'c \<Rightarrow> bytes" where
  "into_data_3 P1 P2 P3 = (\<lambda>(a, b, c). concat [data_image P1 a, data_image P2 b, data_image P3 c])"

definition into_data_4 ::
  "'a AdsData \<Rightarrow> 'b AdsData \<Rightarrow> 'c AdsData \<Rightarrow> 'd AdsData \<Rightarrow> 'a \<times> 'b \<times> 'c \<times> 'd \<Rightarrow> bytes" where
  "into_data_4 P1 P2 P3 P4 =
     (\<lambda>(a, b, c, d). concat [data_image P1 a, data_image P2 b, data_image P3 c, data_image P4 d])"

definition into_data_5 ::
  "'a AdsData \<Rightarrow> 'b AdsData \<Rightarrow> 'c AdsData \<Rightarrow> 'd AdsData \<Rightarrow> 'e AdsData
   \<Rightarrow> 'a \<times> 'b \<times> 'c \<times> 'd \<times> 'e \<Rightarrow> bytes" where
  "into_data_5 P1 P2 P3 P4 P5 =
     (\<lambda>(a, b, c, d, e). concat [data_image P1 a, data_image P2 b, data_image P3 c, data_image P4 d,
        data_image P5 e])"

section \<open>Every type is read back from its image\<close>

text \<open>The laws of the trait: reading accepts exactly the images, which have the type's size.\<close>

locale ads_data =
  fixes T :: "'v AdsData" and valid :: "'v \<Rightarrow> bool"
  assumes size_image: "valid v \<Longrightarrow> length (data_image T v) = data_size T"
    and read_image: "valid v \<Longrightarrow> data_read T (data_image T v) = Some v"
    and image_read: "data_read T bs = Some v \<Longrightarrow> valid v \<and> data_image T v = bs"
    and read_total: "length bs = data_size T \<Longrightarrow> data_read T bs \<noteq> None"
    and default_valid: "valid (data_default T)"
begin

lemma from_bytes_Some: "ads_from_bytes T bs = Some v \<longleftrightarrow> valid v \<and> bs = data_image T v"
  using image_read read_image by (auto simp: ads_from_bytes_def)

lemma from_bytes_None: "ads_from_bytes T bs = None \<longleftrightarrow> length bs \<noteq> data_size T"
  using image_read size_image read_total by (metis ads_from_bytes_def not_None_eq)

lemma read_slice:
  "valid v \<Longrightarrow> length pre = n \<Longrightarrow> data_read T (slice n (data_size T) (pre @ data_image T v @ post)) = Some v"
  by (simp add: read_image size_image)

end

lemma newtype_lawful:
  assumes "8 dvd LENGTH('a::len)" and "\<And>x :: 'a word. un (mk x) = x" and "\<And>v. mk (un v) = v"
  shows "ads_data (newtype_data mk un) (\<lambda>_. True)"
proof -
  note word = pod_word [where 'a = 'a, OF assms(1)]
  show ?thesis
    using pod.length_image [OF word] pod.read_image [OF word] pod.image_read [OF word] pod.read_total [OF word]
    by unfold_locales (force simp: newtype_data_def assms(2,3))+
qed

lemma collapse_udint [simp]: "AdsUdint (udint_into u) = u"
  by (cases u) simp

lemma collapse_newtypes [simp]:
  "AdsBool (bool_inner b) = b" "AdsDint (dint_into d) = d" "AdsInt (int_into i) = i"
  "AdsLreal (lreal_into l) = l" "AdsReal (real_into r) = r" "AdsUint (uint_into ui) = ui"
  "AdsWord (word_into w) = w" "AdsTime (AdsUdint (time_into t)) = t"
  by (cases b, simp, cases d, simp, cases i, simp, cases l, simp, cases r, simp,
      cases ui, simp, cases w, simp, cases t, simp)

interpretation bool_ads: ads_data bool_data "\<lambda>_. True"
  unfolding bool_data_def by (rule newtype_lawful) simp_all

interpretation dint_ads: ads_data dint_data "\<lambda>_. True"
  unfolding dint_data_def by (rule newtype_lawful) simp_all

interpretation int_ads: ads_data int_data "\<lambda>_. True"
  unfolding int_data_def by (rule newtype_lawful) simp_all

interpretation lreal_ads: ads_data lreal_data "\<lambda>_. True"
  unfolding lreal_data_def by (rule newtype_lawful) simp_all

interpretation real_ads: ads_data real_data "\<lambda>_. True"
  unfolding real_data_def by (rule newtype_lawful) simp_all

interpretation udint_ads: ads_data udint_data "\<lambda>_. True"
  unfolding udint_data_def by (rule newtype_lawful) simp_all

interpretation uint_ads: ads_data uint_data "\<lambda>_. True"
  unfolding uint_data_def by (rule newtype_lawful) simp_all

interpretation word_ads: ads_data word_data "\<lambda>_. True"
  unfolding word_data_def by (rule newtype_lawful) simp_all

interpretation time_ads: ads_data time_data "\<lambda>_. True"
  unfolding time_data_def
  by (rule newtype_lawful) simp_all

definition string16_ok :: "AdsString16 \<Rightarrow> bool" where
  "string16_ok v \<longleftrightarrow> length (inner v) = 16"

interpretation string16_ads: ads_data string16_data string16_ok
  by unfold_locales
    (auto simp: string16_data_def string16_ok_def new_zeroed_def nth_append simp flip: take_Suc_conv_app_nth
      split: if_splits)

interpretation timestruct_ads: ads_data timestruct_data "\<lambda>_. True"
proof unfold_locales
  fix v
  show "data_read timestruct_data (data_image timestruct_data v) = Some v"
    by (cases v) (simp add: timestruct_data_def length_to_le_bytes from_to_le_bytes)
qed (auto simp: timestruct_data_def Let_def length_to_le_bytes to_from_le_bytes slice_joins split: if_splits)

definition reads_its_images :: "'v AdsData \<Rightarrow> ('v \<Rightarrow> bool) \<Rightarrow> bool" where
  "reads_its_images T valid \<longleftrightarrow>
     (\<forall>bs v. ads_from_bytes T bs = Some v \<longleftrightarrow> valid v \<and> bs = data_image T v)
     \<and> (\<forall>bs. ads_from_bytes T bs = None \<longleftrightarrow> length bs \<noteq> data_size T)"

context ads_data
begin

lemma reads_images: "reads_its_images T valid"
  by (simp add: reads_its_images_def from_bytes_Some from_bytes_None)

end

section \<open>Parameters\<close>

lemma image_of:
  assumes "reads_its_images T V" and "V v"
  shows "ads_from_bytes T (data_image T v) = Some v" "length (data_image T v) = data_size T"
proof -
  show read: "ads_from_bytes T (data_image T v) = Some v"
    using assms by (simp add: reads_its_images_def)
  then show "length (data_image T v) = data_size T"
    using assms(1) unfolding reads_its_images_def by (metis option.distinct(1))
qed

text \<open>
  The parameters of a call can be told apart. The data of five parameters is the images of
  the values in order, so each value is read back from its own slice, and the data is as long
  as the types' sizes together.
\<close>

theorem params_split:
  assumes "reads_its_images P1 V1" and "reads_its_images P2 V2" and "reads_its_images P3 V3"
    and "reads_its_images P4 V4" and "reads_its_images P5 V5"
    and "V1 a" and "V2 b" and "V3 c" and "V4 d" and "V5 e"
    and "params = into_data_5 P1 P2 P3 P4 P5 (a, b, c, d, e)"
  shows "ads_from_bytes P1 (slice 0 (data_size P1) params) = Some a
    \<and> ads_from_bytes P2 (slice (data_size P1) (data_size P2) params) = Some b
    \<and> ads_from_bytes P3 (slice (data_size P1 + data_size P2) (data_size P3) params) = Some c
    \<and> ads_from_bytes P4 (slice (data_size P1 + data_size P2 + data_size P3) (data_size P4) params) = Some d
    \<and> ads_from_bytes P5 (slice (data_size P1 + data_size P2 + data_size P3 + data_size P4) (data_size P5) params) = Some e
    \<and> length params = data_size P1 + data_size P2 + data_size P3 + data_size P4 + data_size P5"
  using assms(11) image_of [OF assms(1,6)] image_of [OF assms(2,7)] image_of [OF assms(3,8)]
    image_of [OF assms(4,9)] image_of [OF assms(5,10)]
  by (simp add: into_data_5_def)

section \<open>Strings\<close>

lemma trim_end_nul_last: "trim_end_nul s = [] \<or> last (trim_end_nul s) \<noteq> char_of (0 :: nat)"
proof (cases "dropWhile (\<lambda>c. c = char_of (0 :: nat)) (rev s)")
  case (Cons c cs)
  then have "c \<noteq> char_of (0 :: nat)"
    using hd_dropWhile [of "\<lambda>c. c = char_of (0 :: nat)" "rev s"] by simp
  with Cons show ?thesis
    by (simp add: trim_end_nul_def)
qed (simp add: trim_end_nul_def)

lemma string_of_chars_append: "string_of_chars (cs @ ds) = string_of_chars cs @ string_of_chars ds"
  by (simp add: string_of_chars_def of_bytes_def)

lemma string_of_nul: "string_of_chars (replicate n 0) = replicate n (char_of (0 :: nat))"
  by (induction n) (simp_all add: string_of_chars_def of_bytes_def encode_utf8_def)

lemma length_encode_latin1: "length (encode_utf8 (unat (b :: u8))) = (if b < 0x80 then 1 else 2)"
  using unat_u8_bound [of b] by (simp add: encode_utf8_def word_less_nat_alt)

lemma length_string_of_latin1:
  "length (string_of_chars (latin1_chars bs)) = length bs + length (filter (\<lambda>b. \<not> b < 0x80) bs)"
  by (induction bs)
    (simp_all add: string_of_chars_def latin1_chars_def length_encode_latin1)

lemma encode_latin1_not_Nil: "encode_utf8 (unat (b :: u8)) \<noteq> []"
  by (simp add: encode_utf8_def)

lemma last_encode_latin1: "b \<noteq> 0 \<Longrightarrow> last (encode_utf8 (unat (b :: u8))) \<noteq> 0"
proof (cases "b < 0x80")
  case False
  have "unat b mod 64 < 64"
    by simp
  then have "unat (of_nat (0x80 + unat b mod 64) :: u8) = 0x80 + unat b mod 64"
    by (subst unat_of_nat) (simp add: mod_less)
  then have "(of_nat (0x80 + unat b mod 64) :: u8) \<noteq> 0"
    by (metis add_is_0 unsigned_0 zero_neq_numeral)
  then show ?thesis
    using False unat_u8_bound [of b] by (simp add: encode_utf8_def word_less_nat_alt)
qed (simp add: encode_utf8_def word_less_nat_alt)

lemma last_string_of_latin1:
  assumes "b \<noteq> 0"
  shows "last (string_of_chars (latin1_chars (bs @ [b]))) \<noteq> char_of (0 :: nat)"
proof -
  have "last (string_of_chars (latin1_chars (bs @ [b]))) = char_of (unat (last (encode_utf8 (unat b))))"
    by (simp add: string_of_chars_def latin1_chars_def of_bytes_def encode_latin1_not_Nil last_map)
  moreover have "unat (last (encode_utf8 (unat b))) \<noteq> 0"
    using last_encode_latin1 [OF assms] by (simp add: unat_eq_zero)
  ultimately show ?thesis
    using unat_u8_bound [of "last (encode_utf8 (unat b))"] by (metis char_of_eq_iff mod_less of_char_of mod_0)
qed

lemma string16_into_try_from:
  assumes "string16_try_from s = Inr v"
  shows "string16_into v = trim_end_nul
    (string_of_chars (latin1_chars (as_bytes s)) @ replicate (16 - length s) (char_of (0 :: nat)))"
proof -
  have "inner v = as_bytes s @ replicate (16 - length s) 0"
    using assms by (auto simp: string16_try_from_def new_zeroed_def Let_def split: if_splits)
  then show ?thesis
    by (simp add: string16_into_def latin1_chars_def string_of_chars_append string_of_nul)
qed

lemma string16_into_same:
  assumes "string16_try_from s = Inr v" and "s \<noteq> []" and "last s \<noteq> char_of (0 :: nat)"
  shows "string16_into v = string_of_chars (latin1_chars (as_bytes s))"
proof -
  obtain r c where s: "s = r @ [c]"
    using assms(2) by (metis append_butlast_last_id)
  let ?b = "of_nat (of_char c) :: u8"
  have "unat ?b = of_char c"
    by (simp add: unat_byte_of_char)
  moreover have "of_char c \<noteq> (0 :: nat)"
    using assms(3) s by (metis char_of_char last_snoc)
  ultimately have "?b \<noteq> 0"
    by (metis unsigned_0)
  moreover have "as_bytes s = as_bytes r @ [?b]"
    by (simp add: s as_bytes_def)
  ultimately show ?thesis
    using string16_into_try_from [OF assms(1)] last_string_of_latin1 [of ?b "as_bytes r"]
    by (simp add: trim_end_nul_replicate)
qed

text \<open>
  What a \<open>STRING(16)\<close> reads as: its bytes up to the zeros at the end, each as the Latin-1 character
  with its code, in the UTF-8 of a \<open>String\<close>.
\<close>

definition latin1_text :: "u8 \<Rightarrow> string" where
  "latin1_text b =
     (if b < 128 then [char_of (unat b)]
      else [char_of (192 + unat b div 64), char_of (128 + unat b mod 64)])"

definition without_zeros :: "bytes \<Rightarrow> bytes" where
  "without_zeros bs = rev (dropWhile (\<lambda>b. b = 0) (rev bs))"

lemma of_bytes_encode_latin1: "of_bytes (encode_utf8 (unat (b :: u8))) = latin1_text b"
proof (cases "b < 0x80")
  case False
  have "192 + unat b div 64 < 2 ^ LENGTH(8)" "128 + unat b mod 64 < 2 ^ LENGTH(8)"
    using unat_u8_bound [of b] by (simp_all add: less_mult_imp_div_less)
  then have "unat (of_nat (192 + unat b div 64) :: u8) = 192 + unat b div 64"
      "unat (of_nat (128 + unat b mod 64) :: u8) = 128 + unat b mod 64"
    by (simp_all only: unat_of_nat mod_less)
  then show ?thesis
    using False unat_u8_bound [of b]
    by (simp add: encode_utf8_def latin1_text_def of_bytes_def word_less_nat_alt del: of_nat_add)
qed (simp add: encode_utf8_def latin1_text_def of_bytes_def word_less_nat_alt)

lemma string_of_latin1: "string_of_chars (latin1_chars bs) = concat (map latin1_text bs)"
  by (induction bs)
    (simp_all add: string_of_chars_def latin1_chars_def of_bytes_def flip: of_bytes_encode_latin1)

lemma trim_end_nul_append:
  "ys \<noteq> [] \<Longrightarrow> last ys \<noteq> char_of (0 :: nat) \<Longrightarrow> trim_end_nul (xs @ ys) = xs @ ys"
  using trim_end_nul_replicate [of "xs @ ys" 0] by simp

lemma trim_latin1: "trim_end_nul (concat (map latin1_text bs)) = concat (map latin1_text (without_zeros bs))"
proof (induction bs rule: rev_induct)
  case (snoc b bs)
  show ?case
  proof (cases "b = 0")
    case True
    then have "latin1_text b = [char_of (0 :: nat)]"
      by (simp add: latin1_text_def)
    with snoc True show ?thesis
      by (simp add: trim_end_nul_def without_zeros_def)
  next
    case False
    then have "last (latin1_text b) \<noteq> char_of (0 :: nat)" "latin1_text b \<noteq> []"
      using last_string_of_latin1 [of b "[]"] by (simp_all add: string_of_latin1 latin1_text_def)
    with False show ?thesis
      by (simp add: trim_end_nul_append without_zeros_def)
  qed
qed (simp add: trim_end_nul_def without_zeros_def)

lemma string16_into_text: "string16_into v = concat (map latin1_text (without_zeros (inner v)))"
  by (simp add: string16_into_def string_of_latin1 trim_latin1)

lemma without_zeros_replicate: "without_zeros (bs @ replicate n 0) = without_zeros bs"
proof -
  have "dropWhile (\<lambda>b. b = 0) (replicate n 0 @ rev bs) = dropWhile (\<lambda>b. b = 0) (rev bs)"
    by (induction n) simp_all
  then show ?thesis
    by (simp add: without_zeros_def)
qed

lemma string16_into_stored:
  assumes "string16_try_from s = Inr v"
  shows "string16_into v = concat (map latin1_text (without_zeros (as_bytes s)))"
proof -
  have "inner v = as_bytes s @ replicate (16 - length s) 0"
    using assms by (auto simp: string16_try_from_def new_zeroed_def Let_def split: if_splits)
  then show ?thesis
    by (simp add: string16_into_text without_zeros_replicate)
qed

text \<open>
  C32: what the PLC's string type does to a string. Any value reads as its bytes up to the zeros
  at the end, each as a Latin-1 character. A string is refused exactly when it has more than 16
  bytes; of the accepted ones, whose terminator is always in place, the UTF-8 bytes are stored and
  so read back as one character each; hence exactly the ASCII strings that do not end in a NUL
  come back as they were.
\<close>

theorem string16_roundtrip:
  "string16_into w = concat (map latin1_text (without_zeros (inner w)))
   \<and> (if 16 < length s then string16_try_from s = Inl LongerThan16Bytes
      else \<exists>v. string16_try_from s = Inr v \<and> string16_ok v \<and> check_terminator v = Inr ()
        \<and> string16_into v = concat (map latin1_text (without_zeros (as_bytes s)))
        \<and> (string16_into v = s \<longleftrightarrow> ascii s \<and> (s = [] \<or> last s \<noteq> char_of (0 :: nat))))"
proof (cases "16 < length s")
  case False
  then obtain v where v: "string16_try_from s = Inr v" "string16_ok v" "check_terminator v = Inr ()"
    by (auto simp: string16_try_from_def new_zeroed_def string16_ok_def check_terminator_def)
  have "string16_into v = s \<longleftrightarrow> ascii s \<and> (s = [] \<or> last s \<noteq> char_of (0 :: nat))"
  proof (cases "s = [] \<or> last s = char_of (0 :: nat)")
    case True
    have "string16_into v = []" if "s = []"
      using string16_into_try_from [OF v(1)] trim_end_nul_replicate [of "[]"] that
      by (simp add: string_of_chars_def latin1_chars_def as_bytes_def of_bytes_def)
    moreover have "string16_into v = [] \<or> last (string16_into v) \<noteq> char_of (0 :: nat)"
      unfolding string16_into_try_from [OF v(1)] by (rule trim_end_nul_last)
    ultimately show ?thesis
      using True by (cases "s = []") (auto simp: ascii_def as_bytes_def)
  next
    case ends: False
    then have into: "string16_into v = string_of_chars (latin1_chars (as_bytes s))"
      using string16_into_same [OF v(1)] by simp
    show ?thesis
    proof
      assume "string16_into v = s"
      then have "length (filter (\<lambda>b. \<not> b < 0x80) (as_bytes s)) = 0"
        using into length_string_of_latin1 [of "as_bytes s"] by simp
      then show "ascii s \<and> (s = [] \<or> last s \<noteq> char_of (0 :: nat))"
        using ends by (auto simp: ascii_def list_all_iff filter_empty_conv)
    qed (use into in \<open>simp add: ascii_def string_of_latin1_ascii\<close>)
  qed
  with v False string16_into_stored [OF v(1)] show ?thesis
    using string16_into_text [of w] by simp
qed (simp add: string16_try_from_def string16_into_text)

section \<open>Samples\<close>

lemmas data_defs = bool_data_def uint_data_def udint_data_def newtype_data_def

lemma sample_sizes: "data_size bool_data = 1" "data_size uint_data = 2" "data_size udint_data = 4"
  by (simp_all add: data_defs)

lemma sample_params:
  "into_data_5 bool_data uint_data bool_data udint_data bool_data
     (AdsBool 1, AdsUint 300, AdsBool 0, AdsUdint 5, AdsBool 1) = [1, 44, 1, 0, 5, 0, 0, 0, 1]"
  by (simp add: into_data_5_def data_defs to_le_bytes_def)

theorem params_split_witness:
  "ads_from_bytes uint_data (slice 1 2 [1, 44, 1, 0, 5, 0, 0, 0, 1]) = Some (AdsUint 300)
   \<and> ads_from_bytes udint_data (slice 4 4 [1, 44, 1, 0, 5, 0, 0, 0, 1]) = Some (AdsUdint 5)"
  using params_split [OF bool_ads.reads_images uint_ads.reads_images bool_ads.reads_images
      udint_ads.reads_images bool_ads.reads_images _ _ _ _ _ sample_params [symmetric]]
  by (simp add: sample_sizes del: One_nat_def)

theorem string16_roundtrip_witness:
  "\<exists>v. string16_try_from ''MAIN'' = Inr v \<and> string16_into v = ''MAIN''"
proof -
  have "ascii ''MAIN''" "CHR ''N'' \<noteq> char_of (0 :: nat)"
    by (simp_all add: ascii_def as_bytes_def char_of_def)
  with string16_roundtrip [of new_zeroed "''MAIN''"] show ?thesis
    by auto
qed

end
