(* ===== verification/Reader.thy ===== *)
theory Reader
  imports Client
begin

text \<open>
  The reader task (\<open>ClientReceiver\<close> of \<open>src/core/client.rs\<close>): the loop that takes frames off
  the socket, hands replies to the requests that wait for them and notifications to the
  subscribers, and the tear-down when it ends.

  The incoming stream is the list of bytes received until the socket fails, and \<open>ending\<close> is
  the error that a read beyond them gives (\<open>UnexpectedEof\<close> when the peer closed). Every turn of
  the loop takes at least six bytes, so the loop is a total function of the stream. The
  deletions the task spawns for dropped subscribers are returned as the list of their handles;
  they are spawned only while the client still exists, which is not part of this state.
\<close>

section \<open>One frame\<close>

definition socket_read :: "io_error \<Rightarrow> string \<Rightarrow> nat \<Rightarrow> bytes reader" where
  "socket_read ending ctx n inp =
     (if n \<le> length inp then Ok (take n inp, drop n inp) else ctx_io ctx (Inl ending))"

text \<open>
  What the loop reads before it looks at a frame: the packet length of the AMS/TCP header,
  the 38 bytes of both headers, the decoded header and the payload. A packet too short for an
  AMS header is discarded.
\<close>

type_synonym raw_frame = "u32 \<times> bytes \<times> AdsHeader \<times> bytes"

definition read_frame :: "io_error \<Rightarrow> raw_frame option reader" where
  "read_frame ending inp =
     bindR (socket_read ending ''receiving AMS/TCP header'' 6 inp) (\<lambda>(tcp_header, inp).
     let packet_len = from_le_bytes (slice 2 4 tcp_header) :: u32 in
     if packet_len \<le> 31 then
       bindR (socket_read ending ''discarding bad data'' (unat packet_len) inp) (\<lambda>(_, inp).
         Ok (None, inp))
     else
       bindR (socket_read ending ''receiving AMS header'' (ADS_HEADER_SIZE - 6) inp)
         (\<lambda>(ams_header, inp).
       let buf = tcp_header @ ams_header in
       case read_AdsHeader buf of
         None \<Rightarrow> ctx_io ''decoding AMS header'' (Inl (IoSimple InvalidData))
       | Some h \<Rightarrow>
           bindR (socket_read ending ''receiving Ads data payload'' (unat (data_length h)) inp)
             (\<lambda>(payload, inp). Ok (Some (packet_len, buf, h, payload), inp))))"

text \<open>A reply goes to the request that waits for its invoke ID; a late one is ignored.\<close>

definition dispatch_reply :: "AdsHeader \<Rightarrow> bytes \<Rightarrow> Shared \<Rightarrow> Shared" where
  "dispatch_reply h payload sh =
     (let pending = map_of (commands sh) (invoke_id h);
          sh = sh\<lparr>commands := AList.delete (invoke_id h) (commands sh)\<rparr>
      in case pending of
           Some tx \<Rightarrow> send_reply tx (Inr (h, payload)) sh
         | None \<Rightarrow> sh)"

text \<open>
  The samples of a notification go to the channels of their subscribers; a full channel drops
  the sample, a closed one marks the subscriber as dropped.
\<close>

fun deliver_samples :: "Sample list \<Rightarrow> Shared \<Rightarrow> NotificationHandle list \<times> Shared" where
  "deliver_samples [] sh = ([], sh)"
| "deliver_samples (s # ss) sh =
     (case map_of (subscribers sh) (sm_handle s) of
        None \<Rightarrow> deliver_samples ss sh
      | Some subscriber \<Rightarrow>
          (case try_send subscriber (sm_data s) sh of
             (Sent, sh) \<Rightarrow> deliver_samples ss sh
           | (Full, sh) \<Rightarrow> deliver_samples ss sh
           | (Closed, sh) \<Rightarrow>
               (case deliver_samples ss sh of (hs, sh) \<Rightarrow> (sm_handle s # hs, sh))))"

definition deliver_notification :: "bytes \<Rightarrow> (Shared, NotificationHandle list) op" where
  "deliver_notification data sh =
     (case notification_new data of
        Ok notif \<Rightarrow>
          (case all_samples notif of
             Ok ss \<Rightarrow> (case deliver_samples ss sh of (hs, sh) \<Rightarrow> (Ok hs, sh))
           | _ \<Rightarrow> (Panic, sh))
      | Err e \<Rightarrow> (Ok [], sh)
      | Panic \<Rightarrow> (Panic, sh))"

definition handle_frame :: "AmsAddr \<Rightarrow> raw_frame \<Rightarrow> (Shared, NotificationHandle list) op" where
  "handle_frame source frame sh =
     (case frame of (packet_len, buf, h, payload) \<Rightarrow>
      let reserved = from_le_bytes (take 2 buf) :: u16 in
      if reserved = 1 \<or> 4096 \<le> reserved \<and> reserved \<le> 4098 then (Ok [], sh)
      else if reserved \<noteq> 0 then
        (Err (Reply ''interpreting received AMS packet'' ''invalid packet'' (ucast reserved)), sh)
      else if data_length h \<noteq> packet_len - of_nat AMS_HEADER_SIZE then
        (Err (Reply ''interpreting received AMS packet''
           ''AMS/TCP header and AMS header contain inconsistent data'' 0), sh)
      else if (dest_netid h, dest_port h) \<noteq> (netid source, port source) then (Ok [], sh)
      else if command h \<noteq> command_code Command.Notification then
        (Ok [], dispatch_reply h payload sh)
      else if length payload < 4 then (Panic, sh)
      else
        let notif_payload_len = from_le_bytes (take 4 payload) :: u32 in
        if state_flags h \<noteq> 4 \<or> error_code h \<noteq> 0
           \<or> notif_payload_len \<noteq> data_length h - 4 \<or> notif_payload_len < 4
        then (Ok [], sh)
        else deliver_notification (buf @ payload) sh)"

section \<open>The loop\<close>

lemma socket_read_eq_Ok [simp]:
  "socket_read ending ctx n inp = Ok (b, rest) \<longleftrightarrow> inp = b @ rest \<and> length b = n"
  by (auto simp: socket_read_def)

lemma socket_read_not_Panic [simp]: "socket_read ending ctx n inp \<noteq> Panic"
  by (simp add: socket_read_def)

lemma socket_read_append [simp]:
  "length b = n \<Longrightarrow> socket_read ending ctx n (b @ rest) = Ok (b, rest)"
  by simp

lemma read_frame_not_Panic: "read_frame ending inp \<noteq> Panic"
  by (auto simp: read_frame_def bindR_eq_Panic Let_def split: if_splits option.splits)

lemma read_frame_shrinks: "read_frame ending inp = Ok (fr, rest) \<Longrightarrow> length rest < length inp"
  by (auto simp: read_frame_def bindR_eq_Ok Let_def split: if_splits option.splits)

function reader_work ::
  "io_error \<Rightarrow> AmsAddr \<Rightarrow> bytes \<Rightarrow> Shared \<Rightarrow> unit res \<times> NotificationHandle list \<times> Shared" where
  "reader_work ending source inp sh =
     (case read_frame ending inp of
        Err e \<Rightarrow> (Err e, [], sh)
      | Panic \<Rightarrow> (Panic, [], sh)
      | Ok (None, inp) \<Rightarrow> reader_work ending source inp sh
      | Ok (Some frame, inp) \<Rightarrow>
          (case handle_frame source frame sh of
             (Err e, sh) \<Rightarrow> (Err e, [], sh)
           | (Panic, sh) \<Rightarrow> (Panic, [], sh)
           | (Ok dropped, sh) \<Rightarrow>
               (case reader_work ending source inp sh of
                  (r, hs, sh) \<Rightarrow> (r, dropped @ hs, sh))))"
  by pat_completeness auto
termination
  by (relation "measure (\<lambda>(_, _, inp, _). length inp)") (auto dest: read_frame_shrinks)

declare reader_work.simps [simp del]

text \<open>
  Every run of the loop is a sequence of handled frames that ends in a read error, in a frame
  the loop refuses, or in a panic.
\<close>

lemma reader_work_rule [case_names ended stop step]:
  assumes ended: "\<And>sh r. r \<noteq> Ok () \<Longrightarrow> P sh (r, [], sh)"
    and stop: "\<And>frame sh r sh' r'. handle_frame source frame sh = (r, sh') \<Longrightarrow> \<not> is_ok r
      \<Longrightarrow> r' \<noteq> Ok () \<Longrightarrow> P sh (r', [], sh')"
    and step: "\<And>frame sh dropped sh' r hs sh''. handle_frame source frame sh = (Ok dropped, sh')
      \<Longrightarrow> P sh' (r, hs, sh'') \<Longrightarrow> P sh (r, dropped @ hs, sh'')"
  shows "P sh (reader_work ending source inp sh)"
proof (induction inp arbitrary: sh rule: length_induct)
  case (1 inp)
  note unfold = reader_work.simps [of ending source inp sh]
  show ?case
  proof (cases "read_frame ending inp")
    case (Ok fr)
    then consider inp' where "read_frame ending inp = Ok (None, inp')"
      | frame inp' where "read_frame ending inp = Ok (Some frame, inp')"
      by (cases fr, cases "fst fr") auto
    then show ?thesis
    proof cases
      case (2 frame inp')
      obtain r sh' where handle: "handle_frame source frame sh = (r, sh')"
        by fastforce
      have "P sh' (reader_work ending source inp' sh')"
        using 1 read_frame_shrinks [OF 2] by blast
      then show ?thesis
        using 2 handle stop [OF handle] step [of frame sh _ sh']
        by (cases r; cases "reader_work ending source inp' sh'") (simp_all add: unfold)
    qed (use 1 read_frame_shrinks in \<open>simp add: unfold\<close>)
  qed (simp_all add: unfold ended)
qed

text \<open>
  The spawned task of \<open>ClientReceiver::start\<close>: the loop, then the tear-down with the reason it
  ended. A panic of the loop ends the task without it.
\<close>

definition reader_task ::
  "io_error \<Rightarrow> AmsAddr \<Rightarrow> bytes \<Rightarrow> Shared \<Rightarrow> NotificationHandle list \<times> Shared" where
  "reader_task ending source inp sh =
     (case reader_work ending source inp sh of
        (Ok _, hs, sh) \<Rightarrow> (hs, tear_down Disconnected sh)
      | (Err error, hs, sh) \<Rightarrow> (hs, tear_down error sh)
      | (Panic, hs, sh) \<Rightarrow> (hs, sh))"


section \<open>Frames on the wire\<close>

type_synonym frame = "AdsHeader \<times> bytes"

fun frame_bytes :: "frame \<Rightarrow> bytes" where
  "frame_bytes (h, payload) = as_bytes_AdsHeader h @ payload"

text \<open>Both length fields agree with the payload.\<close>

fun wf_frame :: "frame \<Rightarrow> bool" where
  "wf_frame (h, payload) \<longleftrightarrow>
     unat (data_length h) = length payload \<and> unat (hdr_length h) = 32 + length payload"

fun for_us :: "AmsAddr \<Rightarrow> frame \<Rightarrow> bool" where
  "for_us source (h, payload) \<longleftrightarrow>
     ams_cmd h = 0 \<and> (dest_netid h, dest_port h) = (netid source, port source)"

text \<open>A frame the loop goes on after: a known AMS command, and no short notification.\<close>

fun harmless :: "AmsAddr \<Rightarrow> frame \<Rightarrow> bool" where
  "harmless source (h, payload) \<longleftrightarrow>
     (ams_cmd h = 0 \<or> ams_cmd h = 1 \<or> 4096 \<le> ams_cmd h \<and> ams_cmd h \<le> 4098)
     \<and> (for_us source (h, payload) \<and> command h = command_code Command.Notification
         \<longrightarrow> 4 \<le> length payload)"

fun answers :: "AmsAddr \<Rightarrow> u32 \<Rightarrow> frame \<Rightarrow> bool" where
  "answers source i (h, payload) \<longleftrightarrow>
     for_us source (h, payload) \<and> command h \<noteq> command_code Command.Notification \<and> invoke_id h = i"

fun raw :: "frame \<Rightarrow> raw_frame" where
  "raw (h, payload) = (hdr_length h, as_bytes_AdsHeader h, h, payload)"

lemma slice_take: "i + n \<le> k \<Longrightarrow> slice i n (take k bs) = slice i n bs"
  by (simp add: slice_def drop_take)

lemma header_fields:
  "slice 2 4 (as_bytes_AdsHeader h) = to_le_bytes (hdr_length h)"
  "take 2 (as_bytes_AdsHeader h) = to_le_bytes (ams_cmd h)"
  by (simp_all add: as_bytes_AdsHeader_def wire_simps)

lemma read_frame_parts:
  assumes "length a = 6" and "length b = 32" and "from_le_bytes (slice 2 4 a) = packet_len"
    and "\<not> packet_len \<le> 31" and "read_AdsHeader (a @ b) = Some h"
    and "length p = unat (data_length h)"
  shows "read_frame ending (a @ b @ p @ rest) = Ok (Some (packet_len, a @ b, h, p), rest)"
  using assms by (simp add: read_frame_def header_sizes socket_read_def)

text \<open>A frame whose bytes are all there, whatever its first length field says beyond that.\<close>

fun complete :: "frame \<Rightarrow> bool" where
  "complete (h, payload) \<longleftrightarrow> unat (data_length h) = length payload \<and> \<not> hdr_length h \<le> 31"

lemma wf_frame_complete: "wf_frame f \<Longrightarrow> complete f"
  by (cases f) (simp add: word_le_nat_alt)

lemma read_frame_complete:
  assumes "complete f"
  shows "read_frame ending (frame_bytes f @ rest) = Ok (Some (raw f), rest)"
proof -
  obtain h p where f: "f = (h, p)"
    by (cases f)
  let ?a = "take 6 (as_bytes_AdsHeader h)" and ?b = "drop 6 (as_bytes_AdsHeader h)"
  have "from_le_bytes (slice 2 4 ?a) = hdr_length h"
    by (simp add: slice_take header_fields wire_simps)
  moreover have "\<not> hdr_length h \<le> 31" and "length p = unat (data_length h)"
    using assms by (simp_all add: f)
  moreover have "length ?a = 6" "length ?b = 32"
    by (simp_all add: header_sizes)
  moreover have "read_AdsHeader (?a @ ?b) = Some h"
    by (simp add: read_as_bytes_AdsHeader)
  ultimately have "read_frame ending (?a @ ?b @ p @ rest)
      = Ok (Some (hdr_length h, ?a @ ?b, h, p), rest)"
    by (intro read_frame_parts)
  moreover have "?a @ ?b @ p @ rest = (?a @ ?b) @ p @ rest"
    by (rule append.assoc [symmetric])
  ultimately show ?thesis
    by (simp only: f frame_bytes.simps raw.simps append_take_drop_id append.assoc)
qed

lemma read_frame_bytes:
  "wf_frame f \<Longrightarrow> read_frame ending (frame_bytes f @ rest) = Ok (Some (raw f), rest)"
  by (rule read_frame_complete [OF wf_frame_complete])

lemma wf_frame_consistent: "wf_frame (h, p) \<Longrightarrow> data_length h = hdr_length h - 32"
proof -
  assume wf: "wf_frame (h, p)"
  then have "(32 :: u32) \<le> hdr_length h"
    by (simp add: word_le_nat_alt)
  then have "unat (hdr_length h - 32) = unat (data_length h)"
    using wf by (simp add: unat_sub)
  then show ?thesis
    by (simp add: word_unat_eq_iff)
qed

lemma handle_frame_raw:
  assumes "wf_frame (h, p)" and "harmless source (h, p)"
  shows "handle_frame source (raw (h, p)) sh =
    (if \<not> for_us source (h, p) then (Ok [], sh)
     else if command h \<noteq> command_code Command.Notification then (Ok [], dispatch_reply h p sh)
     else if state_flags h \<noteq> 4 \<or> error_code h \<noteq> 0
        \<or> (from_le_bytes (take 4 p) :: u32) \<noteq> data_length h - 4
        \<or> (from_le_bytes (take 4 p) :: u32) < 4 then (Ok [], sh)
     else deliver_notification (frame_bytes (h, p)) sh)"
proof -
  have cmd: "from_le_bytes (take 2 (as_bytes_AdsHeader h)) = ams_cmd h"
    by (simp add: header_fields wire_simps)
  have len: "data_length h = hdr_length h - of_nat AMS_HEADER_SIZE"
    using wf_frame_consistent [OF assms(1)] by (simp add: AMS_HEADER_SIZE_def)
  show ?thesis
    using assms(2) len by (auto simp: handle_frame_def cmd Let_def)
qed


text \<open>The frames the loop goes on after: those of a reserved AMS command it skips unseen.\<close>

definition skipped :: "AdsHeader \<Rightarrow> bool" where
  "skipped h \<longleftrightarrow> ams_cmd h = 1 \<or> 4096 \<le> ams_cmd h \<and> ams_cmd h \<le> 4098"

fun passing :: "AmsAddr \<Rightarrow> frame \<Rightarrow> bool" where
  "passing source (h, p) \<longleftrightarrow>
     complete (h, p) \<and> (skipped h \<or> wf_frame (h, p) \<and> harmless source (h, p))"

lemma passingI: "wf_frame f \<and> harmless source f \<Longrightarrow> passing source f"
  using wf_frame_complete by (cases f) auto

lemma skipped_not_zero: "skipped h \<Longrightarrow> ams_cmd h \<noteq> 0"
  by (auto simp: skipped_def word_le_nat_alt)

lemma handle_frame_skipped: "skipped h \<Longrightarrow> handle_frame source (raw (h, p)) sh = (Ok [], sh)"
  by (simp add: handle_frame_def skipped_def header_fields wire_simps Let_def)

section \<open>Streams of frames\<close>

fun process_frames :: "AmsAddr \<Rightarrow> frame list \<Rightarrow> (Shared, NotificationHandle list) op" where
  "process_frames source [] sh = (Ok [], sh)"
| "process_frames source (f # fs) sh =
     bindS (handle_frame source (raw f)) (\<lambda>hs.
     bindS (process_frames source fs) (\<lambda>hs'. returnS (Ok (hs @ hs')))) sh"

lemma reader_work_complete:
  assumes "list_all complete fs" and "process_frames source fs sh = (Ok hs, sh')"
  shows "reader_work ending source (concat (map frame_bytes fs) @ rest) sh =
    (case reader_work ending source rest sh' of (r, hs', sh'') \<Rightarrow> (r, hs @ hs', sh''))"
  using assms
proof (induction fs arbitrary: sh hs)
  case (Cons f fs)
  then obtain hs1 sh1 hs2 where step: "handle_frame source (raw f) sh = (Ok hs1, sh1)"
      "process_frames source fs sh1 = (Ok hs2, sh')" "hs = hs1 @ hs2"
    by (auto simp: bindS_def split: prod.splits res.splits)
  have "read_frame ending (concat (map frame_bytes (f # fs)) @ rest)
      = Ok (Some (raw f), concat (map frame_bytes fs) @ rest)"
    using Cons.prems read_frame_complete by simp
  then show ?case
    using Cons step
    by (subst reader_work.simps) (auto split: prod.split)
qed (auto split: prod.split)

lemma reader_work_frames:
  "list_all wf_frame fs \<Longrightarrow> process_frames source fs sh = (Ok hs, sh') \<Longrightarrow>
     reader_work ending source (concat (map frame_bytes fs) @ rest) sh =
    (case reader_work ending source rest sh' of (r, hs', sh'') \<Rightarrow> (r, hs @ hs', sh''))"
  by (rule reader_work_complete) (auto simp: list_all_iff wf_frame_complete)

text \<open>Nothing the reader does to a frame makes it stop when the frame is harmless.\<close>

lemma accepted_samples:
  assumes "notification_new data = Ok n"
  shows "\<exists>ss. all_samples n = Ok ss"
  using assms by (auto simp: notification_new_iff all_samples_message)

lemma notification_new_not_Panic [simp]: "notification_new data \<noteq> Panic"
  by (auto simp: notification_new_def bindR_eq_Panic read_n_not_Panic skip_stamp_not_Panic)

lemma deliver_notification_cases:
  "\<exists>ss hs sh'. deliver_samples ss sh = (hs, sh') \<and> deliver_notification data sh = (Ok hs, sh')"
proof (cases "notification_new data")
  case (Ok n)
  then obtain ss where "all_samples n = Ok ss"
    using accepted_samples by blast
  with Ok show ?thesis
    by (cases "deliver_samples ss sh") (auto simp: deliver_notification_def)
next
  case (Err e)
  then have "deliver_samples [] sh = ([], sh) \<and> deliver_notification data sh = (Ok [], sh)"
    by (simp add: deliver_notification_def)
  then show ?thesis
    by blast
qed simp

lemma handle_frame_harmless:
  assumes "passing source f"
  shows "\<exists>hs sh'. handle_frame source (raw f) sh = (Ok hs, sh')
    \<and> (if answers source (invoke_id (fst f)) f then sh' = dispatch_reply (fst f) (snd f) sh
       else \<exists>ss. deliver_samples ss sh = (hs, sh'))"
proof -
  obtain h p where f: "f = (h, p)"
    by (cases f)
  show ?thesis
  proof (cases "skipped h")
    case True
    then have "\<not> answers source i (h, p)" for i
      using skipped_not_zero by simp
    then show ?thesis
      unfolding f handle_frame_skipped [OF True] fst_conv by (auto intro: exI [of _ "[]"])
  next
    case False
    then have fr: "wf_frame (h, p)" "harmless source (h, p)"
      using assms by (simp_all add: f)
    note handle = handle_frame_raw [OF fr, of sh]
    show ?thesis
    proof (cases "answers source (invoke_id h) (h, p)")
      case True
      then have "handle_frame source (raw f) sh = (Ok [], dispatch_reply h p sh)"
        using handle by (simp add: f)
      with True show ?thesis
        by (simp add: f)
    next
      case False
      then have "handle_frame source (raw f) sh
          \<in> {(Ok [], sh), deliver_notification (frame_bytes f) sh}"
        using handle by (simp add: f)
      moreover have "deliver_samples [] sh = ([], sh)"
        by simp
      ultimately have "\<exists>ss hs sh'. handle_frame source (raw f) sh = (Ok hs, sh')
          \<and> deliver_samples ss sh = (hs, sh')"
        using deliver_notification_cases [of sh "frame_bytes f"] by (metis empty_iff insert_iff)
      with False show ?thesis
        unfolding f by auto
    qed
  qed
qed

lemma process_frames_harmless:
  assumes "list_all (passing source) fs"
  shows "\<exists>hs sh'. process_frames source fs sh = (Ok hs, sh')"
  using assms
proof (induction fs arbitrary: sh)
  case (Cons f fs)
  then obtain hs sh1 where "handle_frame source (raw f) sh = (Ok hs, sh1)"
    using handle_frame_harmless [of source f sh] by auto
  moreover obtain hs' sh2 where "process_frames source fs sh1 = (Ok hs', sh2)"
    using Cons.IH [of sh1] Cons.prems by auto
  ultimately show ?case
    by (simp add: bindS_def)
qed simp

section \<open>What the reader keeps\<close>

text \<open>
  The contract between the reader and the shared state: whatever taking a request off the map,
  answering it and filling a channel keep, the whole loop keeps.
\<close>

locale reader_invariant =
  fixes I :: "Shared \<Rightarrow> bool"
  assumes keeps_take: "I sh \<Longrightarrow> I (sh\<lparr>commands := AList.delete i (commands sh)\<rparr>)"
    and keeps_send: "I sh \<Longrightarrow> I (send_reply tx r sh)"
    and keeps_try_send: "I sh \<Longrightarrow> I (snd (try_send ch msg sh))"
begin

lemma keeps_dispatch: "I sh \<Longrightarrow> I (dispatch_reply h p sh)"
  by (auto simp: dispatch_reply_def Let_def keeps_take keeps_send split: option.split)

lemma keeps_samples: "I sh \<Longrightarrow> I (snd (deliver_samples ss sh))"
proof (induction ss arbitrary: sh)
  case (Cons s ss)
  show ?case
  proof (cases "map_of (subscribers sh) (sm_handle s)")
    case (Some ch)
    obtain r sh' where sent: "try_send ch (sm_data s) sh = (r, sh')"
      by fastforce
    with Cons.prems have "I sh'"
      using keeps_try_send [of sh ch "sm_data s"] by simp
    then have "I (snd (deliver_samples ss sh'))"
      by (rule Cons.IH)
    with Some sent show ?thesis
      by (cases r) (auto split: prod.split)
  qed (use Cons in simp)
qed simp

lemma keeps_notification: "keeps I (deliver_notification data)"
  unfolding keeps_def
proof (intro allI impI)
  fix sh
  assume "I sh"
  then show "I (snd (deliver_notification data sh))"
    using deliver_notification_cases [of sh data] keeps_samples [of sh] by (metis snd_conv)
qed

lemma keeps_frame: "keeps I (handle_frame source frame)"
  using keeps_dispatch keeps_notification
  by (auto simp: keeps_def handle_frame_def Let_def split: prod.splits)

lemma keeps_work: "I sh \<longrightarrow> I (snd (snd (reader_work ending source inp sh)))"
proof (rule reader_work_rule [where P = "\<lambda>sh out. I sh \<longrightarrow> I (snd (snd out))"])
  fix frame sh r sh' and r' :: "unit res"
  assume "handle_frame source frame sh = (r, sh')"
  then show "I sh \<longrightarrow> I (snd (snd (r', [] :: NotificationHandle list, sh')))"
    using keepsD [OF keeps_frame, of sh source frame] by simp
next
  fix frame sh dropped sh' and r :: "unit res"
    and hs :: "NotificationHandle list" and sh''
  assume "handle_frame source frame sh = (Ok dropped, sh')"
    and "I sh' \<longrightarrow> I (snd (snd (r, hs, sh'')))"
  then show "I sh \<longrightarrow> I (snd (snd (r, dropped @ hs, sh'')))"
    using keepsD [OF keeps_frame, of sh source frame] by simp
qed simp

end


interpretation reader_shared: reader_invariant shared_ok
proof unfold_locales
  show "shared_ok sh \<Longrightarrow> shared_ok (sh\<lparr>commands := AList.delete i (commands sh)\<rparr>)" for sh i
    using shared_ok_drop_pending [of sh i] by (simp add: drop_pending_def)
qed (rule shared_ok_send_reply shared_ok_try_send; assumption)+

text \<open>No subscriber's queue ever holds more than the channel's capacity.\<close>

definition queues_bounded :: "Shared \<Rightarrow> bool" where
  "queues_bounded sh \<longleftrightarrow> (\<forall>ch. length (queue (channels sh ch)) \<le> CHANNEL_CAPACITY)"

interpretation reader_queues: reader_invariant queues_bounded
  by unfold_locales (auto simp: queues_bounded_def send_reply_def try_send_def Let_def)

text \<open>The loop itself neither closes the connection nor changes the subscribers.\<close>

interpretation reader_frame: reader_invariant "\<lambda>sh. subscribers sh = subs \<and> closed sh = c"
  by unfold_locales (auto simp: send_reply_def try_send_def Let_def)

text \<open>
  Only a subscriber map entry with an open channel can take a sample, and taking samples
  touches nothing but the queues.
\<close>

interpretation reader_receivers:
  reader_invariant "\<lambda>sh. (\<lambda>ch. receiver_open (channels sh ch)) = opened"
  by unfold_locales (auto simp: send_reply_def try_send_def Let_def fun_eq_iff)

lemma try_send_fields:
  "commands (snd (try_send ch msg sh)) = commands sh"
  "replies (snd (try_send ch msg sh)) = replies sh"
  "closed (snd (try_send ch msg sh)) = closed sh"
  "subscribers (snd (try_send ch msg sh)) = subscribers sh"
  by (simp_all add: try_send_def Let_def)

lemma deliver_samples_fields:
  "commands (snd (deliver_samples ss sh)) = commands sh
   \<and> replies (snd (deliver_samples ss sh)) = replies sh
   \<and> closed (snd (deliver_samples ss sh)) = closed sh
   \<and> subscribers (snd (deliver_samples ss sh)) = subscribers sh"
proof (induction ss arbitrary: sh)
  case (Cons s ss)
  show ?case
  proof (cases "map_of (subscribers sh) (sm_handle s)")
    case (Some ch)
    obtain r sh' where sent: "try_send ch (sm_data s) sh = (r, sh')"
      by fastforce
    then show ?thesis
      using Some Cons.IH [of sh'] try_send_fields [of ch "sm_data s" sh]
      by (cases r) (simp_all add: case_prod_beta)
  qed (use Cons in simp)
qed simp

section \<open>Every waiting request gets its outcome\<close>

lemma map_of_delete_other: "j \<noteq> i \<Longrightarrow> map_of (AList.delete i xs) j = map_of xs j"
  by (simp add: AList.delete_conv)

lemma delete_distinct_values:
  "distinct (map snd xs) \<Longrightarrow> distinct (map snd (AList.delete i xs))"
  by (induction xs) (auto simp: AList.delete_eq)

text \<open>The requests a run may answer: distinct invoke IDs on distinct channels.\<close>

definition waiting :: "Shared \<Rightarrow> bool" where
  "waiting sh \<longleftrightarrow> distinct (map fst (commands sh)) \<and> distinct (map snd (commands sh))"

lemma set_delete_iff:
  "(j, v) \<in> set (AList.delete i xs) \<longleftrightarrow> (j, v) \<in> set xs \<and> j \<noteq> i"
  by (auto simp: AList.delete_eq)

lemma dispatch_reply_cases:
  assumes "waiting sh"
  shows "waiting (dispatch_reply h p sh)"
    and "(j, tx) \<in> set (commands (dispatch_reply h p sh))
      \<longleftrightarrow> (j, tx) \<in> set (commands sh) \<and> j \<noteq> invoke_id h"
    and "(invoke_id h, tx) \<in> set (commands sh)
      \<Longrightarrow> replies (dispatch_reply h p sh) tx = Some (Inr (h, p))"
    and "(invoke_id h, tx) \<notin> set (commands sh)
      \<Longrightarrow> replies (dispatch_reply h p sh) tx = replies sh tx"
    and "closed (dispatch_reply h p sh) = closed sh"
proof -
  have m: "map_of (commands sh) (invoke_id h) = Some tx'
      \<longleftrightarrow> (invoke_id h, tx') \<in> set (commands sh)" for tx'
    using assms by (simp add: waiting_def)
  show "waiting (dispatch_reply h p sh)"
    using assms
    by (auto simp: waiting_def dispatch_reply_def Let_def send_reply_def distinct_delete
        delete_distinct_values split: option.split)
  show "(j, tx) \<in> set (commands (dispatch_reply h p sh))
      \<longleftrightarrow> (j, tx) \<in> set (commands sh) \<and> j \<noteq> invoke_id h"
    by (auto simp: dispatch_reply_def Let_def send_reply_def set_delete_iff split: option.split)
  show "(invoke_id h, tx) \<in> set (commands sh)
      \<Longrightarrow> replies (dispatch_reply h p sh) tx = Some (Inr (h, p))"
    using m [of tx] by (auto simp: dispatch_reply_def Let_def send_reply_def)
  show "(invoke_id h, tx) \<notin> set (commands sh)
      \<Longrightarrow> replies (dispatch_reply h p sh) tx = replies sh tx"
    using m [of tx] by (auto simp: dispatch_reply_def Let_def send_reply_def split: option.split)
  show "closed (dispatch_reply h p sh) = closed sh"
    by (auto simp: dispatch_reply_def Let_def send_reply_def split: option.split)
qed

lemma answers_iff:
  "answers source i f \<longleftrightarrow>
     answers source (invoke_id (fst f)) f \<and> invoke_id (fst f) = i"
  by (cases f) auto

text \<open>
  A channel that is no longer in the map keeps what it received; one that is there receives
  the first frame that answers its request, and stays in the map when there is none.
\<close>

definition unanswered :: "Shared \<Rightarrow> Shared \<Rightarrow> u32 \<Rightarrow> nat \<Rightarrow> bool" where
  "unanswered sh sh' i tx \<longleftrightarrow>
     replies sh' tx = replies sh tx \<and> (i, tx) \<in> set (commands sh')"

definition settled :: "Shared \<Rightarrow> reply option \<Rightarrow> nat \<Rightarrow> bool" where
  "settled sh r tx \<longleftrightarrow> replies sh tx = r \<and> tx \<notin> snd ` set (commands sh)"

lemma dispatch_reply_channel:
  assumes w: "waiting sh" and sh1: "sh1 = dispatch_reply h p sh"
  shows "tx \<notin> snd ` set (commands sh) \<Longrightarrow> settled sh1 (replies sh tx) tx"
    and "(i, tx) \<in> set (commands sh) \<Longrightarrow>
      if invoke_id h = i then settled sh1 (Some (Inr (h, p))) tx else unanswered sh sh1 i tx"
proof -
  note d = dispatch_reply_cases [OF w, where h = h and p = p, folded sh1]
  have ids: "(i, tx) \<in> set (commands sh) \<Longrightarrow> (j, tx) \<in> set (commands sh) \<Longrightarrow> i = j" for i j
    using w unfolding waiting_def by (metis distinct_map inj_onD prod.inject snd_conv)
  show "tx \<notin> snd ` set (commands sh) \<Longrightarrow> settled sh1 (replies sh tx) tx"
    using d(2) [of _ tx] d(4) [of tx] by (force simp: settled_def image_iff)
  show "(i, tx) \<in> set (commands sh) \<Longrightarrow>
      if invoke_id h = i then settled sh1 (Some (Inr (h, p))) tx else unanswered sh sh1 i tx"
    using d(2) [of _ tx] d(3) [of tx] d(4) [of tx] ids
    by (fastforce simp: settled_def unanswered_def image_iff)
qed

lemma handle_frame_channel:
  assumes "passing source f" and "waiting sh"
  obtains hs sh1 where "handle_frame source (raw f) sh = (Ok hs, sh1)"
    and "waiting sh1" and "closed sh1 = closed sh"
    and "\<And>tx. tx \<notin> snd ` set (commands sh) \<Longrightarrow> settled sh1 (replies sh tx) tx"
    and "\<And>i tx. (i, tx) \<in> set (commands sh) \<Longrightarrow>
      if answers source i f then settled sh1 (Some (Inr f)) tx else unanswered sh sh1 i tx"
proof -
  from handle_frame_harmless [OF assms(1), of sh] obtain hs sh1
    where step: "handle_frame source (raw f) sh = (Ok hs, sh1)"
      and out: "if answers source (invoke_id (fst f)) f
         then sh1 = dispatch_reply (fst f) (snd f) sh
         else \<exists>ss. deliver_samples ss sh = (hs, sh1)"
    by blast
  show ?thesis
  proof (cases "answers source (invoke_id (fst f)) f")
    case True
    then have sh1: "sh1 = dispatch_reply (fst f) (snd f) sh"
      using out by simp
    have ans: "answers source i f \<longleftrightarrow> invoke_id (fst f) = i" for i
      by (subst answers_iff) (simp add: True)
    show ?thesis
    proof (rule that [OF step])
      show "waiting sh1" "closed sh1 = closed sh"
        unfolding sh1 by (rule dispatch_reply_cases [OF assms(2)])+
      show "settled sh1 (replies sh tx) tx" if "tx \<notin> snd ` set (commands sh)" for tx
        by (rule dispatch_reply_channel(1) [OF assms(2) sh1 that])
      show "if answers source i f then settled sh1 (Some (Inr f)) tx else unanswered sh sh1 i tx"
        if "(i, tx) \<in> set (commands sh)" for i tx
        using dispatch_reply_channel(2) [OF assms(2) sh1 that, unfolded prod.collapse] ans
        by (simp split: if_splits)
    qed
  next
    case False
    then obtain ss where "deliver_samples ss sh = (hs, sh1)"
      using out by auto
    then have same: "commands sh1 = commands sh" "replies sh1 = replies sh" "closed sh1 = closed sh"
      using deliver_samples_fields [of ss sh] by simp_all
    have "\<not> answers source i f" for i
      by (subst answers_iff) (simp add: False)
    then show ?thesis
      using assms(2) same
      by (intro that [OF step]) (simp_all add: waiting_def settled_def unanswered_def)
  qed
qed

lemma process_frames_channel:
  assumes "list_all (passing source) fs" and "waiting sh"
    and "process_frames source fs sh = (Ok hs, sh')"
  shows "closed sh' = closed sh
    \<and> (tx \<notin> snd ` set (commands sh) \<longrightarrow> settled sh' (replies sh tx) tx)
    \<and> ((i, tx) \<in> set (commands sh) \<longrightarrow>
      (case find (answers source i) fs of
         Some f \<Rightarrow> settled sh' (Some (Inr f)) tx
       | None \<Rightarrow> unanswered sh sh' i tx))"
  using assms
proof (induction fs arbitrary: sh hs)
  case (Cons f fs)
  then obtain hs1 sh1 where step: "handle_frame source (raw f) sh = (Ok hs1, sh1)"
    and w: "waiting sh1" and c: "closed sh1 = closed sh"
    and old: "tx \<notin> snd ` set (commands sh) \<Longrightarrow> settled sh1 (replies sh tx) tx"
    and new: "(i, tx) \<in> set (commands sh) \<Longrightarrow>
      if answers source i f then settled sh1 (Some (Inr f)) tx else unanswered sh sh1 i tx"
    by (auto elim!: handle_frame_channel [of source f sh])
  obtain hs2 where "process_frames source fs sh1 = (Ok hs2, sh')"
    using Cons.prems(3) step by (auto simp: bindS_def split: prod.splits res.splits)
  then have ih: "closed sh' = closed sh1"
      "tx \<notin> snd ` set (commands sh1) \<longrightarrow> settled sh' (replies sh1 tx) tx"
      "(i, tx) \<in> set (commands sh1) \<longrightarrow>
        (case find (answers source i) fs of
           Some f \<Rightarrow> settled sh' (Some (Inr f)) tx
         | None \<Rightarrow> unanswered sh1 sh' i tx)"
    using Cons.IH [of sh1 hs2] Cons.prems(1) w by simp_all
  have "settled sh' r tx" if "settled sh1 r tx" for r
    using that ih(2) by (simp add: settled_def)
  moreover have "case find (answers source i) fs of
      Some f \<Rightarrow> settled sh' (Some (Inr f)) tx
    | None \<Rightarrow> unanswered sh sh' i tx" if "unanswered sh sh1 i tx"
    using that ih(3) by (cases "find (answers source i) fs") (auto simp: unanswered_def)
  ultimately show ?case
    using ih(1) c old new by (simp split: if_splits)
qed (simp add: settled_def unanswered_def)

text \<open>
  What a stream is made of: whole frames, and packets too short for an AMS header, given by their
  reserved field, their length and their data, which the loop discards.
\<close>

datatype packet = Whole frame | Short u16 u32 bytes

primrec packet_bytes :: "packet \<Rightarrow> bytes" where
  "packet_bytes (Whole f) = frame_bytes f"
| "packet_bytes (Short reserved n data) = to_le_bytes reserved @ to_le_bytes n @ data"

primrec passes :: "AmsAddr \<Rightarrow> packet \<Rightarrow> bool" where
  "passes source (Whole f) \<longleftrightarrow> passing source f"
| "passes source (Short reserved n data) \<longleftrightarrow> n \<le> 31 \<and> length data = unat n"

fun frames_of :: "packet list \<Rightarrow> frame list" where
  "frames_of [] = []"
| "frames_of (Whole f # ps) = f # frames_of ps"
| "frames_of (Short reserved n data # ps) = frames_of ps"

text \<open>
  How the loop ends: in the middle of a packet with the error of the socket, at a frame it
  refuses with an error of its own, or at a notification for us without its length field,
  which makes it panic (no reason then).
\<close>

inductive stops :: "io_error \<Rightarrow> AmsAddr \<Rightarrow> bytes \<Rightarrow> error option \<Rightarrow> bool" for ending source where
  cut: "read_frame ending rest = Err e \<Longrightarrow> stops ending source rest (Some e)"
| unknown: "complete (h, p) \<Longrightarrow> \<not> skipped h \<Longrightarrow> ams_cmd h \<noteq> 0 \<Longrightarrow>
    stops ending source (frame_bytes (h, p) @ following)
      (Some (Reply ''interpreting received AMS packet'' ''invalid packet'' (ucast (ams_cmd h))))"
| inconsistent: "complete (h, p) \<Longrightarrow> ams_cmd h = 0 \<Longrightarrow> \<not> wf_frame (h, p) \<Longrightarrow>
    stops ending source (frame_bytes (h, p) @ following)
      (Some (Reply ''interpreting received AMS packet''
         ''AMS/TCP header and AMS header contain inconsistent data'' 0))"
| too_short: "wf_frame (h, p) \<Longrightarrow> for_us source (h, p) \<Longrightarrow> command h = command_code Command.Notification \<Longrightarrow>
    length p < 4 \<Longrightarrow> stops ending source (frame_bytes (h, p) @ following) None"

lemma read_frame_short:
  "n \<le> 31 \<Longrightarrow> length data = unat n \<Longrightarrow>
     read_frame ending (packet_bytes (Short reserved n data) @ rest) = Ok (None, rest)"
  by (simp add: read_frame_def socket_read_def slice_def length_to_le_bytes from_to_le_bytes Let_def)

lemma read_frame_whole:
  assumes "read_frame ending inp = Ok (Some fr, rest)"
  shows "\<exists>f. complete f \<and> fr = raw f \<and> inp = frame_bytes f @ rest"
proof -
  obtain tcp ams h p where parts: "inp = tcp @ ams @ p @ rest" "length tcp = 6" "length ams = 32"
      "read_AdsHeader (tcp @ ams) = Some h" "length p = unat (data_length h)"
      "fr = (from_le_bytes (slice 2 4 tcp), tcp @ ams, h, p)" "\<not> (from_le_bytes (slice 2 4 tcp) :: u32) \<le> 31"
    using assms by (auto simp: read_frame_def Let_def bindR_eq_Ok header_sizes split: option.splits if_splits)
  have bytes: "tcp @ ams = as_bytes_AdsHeader h"
    using parts(4) by (simp add: header.read_eq_Some)
  then have "tcp = take 6 (as_bytes_AdsHeader h)"
    using parts(2) by (metis append_eq_conv_conj)
  then have "from_le_bytes (slice 2 4 tcp) = hdr_length h"
    by (simp add: slice_take header_fields wire_simps)
  then have "fr = raw (h, p)" "complete (h, p)"
    using parts(5-7) bytes by simp_all
  moreover have "inp = frame_bytes (h, p) @ rest"
    using parts(1) by (simp flip: bytes)
  ultimately show ?thesis by blast
qed

lemma read_frame_discards:
  assumes "read_frame ending inp = Ok (None, rest)"
  shows "\<exists>reserved n data. n \<le> 31 \<and> length data = unat n \<and> inp = packet_bytes (Short reserved n data) @ rest"
proof -
  obtain tcp data where parts: "inp = tcp @ data @ rest" "length tcp = 6"
      "(from_le_bytes (slice 2 4 tcp) :: u32) \<le> 31" "length data = unat (from_le_bytes (slice 2 4 tcp) :: u32)"
    using assms by (auto simp: read_frame_def Let_def bindR_eq_Ok split: option.splits if_splits)
  have "tcp = to_le_bytes (from_le_bytes (take 2 tcp) :: u16) @ to_le_bytes (from_le_bytes (slice 2 4 tcp) :: u32)"
    using parts(2) by (simp add: to_from_le_bytes slice_def)
  with parts show ?thesis
    by (intro exI [of _ "from_le_bytes (take 2 tcp)"] exI [of _ "from_le_bytes (slice 2 4 tcp)"] exI [of _ data])
      simp
qed


text \<open>Every stream is a sequence of packets the loop passes, and something it stops at.\<close>

lemma stream_decomposes:
  "\<exists>ps rest r. inp = concat (map packet_bytes ps) @ rest \<and> list_all (passes source) ps
     \<and> stops ending source rest r"
proof (induction inp rule: length_induct)
  case (1 inp)
  show ?case
  proof (cases "read_frame ending inp")
    case (Err e)
    then show ?thesis
      by (intro exI [of _ "[]"] exI [of _ inp]) (auto intro: stops.cut)
  next
    case (Ok fr)
    obtain fr' inp' where fr: "read_frame ending inp = Ok (fr', inp')"
      using Ok by (cases fr) auto
    obtain ps rest r where more: "inp' = concat (map packet_bytes ps) @ rest" "list_all (passes source) ps"
        "stops ending source rest r"
      using "1.IH" read_frame_shrinks [OF fr] by blast
    show ?thesis
    proof (cases fr')
      case None
      then obtain reserved n data where "passes source (Short reserved n data)"
          "inp = packet_bytes (Short reserved n data) @ inp'"
        using read_frame_discards fr by fastforce
      with more show ?thesis
        by (intro exI [of _ "Short reserved n data # ps"] exI [of _ rest] exI [of _ r]) simp
    next
      case (Some frame)
      then obtain h p where f: "complete (h, p)" "inp = frame_bytes (h, p) @ inp'"
        using read_frame_whole fr by (metis surj_pair)
      show ?thesis
      proof (cases "passing source (h, p)")
        case True
        with f more show ?thesis
          by (intro exI [of _ "Whole (h, p) # ps"] exI [of _ rest] exI [of _ r]) simp
      next
        case False
        with f(1) have "\<not> skipped h" "wf_frame (h, p) \<Longrightarrow> \<not> harmless source (h, p)"
          by (auto simp del: complete.simps wf_frame.simps harmless.simps)
        then have "\<exists>r. stops ending source (frame_bytes (h, p) @ inp') r"
          using stops.unknown [OF f(1)] stops.inconsistent [OF f(1)] stops.too_short [of h p]
          by (cases "ams_cmd h = 0"; cases "wf_frame (h, p)") (auto simp del: complete.simps wf_frame.simps)
        then show ?thesis
          using f(2) by (intro exI [of _ "[]"] exI [of _ inp]) auto
      qed
    qed
  qed (simp add: read_frame_not_Panic)
qed

lemma reader_work_packets:
  assumes "list_all (passes source) ps" and "process_frames source (frames_of ps) sh = (Ok hs, sh')"
  shows "reader_work ending source (concat (map packet_bytes ps) @ rest) sh =
    (case reader_work ending source rest sh' of (r, hs', sh'') \<Rightarrow> (r, hs @ hs', sh''))"
  using assms
proof (induction ps arbitrary: sh hs)
  case (Cons q ps)
  show ?case
  proof (cases q)
    case (Short reserved n data)
    then show ?thesis
      using Cons read_frame_short [of n data ending reserved "concat (map packet_bytes ps) @ rest"]
      by (subst reader_work.simps) (simp del: packet_bytes.simps)
  next
    case (Whole f)
    then obtain hs1 sh1 hs2 where step: "handle_frame source (raw f) sh = (Ok hs1, sh1)"
        "process_frames source (frames_of ps) sh1 = (Ok hs2, sh')" "hs = hs1 @ hs2"
      using Cons.prems(2) by (auto simp: bindS_def split: prod.splits res.splits)
    have "complete f"
      using Cons.prems(1) Whole by (cases f) simp
    then have "read_frame ending (frame_bytes f @ concat (map packet_bytes ps) @ rest)
        = Ok (Some (raw f), concat (map packet_bytes ps) @ rest)"
      by (rule read_frame_complete)
    then show ?thesis
      using Cons.IH [OF _ step(2)] Cons.prems(1) step Whole
      by (subst reader_work.simps) (auto split: prod.split)
  qed
qed (auto split: prod.split)

lemma reader_work_stops:
  assumes "stops ending source rest r"
  shows "reader_work ending source rest sh = ((case r of Some e \<Rightarrow> Err e | None \<Rightarrow> Panic), [], sh)"
  using assms
proof cases
  case (cut e)
  then show ?thesis by (simp add: reader_work.simps)
next
  case (unknown h p following)
  then show ?thesis
    using read_frame_complete [OF unknown(3), of ending following]
    by (auto simp: reader_work.simps handle_frame_def header_fields wire_simps skipped_def Let_def
        del: frame_bytes.simps)
next
  case (inconsistent h p following)
  then have "data_length h \<noteq> hdr_length h - of_nat AMS_HEADER_SIZE"
    by (auto simp: AMS_HEADER_SIZE_def unat_sub word_le_nat_alt)
  then show ?thesis
    using inconsistent read_frame_complete [OF inconsistent(3), of ending following]
    by (simp add: reader_work.simps handle_frame_def header_fields wire_simps Let_def
        del: frame_bytes.simps)
next
  case (too_short h p following)
  have "data_length h = hdr_length h - of_nat AMS_HEADER_SIZE"
    using wf_frame_consistent [OF too_short(3)] by (simp add: AMS_HEADER_SIZE_def)
  then show ?thesis
    using too_short read_frame_complete [OF wf_frame_complete [OF too_short(3)], of ending following]
    by (simp add: reader_work.simps handle_frame_def header_fields wire_simps Let_def
        del: frame_bytes.simps)
qed

lemma process_frames_passing:
  "list_all (passes source) ps \<Longrightarrow> list_all (passing source) (frames_of ps)"
  by (induction ps rule: frames_of.induct) simp_all


text \<open>
  C1: what becomes of every waiting request, on any stream whatever. Every stream is a sequence of
  packets the loop passes, followed by something it stops at: a packet cut short, a frame it
  refuses, or a notification without its length field. However the stream falls into these,
  when the reader task is done a request that was waiting has the first frame that answers its
  invoke ID, if there is one among the packets before the stop (in whatever company of late,
  foreign or discarded ones); else it has the reason the connection ended; and only a stop at
  such a notification, at which the task panics, leaves it as it was.
\<close>

theorem every_request_settled:
  assumes "waiting sh" and "closed sh = None" and "(i, tx) \<in> set (commands sh)"
  shows "(\<exists>ps rest r. inp = concat (map packet_bytes ps) @ rest \<and> list_all (passes source) ps
      \<and> stops ending source rest r)
    \<and> (\<forall>ps rest r. inp = concat (map packet_bytes ps) @ rest \<and> list_all (passes source) ps
        \<and> stops ending source rest r \<longrightarrow>
      replies (snd (reader_task ending source inp sh)) tx =
        (case find (answers source i) (frames_of ps) of
           Some f \<Rightarrow> Some (Inr f)
         | None \<Rightarrow> (case r of Some e \<Rightarrow> Some (Inl (error_clone e)) | None \<Rightarrow> replies sh tx)))"
proof (intro conjI stream_decomposes allI impI, elim conjE)
  fix ps rest r
  assume inp: "inp = concat (map packet_bytes ps) @ rest" and passes: "list_all (passes source) ps"
    and stops: "stops ending source rest r"
  note passing = process_frames_passing [OF passes]
  obtain hs sh' where fs: "process_frames source (frames_of ps) sh = (Ok hs, sh')"
    using process_frames_harmless [OF passing] by blast
  have work: "reader_work ending source inp sh = ((case r of Some e \<Rightarrow> Err e | None \<Rightarrow> Panic), hs, sh')"
    using reader_work_packets [OF passes fs, of ending rest] reader_work_stops [OF stops, of sh'] inp
    by simp
  have after: "closed sh' = None" "case find (answers source i) (frames_of ps) of
      Some f \<Rightarrow> settled sh' (Some (Inr f)) tx | None \<Rightarrow> unanswered sh sh' i tx"
    using process_frames_channel [OF passing assms(1) fs, of tx i] assms(2,3) by simp_all
  show "replies (snd (reader_task ending source inp sh)) tx =
      (case find (answers source i) (frames_of ps) of
         Some f \<Rightarrow> Some (Inr f)
       | None \<Rightarrow> (case r of Some e \<Rightarrow> Some (Inl (error_clone e)) | None \<Rightarrow> replies sh tx))"
  proof (cases r)
    case (Some e)
    then have "snd (reader_task ending source inp sh) = tear_down e sh'"
      using work by (simp add: reader_task_def)
    then show ?thesis
      using after Some by (cases "find (answers source i) (frames_of ps)")
        (auto simp: tear_down_replies settled_def unanswered_def rev_image_eqI)
  next
    case None
    then have "snd (reader_task ending source inp sh) = sh'"
      using work by (simp add: reader_task_def)
    then show ?thesis
      using after None by (cases "find (answers source i) (frames_of ps)")
        (auto simp: settled_def unanswered_def)
  qed
qed

definition two_waiting :: Shared where
  "two_waiting = shared_new\<lparr>commands := [(1, 0), (2, 1)]\<rparr>"

definition reply_header :: "u32 \<Rightarrow> AdsHeader" where
  "reply_header i =
     \<lparr>ams_cmd = 0, hdr_length = 36, dest_netid = netid_local, dest_port = 30000,
      src_netid = netid_local, src_port = 851, command = 3, state_flags = 5,
      data_length = 4, error_code = 0, invoke_id = i\<rparr>"

text \<open>A late reply, the first request's reply, a discarded packet, and a cut one.\<close>

definition settling_stream :: bytes where
  "settling_stream = concat (map packet_bytes [Whole (reply_header 9, [0, 0, 0, 0]),
     Whole (reply_header 1, [0, 0, 0, 0]), Short 0 2 [7, 7]]) @ [0, 0, 5]"

theorem every_request_settled_witness:
  "replies (snd (reader_task (IoSimple UnexpectedEof) (AmsAddr netid_local 30000) settling_stream two_waiting)) 0
   = Some (Inr (reply_header 1, [0, 0, 0, 0]))
   \<and> replies (snd (reader_task (IoSimple UnexpectedEof) (AmsAddr netid_local 30000) settling_stream two_waiting)) 1
   = Some (Inl (Io ''receiving AMS/TCP header'' (IoSimple UnexpectedEof)))"
proof -
  let ?ps = "[Whole (reply_header 9, [0, 0, 0, 0]), Whole (reply_header 1, [0, 0, 0, 0]), Short 0 2 [7, 7]]"
  have stream: "settling_stream = concat (map packet_bytes ?ps) @ [0, 0, 5]"
      "list_all (passes (AmsAddr netid_local 30000)) ?ps"
      "stops (IoSimple UnexpectedEof) (AmsAddr netid_local 30000) [0, 0, 5]
        (Some (Io ''receiving AMS/TCP header'' (IoSimple UnexpectedEof)))"
    by (simp_all only: settling_stream_def)
      (auto simp: reply_header_def read_frame_def socket_read_def intro!: stops.cut)
  have "waiting two_waiting" "closed two_waiting = None" "(1, 0) \<in> set (commands two_waiting)"
      "(2, 1) \<in> set (commands two_waiting)"
    by (simp_all add: two_waiting_def waiting_def shared_new_def)
  note settled = every_request_settled [OF this(1,2) this(3), of settling_stream "AmsAddr netid_local 30000"
        "IoSimple UnexpectedEof", THEN conjunct2, rule_format, OF conjI [OF stream(1) conjI [OF stream(2,3)]]]
      every_request_settled [OF this(1,2) this(4), of settling_stream "AmsAddr netid_local 30000"
        "IoSimple UnexpectedEof", THEN conjunct2, rule_format, OF conjI [OF stream(1) conjI [OF stream(2,3)]]]
  show ?thesis
    unfolding settled by (simp add: reply_header_def)
qed

section \<open>Notifications reach their subscribers\<close>

text \<open>The samples of a channel's subscribers, in order.\<close>

definition samples_for :: "Shared \<Rightarrow> nat \<Rightarrow> Sample list \<Rightarrow> bytes list" where
  "samples_for sh ch ss =
     map sm_data (filter (\<lambda>s. map_of (subscribers sh) (sm_handle s) = Some ch) ss)"

definition dropped_handles :: "Shared \<Rightarrow> Sample list \<Rightarrow> NotificationHandle list" where
  "dropped_handles sh ss =
     map sm_handle (filter (\<lambda>s. case map_of (subscribers sh) (sm_handle s) of
         Some ch \<Rightarrow> \<not> receiver_open (channels sh ch) | None \<Rightarrow> False) ss)"

lemma try_send_cases:
  assumes "try_send ch msg sh = (r, sh')" and "queues_bounded sh"
  shows "receiver_open (channels sh' c) = receiver_open (channels sh c)"
    and "queue (channels sh' c) =
      (if c = ch \<and> receiver_open (channels sh c) then take 32 (queue (channels sh c) @ [msg])
       else queue (channels sh c))"
    and "r = Closed \<longleftrightarrow> \<not> receiver_open (channels sh ch)"
    and "queues_bounded sh'"
proof -
  have "length (queue (channels sh c)) \<le> 32" for c
    using assms(2) by (simp add: queues_bounded_def CHANNEL_CAPACITY_def)
  then show "receiver_open (channels sh' c) = receiver_open (channels sh c)"
    "queue (channels sh' c) =
      (if c = ch \<and> receiver_open (channels sh c) then take 32 (queue (channels sh c) @ [msg])
       else queue (channels sh c))"
    "r = Closed \<longleftrightarrow> \<not> receiver_open (channels sh ch)"
    "queues_bounded sh'"
    using assms
    by (auto simp: try_send_def Let_def CHANNEL_CAPACITY_def queues_bounded_def split: if_splits)
qed

lemma deliver_samples_spec:
  assumes "queues_bounded sh"
  shows "fst (deliver_samples ss sh) = dropped_handles sh ss
    \<and> (receiver_open (channels sh c) \<longrightarrow>
        queue (channels (snd (deliver_samples ss sh)) c)
          = take 32 (queue (channels sh c) @ samples_for sh c ss))"
  using assms
proof (induction ss arbitrary: sh)
  case Nil
  then show ?case
    by (auto simp: dropped_handles_def samples_for_def queues_bounded_def CHANNEL_CAPACITY_def)
next
  case (Cons s ss)
  show ?case
  proof (cases "map_of (subscribers sh) (sm_handle s)")
    case None
    then show ?thesis
      using Cons by (simp add: dropped_handles_def samples_for_def)
  next
    case (Some ch)
    obtain r sh' where sent: "try_send ch (sm_data s) sh = (r, sh')"
      by fastforce
    note t = try_send_cases [OF sent Cons.prems]
    have "subscribers sh' = subscribers sh"
      using try_send_fields [of ch "sm_data s" sh] by (simp add: sent)
    then have same: "dropped_handles sh' ss = dropped_handles sh ss"
        "samples_for sh' c ss = samples_for sh c ss"
      by (simp_all add: dropped_handles_def samples_for_def t(1) cong: option.case_cong)
    have "deliver_samples (s # ss) sh =
        ((if r = Closed then [sm_handle s] else []) @ fst (deliver_samples ss sh'),
         snd (deliver_samples ss sh'))"
      using Some sent by (cases r) (simp_all add: case_prod_beta)
    moreover have "take 32 (take 32 (queue (channels sh c) @ [sm_data s]) @ samples_for sh c ss)
        = take 32 (queue (channels sh c) @ sm_data s # samples_for sh c ss)"
      by (simp add: take_Cons')
    ultimately show ?thesis
      using Cons.IH [OF t(4)] t(1-3) Some same
      by (auto simp: dropped_handles_def [of sh "s # ss"] samples_for_def [of sh c "s # ss"]
          simp flip: dropped_handles_def samples_for_def)
  qed
qed

definition notification_payload :: "stamp list \<Rightarrow> bytes" where
  "notification_payload stamps =
     (let body = to_le_bytes (of_nat (length stamps) :: u32) @ concat (map enc_stamp stamps)
      in to_le_bytes (of_nat (length body) :: u32) @ body)"

lemma deliver_message:
  assumes "length stamps < 2 ^ 32" and "list_all valid_stamp stamps"
  shows "deliver_notification (frame_bytes (h, notification_payload stamps)) sh
    = (Ok (fst (deliver_samples (concat (map stamp_samples stamps)) sh)),
       snd (deliver_samples (concat (map stamp_samples stamps)) sh))"
proof -
  define body where "body = to_le_bytes (of_nat (length stamps) :: u32) @ concat (map enc_stamp stamps)"
  let ?hdr = "as_bytes_AdsHeader h @ to_le_bytes (of_nat (length body) :: u32)"
  have hdr: "length ?hdr = 42"
    by (simp add: length_to_le_bytes header_sizes)
  have "frame_bytes (h, notification_payload stamps) = enc_message ?hdr stamps"
    by (simp add: enc_message_def notification_payload_def body_def Let_def)
  moreover have "notification_new (enc_message ?hdr stamps)
      = Ok \<lparr>ntf_data = enc_message ?hdr stamps, ntf_nstamps = of_nat (length stamps)\<rparr>"
    unfolding notification_new_iff using assms hdr
    by (intro exI [of _ ?hdr] exI [of _ stamps]) simp
  ultimately show ?thesis
    using all_samples_message [OF hdr assms] by (simp add: deliver_notification_def case_prod_beta)
qed

lemma handle_notification_frame:
  assumes "wf_frame (h, notification_payload stamps)" and "for_us source (h, notification_payload stamps)"
    and "command h = command_code Command.Notification" and "state_flags h = 4" and "error_code h = 0"
    and "length stamps < 2 ^ 32" and "list_all valid_stamp stamps"
  shows "handle_frame source (raw (h, notification_payload stamps)) sh
    = (Ok (fst (deliver_samples (concat (map stamp_samples stamps)) sh)),
       snd (deliver_samples (concat (map stamp_samples stamps)) sh))"
proof -
  let ?p = "notification_payload stamps"
  define body where "body = to_le_bytes (of_nat (length stamps) :: u32) @ concat (map enc_stamp stamps)"
  have p: "?p = to_le_bytes (of_nat (length body) :: u32) @ body"
    by (simp add: notification_payload_def body_def Let_def)
  have len: "length ?p = 4 + length body" "4 \<le> length body"
    by (simp_all add: p body_def length_to_le_bytes)
  have "unat (hdr_length h) < 2 ^ LENGTH(32)"
    by (rule unsigned_less)
  then have small: "length body + 4 < 2 ^ 32"
    using assms(1) len by simp
  have "unat (data_length h) = 4 + length body"
    using assms(1) len by simp
  moreover have "unat (of_nat (4 + length body) :: u32) = 4 + length body"
    using small by (intro unat_of_nat_u32) simp
  ultimately have "data_length h = of_nat (4 + length body)"
    by (simp only: word_unat_eq_iff)
  moreover have "harmless source (h, ?p)"
    using assms(2) len by simp
  moreover have "from_le_bytes (take 4 ?p) = (of_nat (length body) :: u32)"
    by (simp add: p length_to_le_bytes from_to_le_bytes)
  moreover have "\<not> (of_nat (length body) :: u32) < 4"
    using len small by (simp add: word_less_nat_alt unat_of_nat_u32)
  ultimately show ?thesis
    using assms(1-5) deliver_message [OF assms(6,7), of h sh] handle_frame_raw [of h ?p source sh]
    by simp
qed

text \<open>
  C15: notifications are delivered. When a notification for us arrives, every live subscriber
  finds the data of its handles' samples appended to its queue, in the order of the message,
  up to the queue's capacity of 32; the surplus is dropped. The handles whose subscriber is
  gone are exactly the ones a deletion is spawned for.
\<close>

theorem notification_delivery:
  assumes "wf_frame (h, notification_payload stamps)" and "for_us source (h, notification_payload stamps)"
    and "command h = command_code Command.Notification" and "state_flags h = 4" and "error_code h = 0"
    and "length stamps < 2 ^ 32" and "list_all valid_stamp stamps" and "queues_bounded sh"
  shows "let (r, dropped, sh') = reader_work ending source (frame_bytes (h, notification_payload stamps)) sh
    in dropped = dropped_handles sh (concat (map stamp_samples stamps))
      \<and> (receiver_open (channels sh ch) \<longrightarrow>
          queue (channels sh' ch)
            = take 32 (queue (channels sh ch) @ samples_for sh ch (concat (map stamp_samples stamps))))"
proof -
  let ?ss = "concat (map stamp_samples stamps)"
  have "process_frames source [(h, notification_payload stamps)] sh
      = (Ok (fst (deliver_samples ?ss sh)), snd (deliver_samples ?ss sh))"
    using handle_notification_frame [OF assms(1-7), of sh] by (simp add: bindS_def)
  from reader_work_frames [OF _ this, of ending "[]"]
  have "snd (reader_work ending source (frame_bytes (h, notification_payload stamps)) sh)
      = deliver_samples ?ss sh"
    using assms(1) by (simp add: reader_work.simps [of ending source "[]"] read_frame_def socket_read_def)
  then show ?thesis
    using deliver_samples_spec [OF assms(8), of ?ss ch] by (simp add: case_prod_beta Let_def)
qed

definition notification_header :: "nat \<Rightarrow> AdsHeader" where
  "notification_header n =
     \<lparr>ams_cmd = 0, hdr_length = of_nat (32 + n), dest_netid = netid_local, dest_port = 30000,
      src_netid = netid_local, src_port = 851, command = 8, state_flags = 4,
      data_length = of_nat n, error_code = 0, invoke_id = 0\<rparr>"

definition one_subscriber :: Shared where
  "one_subscriber = shared_new\<lparr>subscribers := [(5, 0)],
     channels := (\<lambda>_. \<lparr>queue = [], receiver_open = True\<rparr>)\<rparr>"

theorem notification_delivery_witness:
  "let (r, dropped, sh') = reader_work (IoSimple UnexpectedEof) (AmsAddr netid_local 30000)
     (frame_bytes (notification_header 38, notification_payload [(7, [(5, [42]), (6, [43])])]))
     one_subscriber
   in dropped = [] \<and> queue (channels sh' 0) = [[42]]"
  using notification_delivery [of "notification_header 38" "[(7, [(5, [42]), (6, [43])])]"
      "AmsAddr netid_local 30000" one_subscriber "IoSimple UnexpectedEof" 0]
  by (simp add: notification_header_def one_subscriber_def shared_new_def queues_bounded_def
      notification_payload_def Let_def length_to_le_bytes enc_stamp_def enc_sample_def
      valid_stamp_def valid_sample_def dropped_handles_def samples_for_def stamp_samples_def
      case_prod_beta)

text \<open>
  C28: a short notification ends the reader without ending the connection. A notification
  frame for us whose payload has fewer than four bytes makes the task panic: whatever follows
  it is never read, and every request that waits, and every later one, stays registered with
  no reply, on a connection that does not count as closed.
\<close>

theorem short_notification_panics:
  assumes "wf_frame (h, p)" and "for_us source (h, p)"
    and "command h = command_code Command.Notification" and "length p < 4"
  shows "reader_task ending source (frame_bytes (h, p) @ rest) sh = ([], sh)"
proof -
  have "handle_frame source (raw (h, p)) sh = (Panic, sh)"
  proof -
    have "from_le_bytes (take 2 (as_bytes_AdsHeader h)) = ams_cmd h"
      by (simp add: header_fields wire_simps)
    moreover have "data_length h = hdr_length h - of_nat AMS_HEADER_SIZE"
      using wf_frame_consistent [OF assms(1)] by (simp add: AMS_HEADER_SIZE_def)
    ultimately show ?thesis
      using assms(2-4) by (simp add: handle_frame_def Let_def)
  qed
  then have "reader_work ending source (frame_bytes (h, p) @ rest) sh = (Panic, [], sh)"
    using read_frame_bytes [OF assms(1), of ending rest] by (simp add: reader_work.simps)
  then show ?thesis
    by (simp add: reader_task_def)
qed

theorem short_notification_panics_witness:
  "reader_task (IoSimple UnexpectedEof) (AmsAddr netid_local 30000)
     (frame_bytes (notification_header 2, [0, 0]) @ frame_bytes (reply_header 1, [0, 0, 0, 0]))
     two_waiting = ([], two_waiting)
   \<and> \<not> is_closed two_waiting"
  using short_notification_panics [of "notification_header 2" "[0, 0]" "AmsAddr netid_local 30000"]
  by (simp add: notification_header_def two_waiting_def shared_new_def is_closed_def)

section \<open>The stream so far\<close>

text \<open>
  The stream of a connection that is still open: the loop as far as the bytes received so far
  take it. Where the loop would fail on the end of its input, it waits, with the bytes of the
  incomplete frame left over. The environment of theory \<open>Session\<close> is made of it.
\<close>

function reader_feed ::
  "AmsAddr \<Rightarrow> bytes \<Rightarrow> Shared \<Rightarrow> unit res \<times> NotificationHandle list \<times> bytes \<times> Shared" where
  "reader_feed source inp sh =
     (case read_frame (IoSimple UnexpectedEof) inp of
        Err e \<Rightarrow> (Ok (), [], inp, sh)
      | Panic \<Rightarrow> (Panic, [], inp, sh)
      | Ok (None, inp) \<Rightarrow> reader_feed source inp sh
      | Ok (Some frame, inp) \<Rightarrow>
          (case handle_frame source frame sh of
             (Err e, sh) \<Rightarrow> (Err e, [], inp, sh)
           | (Panic, sh) \<Rightarrow> (Panic, [], inp, sh)
           | (Ok dropped, sh) \<Rightarrow>
               (case reader_feed source inp sh of
                  (r, hs, inp, sh) \<Rightarrow> (r, dropped @ hs, inp, sh))))"
  by pat_completeness auto
termination
  by (relation "measure (\<lambda>(_, inp, _). length inp)") (auto dest: read_frame_shrinks)

declare reader_feed.simps [simp del]

lemma read_frame_append:
  assumes "read_frame ending a = Ok (fr, rest)"
  shows "read_frame ending' (a @ b) = Ok (fr, rest @ b)"
proof -
  obtain tcp inp where a: "a = tcp @ inp" "length tcp = 6"
    using assms by (auto simp: read_frame_def bindR_eq_Ok)
  let ?len = "from_le_bytes (slice 2 4 tcp) :: u32"
  show ?thesis
  proof (cases "?len \<le> 31")
    case True
    then show ?thesis
      using assms a by (auto simp: read_frame_def Let_def bindR_eq_Ok)
  next
    case False
    then obtain ams h p where "inp = ams @ p @ rest" "length ams = ADS_HEADER_SIZE - 6"
        "read_AdsHeader (tcp @ ams) = Some h" "length p = unat (data_length h)"
        "fr = Some (?len, tcp @ ams, h, p)"
      using assms a by (auto simp: read_frame_def Let_def bindR_eq_Ok split: option.splits)
    with a False show ?thesis
      by (simp add: read_frame_def Let_def)
  qed
qed

text \<open>It is the loop: going on with what is left and what comes next is the loop on the whole stream.\<close>

lemma reader_work_feed:
  "reader_work ending source (a @ b) sh =
     (case reader_feed source a sh of
        (Ok _, hs, rest, sh') \<Rightarrow>
          (case reader_work ending source (rest @ b) sh' of (r, hs', sh'') \<Rightarrow> (r, hs @ hs', sh''))
      | (Err e, hs, rest, sh') \<Rightarrow> (Err e, hs, sh')
      | (Panic, hs, rest, sh') \<Rightarrow> (Panic, hs, sh'))"
proof (induction a arbitrary: sh rule: length_induct)
  case (1 a)
  note unfold = reader_work.simps [of ending source "a @ b" sh] reader_feed.simps [of source a sh]
  show ?case
  proof (cases "read_frame (IoSimple UnexpectedEof) a")
    case (Ok fr)
    then consider a' where "read_frame (IoSimple UnexpectedEof) a = Ok (None, a')"
      | frame a' where "read_frame (IoSimple UnexpectedEof) a = Ok (Some frame, a')"
      by (cases fr, cases "fst fr") auto
    then show ?thesis
    proof cases
      case 1
      with "1.IH" read_frame_shrinks [OF 1] read_frame_append [OF 1, of ending b]
      show ?thesis
        by (simp add: unfold)
    next
      case (2 frame a')
      obtain r sh' where handle: "handle_frame source frame sh = (r, sh')"
        by fastforce
      have "reader_work ending source (a' @ b) sh' =
         (case reader_feed source a' sh' of
            (Ok _, hs, rest, sh') \<Rightarrow>
              (case reader_work ending source (rest @ b) sh' of (r, hs', sh'') \<Rightarrow> (r, hs @ hs', sh''))
          | (Err e, hs, rest, sh') \<Rightarrow> (Err e, hs, sh')
          | (Panic, hs, rest, sh') \<Rightarrow> (Panic, hs, sh'))"
        using "1.IH" read_frame_shrinks [OF 2] by blast
      with 2 handle read_frame_append [OF 2, of ending b] show ?thesis
        by (cases r; cases "reader_feed source a' sh'"; cases "fst (reader_feed source a' sh')")
          (simp_all add: unfold case_prod_beta)
    qed
  qed (auto simp: unfold read_frame_not_Panic case_prod_beta)
qed

end
