(* ===== verification/Session.thy ===== *)
theory Session
  imports Reader
begin

text \<open>
  A client at work: what every operation of theory \<open>Client\<close> keeps (the locale
  \<open>client_environment\<close>), how a session behaves once the connection has ended or the peer
  falls silent, and a concrete environment in which the reader of theory \<open>Reader\<close> runs while
  the client waits, for a peer given as a function from requests to the bytes it sends back.
\<close>

section \<open>What every operation keeps\<close>

text \<open>
  The contract between the client and its environment, for a property \<open>I\<close> of the client's
  state: writing, waiting and closing keep it, and so do the client's own updates of its
  counters and of the shared state. Then every operation of the client keeps it.
\<close>

locale client_environment =
  fixes env :: "'w Env" and I :: "'w Client \<Rightarrow> bool"
  assumes env_write: "I cl \<Longrightarrow> I (snd (write_all env b cl))"
    and env_write_timed: "I cl \<Longrightarrow> I (snd (write_all_timed env t b cl))"
    and env_await: "I cl \<Longrightarrow> I (snd (await_reply env rx cl))"
    and env_await_timed: "I cl \<Longrightarrow> I (snd (await_reply_timed env t rx cl))"
    and env_shutdown: "I cl \<Longrightarrow> I (shutdown env cl)"
    and env_stop: "I cl \<Longrightarrow> I (stop_reader env cl)"
    and own_counters: "I cl \<Longrightarrow> I (cl\<lparr>next_invoke_id := i\<rparr>)" "I cl \<Longrightarrow> I (cl\<lparr>next_oneshot := n\<rparr>)"
      "I cl \<Longrightarrow> I (cl\<lparr>next_channel := n\<rparr>)" "I cl \<Longrightarrow> I (cl\<lparr>consecutive_timeouts := i\<rparr>)"
    and own_register: "I cl \<Longrightarrow> I (upd_shared (\<lambda>sh. snd (register i tx sh)) cl)"
    and own_drop: "I cl \<Longrightarrow> I (upd_shared (drop_pending i) cl)"
    and own_tear_down: "I cl \<Longrightarrow> I (upd_shared (tear_down e) cl)"
    and own_subscribe: "I cl \<Longrightarrow> I (upd_shared (\<lambda>sh. snd (subscribe h ch sh)) cl)"
    and own_unsubscribe: "I cl \<Longrightarrow> I (upd_shared (\<lambda>sh. sh\<lparr>subscribers := AList.delete h (subscribers sh)\<rparr>) cl)"
    and own_channel: "I cl \<Longrightarrow>
      I (upd_shared (\<lambda>sh. sh\<lparr>channels := (channels sh)(ch := \<lparr>queue = [], receiver_open = True\<rparr>)\<rparr>) cl)"
    and own_receiver: "I cl \<Longrightarrow>
      I (upd_shared (\<lambda>sh. sh\<lparr>channels := (channels sh)(ch := (channels sh ch)\<lparr>receiver_open := False\<rparr>)\<rparr>) cl)"
begin

lemma keeps_write_request: "keeps I (write_request env request)"
  using env_write env_write_timed
  by (auto simp: keeps_def write_request_def case_prod_beta split: option.split)

lemma keeps_on_reply: "keeps I (on_reply cmd i bufs reply)"
  using own_counters(4)
  by (auto simp: keeps_def on_reply_def split: option.split sum.split)

lemma keeps_on_timeout: "keeps I on_reply_timeout"
  using own_counters(4) own_tear_down by (auto simp: keeps_def on_reply_timeout_def Let_def)

lemma keeps_registered: "keeps I (communicate_registered env cmd i rx request bufs)"
  unfolding keeps_def
proof (intro allI impI)
  fix cl
  assume "I cl"
  obtain r cl1 where wrote: "write_request env request cl = (r, cl1)"
    by fastforce
  have "I cl1"
    using keepsD [OF keeps_write_request \<open>I cl\<close>, of request] by (simp add: wrote)
  then have "I (snd (await_reply env rx cl1))" "I (snd (await_reply_timed env t rx cl1))" for t
    by (rule env_await env_await_timed)+
  with \<open>I cl1\<close> show "I (snd (communicate_registered env cmd i rx request bufs cl))"
    by (cases r) (simp_all add: communicate_registered_def wrote case_prod_beta own_tear_down
        keepsD [OF keeps_on_reply] keepsD [OF keeps_on_timeout]
        split: option.split timeout_result.split)
qed

lemma keeps_communicate: "keeps I (communicate env cmd payload bufs)"
  unfolding keeps_def
proof (intro allI impI)
  fix cl
  assume "I cl"
  let ?cl1 = "cl\<lparr>next_invoke_id := next_invoke_id cl + 1\<rparr>"
  let ?cl2 = "?cl1\<lparr>next_oneshot := next_oneshot cl + 1\<rparr>"
  let ?i = "next_invoke_id cl" and ?rx = "next_oneshot cl"
  have "I ?cl1" and "I ?cl2"
    using \<open>I cl\<close> by (simp_all only: own_counters)
  let ?reg = "register ?i ?rx (cl_shared ?cl2)"
  have "I (?cl2\<lparr>cl_shared := snd ?reg\<rparr>)"
    using own_register [OF \<open>I ?cl2\<close>, of ?i ?rx] by (simp add: upd_shared_def)
  then have "I (snd (communicate_registered env cmd ?i ?rx request bufs (?cl2\<lparr>cl_shared := snd ?reg\<rparr>)))"
    for request
    by (rule keepsD [OF keeps_registered])
  then show "I (snd (communicate env cmd payload bufs cl))"
    using \<open>I ?cl1\<close> \<open>I ?cl2\<close> own_drop
    by (simp add: communicate_def Let_def case_prod_beta split: res.split prod.split)
qed

lemma keeps_new_channel: "keeps I new_channel"
  unfolding keeps_def
proof (intro allI impI)
  fix cl
  assume "I cl"
  then show "I (snd (new_channel cl))"
    using own_channel [OF own_counters(3) [OF \<open>I cl\<close>, of "next_channel cl + 1"], of "next_channel cl"]
    by (simp add: new_channel_def Let_def upd_shared_def)
qed

lemma keeps_subscribe: "keeps I (subscribe_channel h ch)"
  unfolding keeps_def
proof (intro allI impI)
  fix cl
  assume "I cl"
  obtain r sh where sub: "subscribe h ch (cl_shared cl) = (r, sh)"
    by fastforce
  have "I (cl\<lparr>cl_shared := sh\<rparr>)"
    using own_subscribe [OF \<open>I cl\<close>, of h ch] by (simp add: upd_shared_def sub)
  then show "I (snd (subscribe_channel h ch cl))"
    using own_receiver [of "cl\<lparr>cl_shared := sh\<rparr>" ch]
    by (cases r) (simp_all add: subscribe_channel_def sub upd_shared_def)
qed

text \<open>The operations are compositions of these.\<close>

lemma keeps_commands:
  "keeps I (read_device_info env)" "keeps I (client_read env g off data)"
  "keeps I (client_write env g off data)" "keeps I (client_read_write env g off rd wd)"
  "keeps I (read_state env)" "keeps I (write_control env st dev)"
  unfolding read_device_info_def client_read_def client_write_def client_read_write_def
    read_state_def write_control_def Let_def
  by (auto intro!: keeps_bindS keeps_communicate split: prod.split option.split sum.split)

lemma keeps_exact_commands:
  "keeps I (client_read_exact env g off data)"
  "keeps I (client_read_value env init value_of g off)"
  "keeps I (client_write_value env image_of g off v)"
  "keeps I (client_read_write_exact env g off rd wd)"
  unfolding client_read_value_def client_read_exact_def client_write_value_def
    client_read_write_exact_def
  by (auto intro!: keeps_bindS keeps_commands split: prod.split option.split)

lemma keeps_add_notification: "keeps I (add_notification env g off attributes)"
  unfolding add_notification_def Let_def
  by (auto intro!: keeps_bindS keeps_communicate keeps_new_channel keeps_subscribe split: prod.split)

lemma keeps_delete_notification: "keeps I (delete_notification env h)"
  unfolding delete_notification_def
proof (intro keeps_bindS keeps_communicate)
  show "keeps I (\<lambda>cl. (Ok (), upd_shared (\<lambda>sh. sh\<lparr>subscribers := AList.delete h (subscribers sh)\<rparr>) cl))"
    using own_unsubscribe by (simp add: keeps_def)
qed

lemma keeps_delete_all: "I cl \<Longrightarrow> I (delete_all env hs cl)"
  by (induction hs arbitrary: cl) (simp_all add: keepsD [OF keeps_delete_notification])

lemma keeps_close: "I cl \<Longrightarrow> I (close env cl)"
  unfolding close_def Let_def
  by (intro own_tear_down env_stop env_shutdown) (simp add: env_write keeps_delete_all)

end

section \<open>A client over a byte stream\<close>

text \<open>
  The environment of a client whose peer answers each message with the bytes \<open>peer\<close> gives for
  it. Whatever has arrived is read by the reader while the client waits; a reader that ended
  with an error has torn the connection down, and one that panicked reads nothing more.
\<close>

record Wire =
  unread :: bytes
  sent :: "bytes list"
  reader_alive :: bool
  orphans :: "NotificationHandle list"

definition pump :: "Wire Client \<Rightarrow> Wire Client" where
  "pump cl =
     (let w = cl_world cl
      in if \<not> reader_alive w then cl
         else case reader_feed (cl_source cl) (unread w) (cl_shared cl) of
           (r, dropped, rest, sh) \<Rightarrow>
             cl\<lparr>cl_world := w\<lparr>unread := rest, reader_alive := is_ok r,
                              orphans := orphans w @ dropped\<rparr>,
                cl_shared := (case r of Err e \<Rightarrow> tear_down e sh | _ \<Rightarrow> sh)\<rparr>)"

definition send_to :: "(bytes \<Rightarrow> bytes) \<Rightarrow> bytes \<Rightarrow> Wire Client \<Rightarrow> Wire Client" where
  "send_to peer b cl =
     (let w = cl_world cl
      in cl\<lparr>cl_world := w\<lparr>unread := unread w @ peer b, sent := sent w @ [b]\<rparr>\<rparr>)"

definition stream_env :: "(bytes \<Rightarrow> bytes) \<Rightarrow> Wire Env" where
  "stream_env peer =
     \<lparr>write_all = (\<lambda>b cl. (Inr (), send_to peer b cl)),
      write_all_timed = (\<lambda>t b cl. (InTime (Inr ()), send_to peer b cl)),
      await_reply = (\<lambda>rx cl. (replies (cl_shared (pump cl)) rx, pump cl)),
      await_reply_timed = (\<lambda>t rx cl.
        (case replies (cl_shared (pump cl)) rx of
           Some r \<Rightarrow> InTime (Some r) | None \<Rightarrow> Elapsed ''deadline has elapsed'', pump cl)),
      shutdown = (\<lambda>cl. cl),
      stop_reader = (\<lambda>cl. cl\<lparr>cl_world := (cl_world cl)\<lparr>reader_alive := False\<rparr>\<rparr>)\<rparr>"

lemma stream_env_simps:
  "write_all (stream_env peer) b cl = (Inr (), send_to peer b cl)"
  "write_all_timed (stream_env peer) t b cl = (InTime (Inr ()), send_to peer b cl)"
  "await_reply (stream_env peer) rx cl = (replies (cl_shared (pump cl)) rx, pump cl)"
  "await_reply_timed (stream_env peer) t rx cl =
     (case replies (cl_shared (pump cl)) rx of
        Some r \<Rightarrow> InTime (Some r) | None \<Rightarrow> Elapsed ''deadline has elapsed'', pump cl)"
  by (simp_all add: stream_env_def)

text \<open>What the reader keeps, the part of it up to the end of the bytes keeps.\<close>

context reader_invariant
begin

lemma keeps_process: "I sh \<Longrightarrow> I (snd (process_frames source fs sh))"
proof (induction fs arbitrary: sh)
  case (Cons f fs)
  obtain r sh' where handle: "handle_frame source (raw f) sh = (r, sh')"
    by fastforce
  have "I sh'"
    using keepsD [OF keeps_frame Cons.prems, of source "raw f"] by (simp add: handle)
  with Cons.IH [of sh'] handle show ?case
    by (cases r) (auto simp: bindS_def returnS_def split: prod.splits res.splits)
qed simp

lemma keeps_feed: "I sh \<Longrightarrow> I (snd (snd (snd (reader_feed source inp sh))))"
proof (induction inp arbitrary: sh rule: length_induct)
  case (1 inp)
  note unfold = reader_feed.simps [of source inp sh]
  show ?case
  proof (cases "read_frame (IoSimple UnexpectedEof) inp")
    case (Ok fr)
    then consider inp' where "read_frame (IoSimple UnexpectedEof) inp = Ok (None, inp')"
      | frame inp' where "read_frame (IoSimple UnexpectedEof) inp = Ok (Some frame, inp')"
      by (cases fr, cases "fst fr") auto
    then show ?thesis
    proof cases
      case (2 frame inp')
      obtain r sh' where handle: "handle_frame source frame sh = (r, sh')"
        by fastforce
      have "I sh'"
        using keepsD [OF keeps_frame "1.prems", of source frame] by (simp add: handle)
      then have "I (snd (snd (snd (reader_feed source inp' sh'))))"
        using "1.IH" read_frame_shrinks [OF 2] by blast
      with 2 handle \<open>I sh'\<close> show ?thesis
        by (cases r) (simp_all add: unfold case_prod_beta)
    qed (use 1 read_frame_shrinks in \<open>simp add: unfold\<close>)
  qed (simp_all add: unfold "1.prems")
qed

end

text \<open>
  A property of the shared state that the reader keeps and that the client's own updates keep
  is kept in a session with any peer.
\<close>

locale session_invariant = reader_invariant +
  assumes keeps_register: "I sh \<Longrightarrow> I (snd (register i tx sh))"
    and keeps_tear_down: "I sh \<Longrightarrow> I (tear_down e sh)"
    and keeps_subscribe: "I sh \<Longrightarrow> I (snd (subscribe h ch sh))"
    and keeps_unsubscribe: "I sh \<Longrightarrow> I (sh\<lparr>subscribers := AList.delete h (subscribers sh)\<rparr>)"
    and keeps_channel: "I sh \<Longrightarrow>
      I (sh\<lparr>channels := (channels sh)(ch := \<lparr>queue = [], receiver_open = True\<rparr>)\<rparr>)"
    and keeps_receiver: "I sh \<Longrightarrow>
      I (sh\<lparr>channels := (channels sh)(ch := (channels sh ch)\<lparr>receiver_open := False\<rparr>)\<rparr>)"
begin

lemma keeps_pump: "I (cl_shared cl) \<Longrightarrow> I (cl_shared (pump cl))"
  using keeps_feed [of "cl_shared cl" "cl_source cl" "unread (cl_world cl)"]
  by (auto simp: pump_def Let_def case_prod_beta keeps_tear_down split: res.split)

sublocale stream: client_environment "stream_env peer" "\<lambda>cl. I (cl_shared cl)" for peer
  by unfold_locales
    (auto simp: stream_env_def send_to_def Let_def upd_shared_def drop_pending_def keeps_pump
      intro: keeps_take keeps_register keeps_tear_down keeps_subscribe keeps_unsubscribe
        keeps_channel keeps_receiver)

end

interpretation shared_session: session_invariant shared_ok
proof unfold_locales
  fix sh h
  show "shared_ok sh \<Longrightarrow> shared_ok (sh\<lparr>subscribers := AList.delete h (subscribers sh)\<rparr>)"
    by (auto simp: shared_ok_def is_closed_def distinct_delete)
qed (rule shared_ok_register shared_ok_tear_down shared_ok_subscribe
    | simp add: shared_ok_def is_closed_def)+

interpretation queues_session: session_invariant queues_bounded
  by unfold_locales
    (simp_all add: queues_bounded_def register_def subscribe_def tear_down_def Let_def CHANNEL_CAPACITY_def)

interpretation ended_session: session_invariant "\<lambda>sh. closed sh = Some e"
  by unfold_locales
    (simp_all add: register_def subscribe_def is_closed_def tear_down_fields send_reply_def
      try_send_fields)

section \<open>Sessions\<close>

datatype client_call =
    ReadDeviceInfo
  | ReadData u32 u32 bytes
  | WriteData u32 u32 bytes
  | ReadWriteData u32 u32 bytes bytes
  | GetState
  | SetState AdsState u16
  | Subscribe u32 u32 NotificationAttributes
  | Unsubscribe NotificationHandle
  | CloseClient

primrec run_call :: "'w Env \<Rightarrow> client_call \<Rightarrow> 'w Client \<Rightarrow> 'w Client" where
  "run_call env ReadDeviceInfo cl = snd (read_device_info env cl)"
| "run_call env (ReadData g off data) cl = snd (client_read_exact env g off data cl)"
| "run_call env (WriteData g off data) cl = snd (client_write env g off data cl)"
| "run_call env (ReadWriteData g off rd wd) cl = snd (client_read_write_exact env g off rd wd cl)"
| "run_call env GetState cl = snd (read_state env cl)"
| "run_call env (SetState st dev) cl = snd (write_control env st dev cl)"
| "run_call env (Subscribe g off attributes) cl = snd (add_notification env g off attributes cl)"
| "run_call env (Unsubscribe h) cl = snd (delete_notification env h cl)"
| "run_call env CloseClient cl = close env cl"

context client_environment
begin

lemma keeps_call: "I cl \<Longrightarrow> I (run_call env c cl)"
  by (cases c)
    (simp_all add: keepsD [OF keeps_commands(1)] keepsD [OF keeps_commands(3)]
      keepsD [OF keeps_commands(5)] keepsD [OF keeps_commands(6)] keepsD [OF keeps_exact_commands(1)]
      keepsD [OF keeps_exact_commands(4)] keepsD [OF keeps_add_notification]
      keepsD [OF keeps_delete_notification] keeps_close)

lemma keeps_calls: "I cl \<Longrightarrow> I (fold (run_call env) cs cl)"
  by (induction cs arbitrary: cl) (simp_all add: keeps_call)

end

text \<open>
  C6: a session stays well-formed. Whatever calls are made and whatever the peer sends, the
  maps of the connection keep distinct keys and are empty once it is closed, no queue exceeds
  its capacity, and a closed connection stays closed for the reason it closed for.
\<close>

theorem session_wellformed:
  assumes "shared_ok (cl_shared cl)" and "queues_bounded (cl_shared cl)"
  shows "let sh = cl_shared (fold (run_call (stream_env peer)) calls cl)
    in shared_ok sh \<and> queues_bounded sh
      \<and> (closed (cl_shared cl) = Some e \<longrightarrow> closed sh = Some e)"
  using shared_session.stream.keeps_calls [of cl peer calls] assms
    queues_session.stream.keeps_calls [of cl peer calls]
    ended_session.stream.keeps_calls [of cl e peer calls]
  by (simp add: Let_def)

definition demo_client :: "Wire Client" where
  "demo_client =
     \<lparr>cl_source = AmsAddr netid_local 30000, cl_target = AmsAddr netid_local 851,
      cl_timeouts = timeouts_new 1000, source_port_opened = False, next_invoke_id = 1,
      consecutive_timeouts = 0, cl_shared = shared_new, next_oneshot = 0, next_channel = 0,
      cl_world = \<lparr>unread = [], sent = [], reader_alive = True, orphans = []\<rparr>\<rparr>"

lemma demo_shared: "shared_ok shared_new" "queues_bounded shared_new" "closed shared_new = None"
  by (simp_all add: shared_ok_def queues_bounded_def shared_new_def is_closed_def)

theorem session_wellformed_witness:
  "let sh = cl_shared (fold (run_call (stream_env (\<lambda>b. [0, 0, 255, 0]))) [GetState, CloseClient] demo_client)
   in shared_ok sh \<and> queues_bounded sh \<and> (closed shared_new = Some Overflow \<longrightarrow> closed sh = Some Overflow)"
  using session_wellformed [of demo_client "\<lambda>b. [0, 0, 255, 0]" "[GetState, CloseClient]" Overflow]
  by (simp add: demo_shared demo_client_def)

text \<open>
  C16: a closed connection does no input or output. Every command on it fails at once with
  \<open>Disconnected\<close>, and nothing changes but the numbers of the next request and channel.
\<close>

theorem closed_connection_refuses:
  assumes "client_is_closed cl" and "32 + length (concat payload) < 2 ^ 32"
  shows "communicate env cmd payload bufs cl =
    (Err Disconnected, cl\<lparr>next_invoke_id := next_invoke_id cl + 1, next_oneshot := next_oneshot cl + 1\<rparr>)"
  using assms by (simp add: communicate_def build_request_eq Let_def register_def client_is_closed_def)

theorem closed_connection_refuses_witness:
  "fst (communicate (stream_env (\<lambda>b. [])) Read [[1, 2]] [[0]]
     (demo_client\<lparr>cl_shared := tear_down Overflow shared_new\<rparr>)) = Err Disconnected"
  using closed_connection_refuses [of "demo_client\<lparr>cl_shared := tear_down Overflow shared_new\<rparr>" "[[1, 2]]"]
  by (simp add: client_is_closed_def)

text \<open>
  C17: no request outlives its call. Whatever the environment does, when \<open>communicate\<close> returns,
  on any of its branches, its invoke ID is not registered any more, so the map of waiting
  requests cannot grow.
\<close>

theorem request_unregistered:
  assumes "next_invoke_id cl \<notin> fst ` set (commands (cl_shared cl))"
  shows "next_invoke_id cl \<notin> fst ` set (commands (cl_shared (snd (communicate env cmd payload bufs cl))))"
proof -
  have "i \<notin> fst ` set (commands (cl_shared (upd_shared (drop_pending i) cl)))" for i and cl :: "'a Client"
    by (auto simp: upd_shared_def drop_pending_def AList.delete_eq)
  with assms show ?thesis
    by (simp add: communicate_def Let_def case_prod_beta split: res.split)
qed

theorem request_unregistered_witness:
  "1 \<notin> fst ` set (commands (cl_shared (snd
     (communicate (stream_env (\<lambda>b. [])) Read [[1, 2]] [[0]] demo_client))))"
  using request_unregistered [of demo_client]
  by (simp add: demo_client_def shared_new_def)

section \<open>A silent peer\<close>

text \<open>An environment that takes every request and lets every wait run out.\<close>

definition silent :: "'w Env \<Rightarrow> bool" where
  "silent env \<longleftrightarrow>
     (\<forall>t b cl. fst (write_all_timed env t b cl) = InTime (Inr ())
        \<and> (\<exists>w. snd (write_all_timed env t b cl) = cl\<lparr>cl_world := w\<rparr>))
     \<and> (\<forall>t rx cl. \<exists>e w. await_reply_timed env t rx cl = (Elapsed e, cl\<lparr>cl_world := w\<rparr>))"

text \<open>On an open connection the request is registered and everything else follows.\<close>

definition registered :: "'w Client \<Rightarrow> 'w Client" where
  "registered cl = cl\<lparr>next_invoke_id := next_invoke_id cl + 1, next_oneshot := next_oneshot cl + 1,
     cl_shared := (cl_shared cl)\<lparr>commands :=
       AList.update (next_invoke_id cl) (next_oneshot cl) (commands (cl_shared cl))\<rparr>\<rparr>"

lemma communicate_open:
  assumes "\<not> client_is_closed cl"
    and "build_request cl cmd payload (next_invoke_id cl) = Ok request"
  shows "communicate env cmd payload bufs cl =
    (case communicate_registered env cmd (next_invoke_id cl) (next_oneshot cl) request bufs
        (registered cl) of
       (r, cl') \<Rightarrow> (r, upd_shared (drop_pending (next_invoke_id cl)) cl'))"
proof -
  have "build_request (cl\<lparr>next_invoke_id := next_invoke_id cl + 1\<rparr>) cmd payload (next_invoke_id cl)
      = Ok request"
    using assms(2) by (simp add: build_request_eq request_header_def split: if_splits)
  then show ?thesis
    using assms(1)
    by (simp add: communicate_def Let_def register_def client_is_closed_def registered_def)
qed

lemma silent_communicate:
  assumes "silent env" and "tm_write (cl_timeouts cl) = Some tw" and "tm_read (cl_timeouts cl) = Some tr"
    and "\<not> client_is_closed cl" and "32 + length (concat payload) < 2 ^ 32"
  shows "\<exists>cl'. communicate env cmd payload bufs cl = (Err reply_timed_out, cl')
    \<and> consecutive_timeouts cl' = consecutive_timeouts cl + 1
    \<and> cl_timeouts cl' = cl_timeouts cl
    \<and> (client_is_closed cl' \<longleftrightarrow> 3 \<le> consecutive_timeouts cl + 1)"
proof -
  let ?i = "next_invoke_id cl" and ?rx = "next_oneshot cl"
  obtain request where req: "build_request cl cmd payload ?i = Ok request"
    using assms(5) by (auto simp: build_request_eq)
  obtain w1 where w1: "write_all_timed env tw request (registered cl)
      = (InTime (Inr ()), registered cl\<lparr>cl_world := w1\<rparr>)"
    using assms(1) unfolding silent_def by (metis prod.collapse)
  obtain e w2 where w2: "await_reply_timed env tr ?rx (registered cl\<lparr>cl_world := w1\<rparr>)
      = (Elapsed e, registered cl\<lparr>cl_world := w1\<rparr>\<lparr>cl_world := w2\<rparr>)"
    using assms(1) unfolding silent_def by blast
  have "cl_timeouts (registered cl) = cl_timeouts cl"
    by (simp add: registered_def)
  then have "communicate_registered env cmd ?i ?rx request bufs (registered cl)
      = on_reply_timeout (registered cl\<lparr>cl_world := w2\<rparr>)"
    using assms(2,3) w1 w2 by (simp add: communicate_registered_def write_request_def)
  then show ?thesis
    using assms(4) unfolding communicate_open [OF assms(4) req]
    by (simp add: on_reply_timeout_def Let_def MAX_CONSECUTIVE_TIMEOUTS_def registered_def
        client_is_closed_def upd_shared_def drop_pending_def is_closed_def tear_down_fields)
qed

fun requests :: "'w Env \<Rightarrow> (Command \<times> bytes list \<times> bytes list) list \<Rightarrow> 'w Client \<Rightarrow> 'w Client" where
  "requests env [] cl = cl"
| "requests env ((cmd, payload, bufs) # rs) cl = requests env rs (snd (communicate env cmd payload bufs cl))"

lemma requests_closed:
  assumes "client_is_closed cl" and "\<forall>(cmd, payload, bufs) \<in> set rs. 32 + length (concat payload) < 2 ^ 32"
  shows "client_is_closed (requests env rs cl)"
  using assms
proof (induction rs arbitrary: cl)
  case (Cons r rs)
  obtain cmd payload bufs where r: "r = (cmd, payload, bufs)"
    by (cases r)
  have "client_is_closed (snd (communicate env cmd payload bufs cl))"
    using Cons.prems r
    by (simp add: communicate_def build_request_eq Let_def register_def client_is_closed_def)
  with Cons r show ?case
    by simp
qed simp

lemma silent_requests:
  assumes "silent env" and "tm_write (cl_timeouts cl) = Some tw" and "tm_read (cl_timeouts cl) = Some tr"
    and "\<not> client_is_closed cl" and "unat (consecutive_timeouts cl) < 3"
    and "\<forall>(cmd, payload, bufs) \<in> set rs. 32 + length (concat payload) < 2 ^ 32"
  shows "client_is_closed (requests env rs cl) \<longleftrightarrow> 3 \<le> unat (consecutive_timeouts cl) + length rs"
  using assms
proof (induction rs arbitrary: cl)
  case (Cons r rs)
  obtain cmd payload bufs where r: "r = (cmd, payload, bufs)"
    by (cases r)
  have "32 + length (concat payload) < 2 ^ 32"
    using Cons.prems(6) r by simp
  from silent_communicate [OF Cons.prems(1-4) this] obtain cl'
    where cl': "communicate env cmd payload bufs cl = (Err reply_timed_out, cl')"
      "consecutive_timeouts cl' = consecutive_timeouts cl + 1"
      "cl_timeouts cl' = cl_timeouts cl"
      "client_is_closed cl' \<longleftrightarrow> 3 \<le> consecutive_timeouts cl + 1"
    by blast
  have count: "unat (consecutive_timeouts cl + 1) = unat (consecutive_timeouts cl) + 1"
    using Cons.prems(5) by (simp add: unat_word_ariths)
  then have closed': "client_is_closed cl' \<longleftrightarrow> 3 \<le> unat (consecutive_timeouts cl) + 1"
    by (simp add: cl'(4) word_le_nat_alt)
  show ?case
  proof (cases "client_is_closed cl'")
    case True
    then show ?thesis
      using requests_closed [of cl' rs env] Cons.prems(6) closed' r cl' by simp
  next
    case False
    then show ?thesis
      using Cons.IH [of cl'] Cons.prems closed' r cl' count by simp
  qed
qed simp

text \<open>
  C14: a silent peer is given up after three requests. With timeouts configured, a connection
  that has seen no timeout yet stays open during the first two unanswered requests and is
  closed by the third, not earlier and not later; from then on it stays closed.
\<close>

theorem silent_peer_disconnected:
  assumes "silent env" and "tm_write (cl_timeouts cl) = Some tw" and "tm_read (cl_timeouts cl) = Some tr"
    and "\<not> client_is_closed cl" and "consecutive_timeouts cl = 0"
    and "\<forall>(cmd, payload, bufs) \<in> set rs. 32 + length (concat payload) < 2 ^ 32"
  shows "client_is_closed (requests env rs cl) \<longleftrightarrow> 3 \<le> length rs"
  using silent_requests [OF assms(1-4) _ assms(6)] assms(5) by simp

definition silent_env :: "Wire Env" where
  "silent_env = (stream_env (\<lambda>b. []))
     \<lparr>await_reply_timed := (\<lambda>t rx cl. (Elapsed ''deadline has elapsed'', cl))\<rparr>"

lemma silent_silent_env: "silent silent_env"
proof -
  have "\<exists>w. send_to (\<lambda>b. []) b cl = cl\<lparr>cl_world := w\<rparr>" for b cl
    by (auto simp: send_to_def Let_def)
  moreover have "\<exists>w. cl = cl\<lparr>cl_world := w\<rparr>" for cl :: "Wire Client"
    by (rule exI [of _ "cl_world cl"]) simp
  ultimately show ?thesis
    by (simp add: silent_def silent_env_def stream_env_def)
qed

theorem silent_peer_disconnected_witness:
  "\<not> client_is_closed (requests silent_env [(Read, [[1]], [[0]]), (Write, [[1], [2]], [])] demo_client)
   \<and> client_is_closed (requests silent_env
       [(Read, [[1]], [[0]]), (Write, [[1], [2]], []), (Command.ReadState, [], [[0]])] demo_client)"
  using silent_peer_disconnected [OF silent_silent_env, of demo_client 1000 1000
        "[(Read, [[1]], [[0]]), (Write, [[1], [2]], [])]"]
    silent_peer_disconnected [OF silent_silent_env, of demo_client 1000 1000
        "[(Read, [[1]], [[0]]), (Write, [[1], [2]], []), (Command.ReadState, [], [[0]])]"]
  by (simp add: demo_client_def timeouts_new_def client_is_closed_def is_closed_def shared_new_def)

section \<open>A request and its reply\<close>

lemma reader_feed_frames:
  assumes "list_all wf_frame fs" and "process_frames source fs sh = (Ok hs, sh')"
  shows "reader_feed source (concat (map frame_bytes fs)) sh = (Ok (), hs, [], sh')"
  using assms
proof (induction fs arbitrary: sh hs)
  case Nil
  then show ?case
    by (simp add: reader_feed.simps [of source "[]"] read_frame_def socket_read_def)
next
  case (Cons f fs)
  then obtain hs1 sh1 hs2 where step: "handle_frame source (raw f) sh = (Ok hs1, sh1)"
      "process_frames source fs sh1 = (Ok hs2, sh')" "hs = hs1 @ hs2"
    by (auto simp: bindS_def split: prod.splits res.splits)
  have "read_frame (IoSimple UnexpectedEof) (concat (map frame_bytes (f # fs)))
      = Ok (Some (raw f), concat (map frame_bytes fs))"
    using Cons.prems read_frame_bytes by simp
  then show ?case
    using Cons step by (subst reader_feed.simps) simp
qed

text \<open>A connection between two requests: open, nothing unread, no reply waiting to be taken.\<close>

definition idle :: "Wire Client \<Rightarrow> bool" where
  "idle cl \<longleftrightarrow>
     \<not> client_is_closed cl \<and> waiting (cl_shared cl) \<and> reader_alive (cl_world cl)
     \<and> unread (cl_world cl) = []
     \<and> next_invoke_id cl \<notin> fst ` set (commands (cl_shared cl))
     \<and> next_oneshot cl \<notin> snd ` set (commands (cl_shared cl))"

lemma update_append: "k \<notin> fst ` set al \<Longrightarrow> AList.update k v al = al @ [(k, v)]"
  by (induction al) auto

lemma idle_registered:
  assumes "idle cl"
  shows "waiting (cl_shared (registered cl))"
    and "(next_invoke_id cl, next_oneshot cl) \<in> set (commands (cl_shared (registered cl)))"
proof -
  have "AList.update (next_invoke_id cl) (next_oneshot cl) (commands (cl_shared cl))
      = commands (cl_shared cl) @ [(next_invoke_id cl, next_oneshot cl)]"
    using assms by (simp add: idle_def update_append)
  with assms show "waiting (cl_shared (registered cl))"
    "(next_invoke_id cl, next_oneshot cl) \<in> set (commands (cl_shared (registered cl)))"
    by (simp_all add: registered_def idle_def waiting_def)
qed

lemma pump_answered:
  assumes "idle cl" and "list_all (\<lambda>f. wf_frame f \<and> harmless (cl_source cl) f) fs"
    and "peer request = concat (map frame_bytes fs)"
    and "find (answers (cl_source cl) (next_invoke_id cl)) fs = Some f"
  shows "\<exists>w sh hs. pump (send_to peer request (registered cl)) = registered cl\<lparr>cl_world := w, cl_shared := sh\<rparr>
    \<and> sent w = sent (cl_world cl) @ [request] \<and> unread w = [] \<and> reader_alive w
    \<and> process_frames (cl_source cl) fs (cl_shared (registered cl)) = (Ok hs, sh)
    \<and> replies sh (next_oneshot cl) = Some (Inr f)"
proof -
  let ?sh = "cl_shared (registered cl)"
  have passing: "list_all (passing (cl_source cl)) fs"
    using assms(2) passingI by (auto simp: list_all_iff)
  obtain hs sh' where fs: "process_frames (cl_source cl) fs ?sh = (Ok hs, sh')"
    using process_frames_harmless [OF passing] by blast
  have feed: "reader_feed (cl_source cl) (concat (map frame_bytes fs)) ?sh = (Ok (), hs, [], sh')"
    using assms(2) fs by (intro reader_feed_frames) (auto simp: list_all_iff)
  have "settled sh' (Some (Inr f)) (next_oneshot cl)"
    using process_frames_channel [OF passing idle_registered(1) [OF assms(1)] fs,
        of "next_oneshot cl" "next_invoke_id cl"]
      idle_registered(2) [OF assms(1)] assms(4) by simp
  moreover have "pump (send_to peer request (registered cl)) = registered cl
      \<lparr>cl_world := (cl_world cl)\<lparr>unread := [], sent := sent (cl_world cl) @ [request],
         reader_alive := True, orphans := orphans (cl_world cl) @ hs\<rparr>, cl_shared := sh'\<rparr>"
    using assms(1,3) feed
    by (simp add: pump_def send_to_def Let_def idle_def registered_def)
  ultimately show ?thesis
    using fs by (intro exI conjI) (auto simp: settled_def)
qed

lemma communicate_exact:
  assumes "idle cl" and "build_request cl cmd payload (next_invoke_id cl) = Ok request"
    and "list_all (\<lambda>f. wf_frame f \<and> harmless (cl_source cl) f) fs"
    and "peer request = concat (map frame_bytes fs)"
    and "find (answers (cl_source cl) (next_invoke_id cl)) fs = Some (h, p)"
  shows "\<exists>w sh hs. communicate (stream_env peer) cmd payload bufs cl
      = (check_reply (cl_target cl) cmd (next_invoke_id cl) h p bufs,
         registered cl\<lparr>cl_world := w, cl_shared := drop_pending (next_invoke_id cl) sh,
           consecutive_timeouts := 0\<rparr>)
    \<and> sent w = sent (cl_world cl) @ [request] \<and> unread w = [] \<and> reader_alive w
    \<and> process_frames (cl_source cl) fs (cl_shared (registered cl)) = (Ok hs, sh)"
proof -
  obtain w sh hs where pump: "pump (send_to peer request (registered cl))
      = registered cl\<lparr>cl_world := w, cl_shared := sh\<rparr>" "replies sh (next_oneshot cl) = Some (Inr (h, p))"
    and after: "sent w = sent (cl_world cl) @ [request] \<and> unread w = [] \<and> reader_alive w
      \<and> process_frames (cl_source cl) fs (cl_shared (registered cl)) = (Ok hs, sh)"
    using pump_answered [where peer = peer and request = request, OF assms(1,3,4,5)] by blast
  have wrote: "write_request (stream_env peer) request c = (Ok (), send_to peer request c)" for c
    by (simp add: write_request_def stream_env_simps split: option.split)
  have "cl_target (registered cl) = cl_target cl"
    by (simp add: registered_def)
  then have "communicate_registered (stream_env peer) cmd (next_invoke_id cl) (next_oneshot cl)
        request bufs (registered cl)
      = (check_reply (cl_target cl) cmd (next_invoke_id cl) h p bufs,
         registered cl\<lparr>cl_world := w, cl_shared := sh, consecutive_timeouts := 0\<rparr>)"
    using pump
    by (simp add: communicate_registered_def wrote on_reply_def stream_env_simps split: option.split)
  moreover have "\<not> client_is_closed cl"
    using assms(1) by (simp add: idle_def)
  ultimately have "communicate (stream_env peer) cmd payload bufs cl
      = (check_reply (cl_target cl) cmd (next_invoke_id cl) h p bufs,
         registered cl\<lparr>cl_world := w, cl_shared := drop_pending (next_invoke_id cl) sh,
           consecutive_timeouts := 0\<rparr>)"
    using communicate_open [OF _ assms(2), of "stream_env peer" bufs]
    by (simp add: upd_shared_def)
  with after show ?thesis by blast
qed

lemma communicate_check:
  assumes "idle cl" and "build_request cl cmd payload (next_invoke_id cl) = Ok request"
    and "list_all (\<lambda>f. wf_frame f \<and> harmless (cl_source cl) f) fs"
    and "peer request = concat (map frame_bytes fs)"
    and "find (answers (cl_source cl) (next_invoke_id cl)) fs = Some (h, p)"
  shows "let (r, cl') = communicate (stream_env peer) cmd payload bufs cl
    in r = check_reply (cl_target cl) cmd (next_invoke_id cl) h p bufs
      \<and> sent (cl_world cl') = sent (cl_world cl) @ [request]
      \<and> consecutive_timeouts cl' = 0"
  using communicate_exact [where peer = peer and request = request and bufs = bufs, OF assms] by auto

text \<open>
  C2: a call gets the outcome of its own reply. On an idle connection, when the peer's frames
  contain an answer to the request, in whatever company, \<open>communicate\<close> sends exactly the
  request it built and returns the check of the first frame that answers its invoke ID; the
  count of unanswered requests starts again.
\<close>

theorem communicate_answered:
  assumes "idle cl" and "build_request cl cmd payload (next_invoke_id cl) = Ok request"
    and "list_all (\<lambda>f. wf_frame f \<and> harmless (cl_source cl) f) fs"
    and "peer request = concat (map frame_bytes fs)"
    and "find (answers (cl_source cl) (next_invoke_id cl)) fs = Some (h, p)"
  shows "let (r, cl') = communicate (stream_env peer) cmd payload bufs cl
    in r = check_reply (cl_target cl) cmd (next_invoke_id cl) h p bufs
      \<and> sent (cl_world cl') = sent (cl_world cl) @ [request]
      \<and> consecutive_timeouts cl' = 0"
  by (rule communicate_check [where peer = peer and request = request, OF assms])

definition demo_reply :: AdsHeader where
  "demo_reply = (reply_header 1)\<lparr>command := 2, hdr_length := 44, data_length := 12\<rparr>"

definition demo_peer :: "bytes \<Rightarrow> bytes" where
  "demo_peer request = concat (map frame_bytes
     [(reply_header 9, [0, 0, 0, 0]), (demo_reply, [0, 0, 0, 0, 4, 0, 0, 0, 1, 2, 3, 4])])"

lemma demo_fields:
  "cl_source demo_client = AmsAddr netid_local 30000" "cl_target demo_client = AmsAddr netid_local 851"
  "next_invoke_id demo_client = 1"
  by (simp_all add: demo_client_def)

lemma idle_demo: "idle demo_client"
  by (simp add: idle_def demo_client_def client_is_closed_def is_closed_def shared_new_def waiting_def)

theorem communicate_answered_witness:
  "let (r, cl') = communicate (stream_env demo_peer) Read [[7]] [[0, 0, 0, 0], [9, 9]] demo_client
   in r = Ok (8, [[4, 0, 0, 0], [1, 2]]) \<and> consecutive_timeouts cl' = 0"
proof -
  obtain request where "build_request demo_client Read [[7]] 1 = Ok request"
    by (auto simp: build_request_eq)
  then show ?thesis
    using communicate_answered [of demo_client Read "[[7]]" request
        "[(reply_header 9, [0, 0, 0, 0]), (demo_reply, [0, 0, 0, 0, 4, 0, 0, 0, 1, 2, 3, 4])]"
        demo_peer demo_reply "[0, 0, 0, 0, 4, 0, 0, 0, 1, 2, 3, 4]" "[[0, 0, 0, 0], [9, 9]]"]
    by (simp add: idle_demo demo_peer_def demo_reply_def reply_header_def demo_fields
        check_reply_def case_prod_beta Let_def)
qed

lemma read_exact_reply:
  assumes "idle cl" and "length data = length buf" and "length buf < 2 ^ 32"
    and "build_request cl Read [as_bytes_IndexLength \<lparr>il_index_group = g, il_index_offset = off,
           il_length = of_nat (length buf)\<rparr>] (next_invoke_id cl) = Ok request"
    and "list_all (\<lambda>f. wf_frame f \<and> harmless (cl_source cl) f) fs"
    and "peer request = concat (map frame_bytes fs)"
    and "find (answers (cl_source cl) (next_invoke_id cl)) fs
      = Some (h, [0, 0, 0, 0] @ to_le_bytes (of_nat (length data) :: u32) @ data)"
    and "reply_matches (cl_target cl) Read (next_invoke_id cl) h" and "error_code h = 0"
  shows "fst (client_read_exact (stream_env peer) g off buf cl) = Ok data"
proof -
  let ?p = "[0, 0, 0, 0] @ to_le_bytes (of_nat (length data) :: u32) @ data"
  let ?bufs = "[to_le_bytes (0 :: u32), buf]"
  have "check_reply (cl_target cl) Read (next_invoke_id cl) h ?p ?bufs
      = Ok (4 + length data, [to_le_bytes (of_nat (length data) :: u32), data])"
    using assms(2,8,9) by (auto simp: check_reply_eq_Ok length_to_le_bytes distribute_Cons)
  then obtain cl' where "communicate (stream_env peer) Read [as_bytes_IndexLength \<lparr>il_index_group = g,
        il_index_offset = off, il_length = of_nat (length buf)\<rparr>] ?bufs cl
      = (Ok (4 + length data, [to_le_bytes (of_nat (length data) :: u32), data]), cl')"
    using communicate_check [where peer = peer and request = request and bufs = ?bufs,
        OF assms(1,4,5,6,7)] by (auto simp: Let_def split: prod.splits)
  then show ?thesis
    using assms(2,3)
    by (simp add: client_read_exact_def client_read_def u32_try_from_def bindS_def from_to_le_bytes
        unat_of_nat_u32)
qed

text \<open>
  Reading data works end to end. When the peer answers the read request with a reply of
  the result field, the length and the data, all of the size asked for, \<open>read_exact\<close> returns
  exactly that data.
\<close>

theorem read_exact_answered:
  assumes "idle cl" and "length data = length buf" and "length buf < 2 ^ 32"
    and "build_request cl Read [as_bytes_IndexLength \<lparr>il_index_group = g, il_index_offset = off,
           il_length = of_nat (length buf)\<rparr>] (next_invoke_id cl) = Ok request"
    and "list_all (\<lambda>f. wf_frame f \<and> harmless (cl_source cl) f) fs"
    and "peer request = concat (map frame_bytes fs)"
    and "find (answers (cl_source cl) (next_invoke_id cl)) fs
      = Some (h, [0, 0, 0, 0] @ to_le_bytes (of_nat (length data) :: u32) @ data)"
    and "reply_matches (cl_target cl) Read (next_invoke_id cl) h" and "error_code h = 0"
  shows "fst (client_read_exact (stream_env peer) g off buf cl) = Ok data"
  by (rule read_exact_reply [where peer = peer and request = request, OF assms])

theorem read_exact_answered_witness:
  "fst (client_read_exact (stream_env demo_peer) 0x4020 0 [0, 0, 0, 0] demo_client) = Ok [1, 2, 3, 4]"
proof -
  obtain request where "build_request demo_client Read [as_bytes_IndexLength
      \<lparr>il_index_group = 0x4020, il_index_offset = 0, il_length = 4\<rparr>] 1 = Ok request"
    by (auto simp: build_request_eq as_bytes_IndexLength_def length_to_le_bytes)
  then show ?thesis
    using read_exact_answered [of demo_client "[1, 2, 3, 4]" "[0, 0, 0, 0]" "0x4020" 0 request
        "[(reply_header 9, [0, 0, 0, 0]), (demo_reply, [0, 0, 0, 0, 4, 0, 0, 0, 1, 2, 3, 4])]"
        demo_peer demo_reply]
    by (simp add: idle_demo demo_peer_def demo_reply_def reply_header_def demo_fields
        reply_matches_def to_le_bytes_def)
qed

end
