(* ===== verification/Dial.thy ===== *)
theory Dial
  imports Session
begin

text \<open>
  Opening a connection (\<open>Client::new\<close> of \<open>src/core/client.rs\<close>).

  The network is a parameter: the functions of \<open>Dialer\<close> are the socket calls, plain and under
  \<open>tokio::time::timeout\<close>; \<open>'n\<close> is the state of the network outside any connection, \<open>'w\<close> the
  state of the connection. A \<open>read\<close> into the reply buffer gives the bytes it read.
\<close>

record ('r, 'n, 'w) Dialer =
  tcp_connect :: "'r \<Rightarrow> 'n \<Rightarrow> (io_error + 'w) \<times> 'n"
  tcp_connect_timed :: "nat \<Rightarrow> 'r \<Rightarrow> 'n \<Rightarrow> (io_error + 'w) timeout_result \<times> 'n"
  set_nodelay :: "'w \<Rightarrow> (io_error + unit) \<times> 'w"
  socket_write_all :: "bytes \<Rightarrow> 'w \<Rightarrow> (io_error + unit) \<times> 'w"
  socket_write_all_timed :: "nat \<Rightarrow> bytes \<Rightarrow> 'w \<Rightarrow> (io_error + unit) timeout_result \<times> 'w"
  socket_read_some :: "nat \<Rightarrow> 'w \<Rightarrow> (io_error + bytes) \<times> 'w"
  socket_read_some_timed :: "nat \<Rightarrow> nat \<Rightarrow> 'w \<Rightarrow> (io_error + bytes) timeout_result \<times> 'w"

definition open_socket :: "('r, 'n, 'w) Dialer \<Rightarrow> 'r \<Rightarrow> Timeouts \<Rightarrow> ('n, 'w) op" where
  "open_socket dialer router_addr timeouts net =
     (case tm_connect timeouts of
        Some t \<Rightarrow>
          (case tcp_connect_timed dialer t router_addr net of (r, net) \<Rightarrow>
             (ctx_timeout ''establishing connection to remote ADS router (with timeout)'' r, net))
      | None \<Rightarrow>
          (case tcp_connect dialer router_addr net of (r, net) \<Rightarrow>
             (ctx_io ''establishing connection to remote ADS router'' r, net)))"

definition disable_nagle :: "('r, 'n, 'w) Dialer \<Rightarrow> ('w, unit) op" where
  "disable_nagle dialer w =
     (case set_nodelay dialer w of (r, w) \<Rightarrow> (ctx_io ''setting client socket NODELAY'' r, w))"

definition request_port_msg :: bytes where
  "request_port_msg = [0, 16, 2, 0, 0, 0, 0, 0]"

definition send_port_request :: "('r, 'n, 'w) Dialer \<Rightarrow> Timeouts \<Rightarrow> ('w, unit) op" where
  "send_port_request dialer timeouts w =
     (case tm_write timeouts of
        Some t \<Rightarrow>
          (case socket_write_all_timed dialer t request_port_msg w of (r, w) \<Rightarrow>
             (ctx_timeout ''requesting port from router (with timeout)'' r, w))
      | None \<Rightarrow>
          (case socket_write_all dialer request_port_msg w of (r, w) \<Rightarrow>
             (ctx_io ''requesting port from router'' r, w)))"

text \<open>One \<open>read\<close> of at most 14 bytes: what it does not fill stays zero.\<close>

definition fill_reply :: "bytes \<Rightarrow> bytes" where
  "fill_reply bs = take 14 bs @ replicate (14 - length bs) 0"

definition read_port_reply :: "('r, 'n, 'w) Dialer \<Rightarrow> Timeouts \<Rightarrow> ('w, bytes) op" where
  "read_port_reply dialer timeouts w =
     (case tm_read timeouts of
        Some t \<Rightarrow>
          (case socket_read_some_timed dialer t 14 w of (r, w) \<Rightarrow>
             (mapR fill_reply (ctx_timeout ''requesting port from router (with timeout)'' r), w))
      | None \<Rightarrow>
          (case socket_read_some dialer 14 w of (r, w) \<Rightarrow>
             (mapR fill_reply (ctx_io ''requesting port from router'' r), w)))"

definition source_of_reply :: "bytes \<Rightarrow> AmsAddr res" where
  "source_of_reply reply =
     (if take 6 reply \<noteq> [0, 16, 8, 0, 0, 0]
      then Err (Reply ''requesting port'' ''unexpected reply header'' 0)
      else case from_slice (slice 6 6 reply) of
        Some nid \<Rightarrow> Ok (AmsAddr nid (from_le_bytes (slice 12 2 reply)))
      | None \<Rightarrow> Panic)"

definition request_source :: "('r, 'n, 'w) Dialer \<Rightarrow> Timeouts \<Rightarrow> ('w, AmsAddr) op" where
  "request_source dialer timeouts =
     bindS (send_port_request dialer timeouts) (\<lambda>_.
     bindS (read_port_reply dialer timeouts) (\<lambda>reply.
     returnS (source_of_reply reply)))"

text \<open>The address to use as the source, and whether a port was opened for it.\<close>

definition determine_source ::
  "('r, 'n, 'w) Dialer \<Rightarrow> AmsAddr option \<Rightarrow> Timeouts \<Rightarrow> ('w, AmsAddr \<times> bool) op" where
  "determine_source dialer source timeouts =
     (case source of
        Some addr \<Rightarrow> returnS (Ok (addr, False))
      | None \<Rightarrow> bindS (request_source dialer timeouts) (\<lambda>addr. returnS (Ok (addr, True))))"

definition client_new ::
  "('r, 'n, 'w) Dialer \<Rightarrow> 'r \<Rightarrow> AmsAddr \<Rightarrow> AmsAddr option \<Rightarrow> Timeouts \<Rightarrow> ('n, 'w Client) op" where
  "client_new dialer router_addr target source timeouts =
     bindS (open_socket dialer router_addr timeouts) (\<lambda>w net.
       (case bindS (disable_nagle dialer) (\<lambda>_. determine_source dialer source timeouts) w of
          (Ok (addr, opened), w) \<Rightarrow>
            (Ok \<lparr>cl_source = addr, cl_target = target, cl_timeouts = timeouts,
                 source_port_opened = opened, next_invoke_id = 1, consecutive_timeouts = 0,
                 cl_shared = shared_new, next_oneshot = 0, next_channel = 0, cl_world = w\<rparr>, net)
        | (Err e, w) \<Rightarrow> (Err e, net)
        | (Panic, w) \<Rightarrow> (Panic, net)))"

section \<open>What a new client is\<close>

text \<open>
  A client that was opened is fresh. It has the target and the timeouts asked for and the
  source given, opens a port with the router exactly when no source is given, is not closed,
  waits for nothing, has no subscriber, and numbers its requests from one.
\<close>

theorem new_client_fresh:
  assumes "client_new dialer router_addr target source timeouts net = (Ok cl, net')"
  shows "cl_target cl = target \<and> cl_timeouts cl = timeouts
    \<and> (source_port_opened cl \<longleftrightarrow> source = None) \<and> (\<forall>addr. source = Some addr \<longrightarrow> cl_source cl = addr)
    \<and> \<not> client_is_closed cl \<and> commands (cl_shared cl) = [] \<and> subscribers (cl_shared cl) = []
    \<and> next_invoke_id cl = 1 \<and> consecutive_timeouts cl = 0"
  using assms
  by (auto simp: client_new_def bindS_def determine_source_def client_is_closed_def is_closed_def shared_new_def
      split: prod.splits res.splits option.splits)

lemma fill_reply_parts:
  assumes "take 6 got = [0, 16, 8, 0, 0, 0]" and "length got \<le> 14"
  shows "take 6 (fill_reply got) = [0, 16, 8, 0, 0, 0]" "length (fill_reply got) = 14"
    "drop 6 (fill_reply got) = drop 6 got @ replicate (14 - length got) 0"
proof -
  have "6 \<le> length got"
    using arg_cong [OF assms(1), of length] by simp
  then show "take 6 (fill_reply got) = [0, 16, 8, 0, 0, 0]" "length (fill_reply got) = 14"
    "drop 6 (fill_reply got) = drop 6 got @ replicate (14 - length got) 0"
    using assms by (simp_all add: fill_reply_def)
qed

text \<open>
  C33: the source address is what one read of the router's reply gives, padded with zeros. A
  complete reply of 14 bytes gives the address in it; when the reply comes in pieces, the
  bytes still missing count as zeros and the client goes on with that address.
\<close>

theorem port_reply_address:
  assumes "take 6 got = [0, 16, 8, 0, 0, 0]" and "length got \<le> 14"
  shows "\<exists>addr. source_of_reply (fill_reply got) = Ok addr
    \<and> octets (netid addr) @ to_le_bytes (port addr) = drop 6 got @ replicate (14 - length got) 0"
proof -
  let ?reply = "fill_reply got"
  note parts = fill_reply_parts [OF assms]
  obtain n where n: "from_slice (slice 6 6 ?reply) = Some n"
    using from_slice_eq_None [of "slice 6 6 ?reply"] parts(2) by (cases "from_slice (slice 6 6 ?reply)") auto
  let ?addr = "AmsAddr n (from_le_bytes (slice 12 2 ?reply))"
  have "octets (netid ?addr) @ to_le_bytes (port ?addr) = slice 6 6 ?reply @ slice 12 2 ?reply"
    using n parts(2) by (simp add: from_slice_eq_Some to_from_le_bytes)
  also have "\<dots> = drop 6 ?reply"
    using parts(2) by (simp add: slice_joins) (simp add: slice_def)
  finally show ?thesis
    using n parts(1,3) by (intro exI [of _ ?addr]) (simp add: source_of_reply_def)
qed

section \<open>Samples\<close>

text \<open>A network on which every call succeeds and the router's reply comes in one piece.\<close>

definition demo_wire :: Wire where
  "demo_wire = \<lparr>unread = [], sent = [], reader_alive = True, orphans = []\<rparr>"

definition demo_dialer :: "bytes \<Rightarrow> (string, unit, Wire) Dialer" where
  "demo_dialer reply =
     \<lparr>tcp_connect = (\<lambda>r net. (Inr demo_wire, net)),
      tcp_connect_timed = (\<lambda>t r net. (InTime (Inr demo_wire), net)),
      set_nodelay = (\<lambda>w. (Inr (), w)),
      socket_write_all = (\<lambda>b w. (Inr (), w\<lparr>sent := sent w @ [b]\<rparr>)),
      socket_write_all_timed = (\<lambda>t b w. (InTime (Inr ()), w\<lparr>sent := sent w @ [b]\<rparr>)),
      socket_read_some = (\<lambda>n w. (Inr (take n reply), w)),
      socket_read_some_timed = (\<lambda>t n w. (InTime (Inr (take n reply)), w))\<rparr>"

lemma demo_dialed:
  "\<exists>cl. client_new (demo_dialer [0, 16, 8, 0, 0, 0, 127, 0, 0, 1, 1, 1, 0, 128]) ''router''
     (AmsAddr netid_local 851) None (timeouts_new 1000) () = (Ok cl, ())
   \<and> cl_source cl = AmsAddr (AmsNetId 127 0 0 1 1 1) 32768
   \<and> sent (cl_world cl) = [[0, 16, 2, 0, 0, 0, 0, 0]]"
  by (simp add: client_new_def bindS_def open_socket_def disable_nagle_def determine_source_def
      request_source_def send_port_request_def read_port_reply_def source_of_reply_def fill_reply_def
      demo_dialer_def demo_wire_def timeouts_new_def request_port_msg_def slice_def from_le_bytes_def)

theorem new_client_fresh_witness:
  "\<exists>cl. client_new (demo_dialer [0, 16, 8, 0, 0, 0, 127, 0, 0, 1, 1, 1, 0, 128]) ''router''
     (AmsAddr netid_local 851) None (timeouts_new 1000) () = (Ok cl, ())
   \<and> source_port_opened cl \<and> \<not> client_is_closed cl \<and> next_invoke_id cl = 1"
  using demo_dialed new_client_fresh [where dialer = "demo_dialer [0, 16, 8, 0, 0, 0, 127, 0, 0, 1, 1, 1, 0, 128]"]
  by blast

theorem port_reply_address_witness:
  "\<exists>addr. source_of_reply (fill_reply [0, 16, 8, 0, 0, 0, 192, 168]) = Ok addr
     \<and> octets (netid addr) @ to_le_bytes (port addr) = [192, 168, 0, 0, 0, 0, 0, 0]"
  using port_reply_address [of "[0, 16, 8, 0, 0, 0, 192, 168]"] by (simp add: eval_nat_numeral)

end
