(* ===== verification/Connection.thy ===== *)
theory Connection
  imports Dial
begin

text \<open>
  The connection (\<open>src/connection.rs\<close>): disconnected, or a client that may have been closed.

  An \<open>Arc<Client>\<close> is a number: callers keep the client they were given when the connection
  moves on to another one, so \<open>clients\<close> is a store of all clients that were opened. The variant
  \<open>AdsConnection::Disconnected\<close> is named \<open>NotConnected\<close>.
\<close>

datatype AdsConnection = Connected nat | NotConnected

record ('n, 'w) Conn =
  conn :: AdsConnection
  clients :: "nat \<Rightarrow> 'w Client"
  next_client :: nat
  net :: 'n

definition conn_client :: "('n, 'w) Conn \<Rightarrow> nat option" where
  "conn_client st =
     (case conn st of
        Connected c \<Rightarrow> if \<not> client_is_closed (clients st c) then Some c else None
      | NotConnected \<Rightarrow> None)"

definition conn_is_connected :: "('n, 'w) Conn \<Rightarrow> bool" where
  "conn_is_connected st \<longleftrightarrow> conn_client st \<noteq> None"

definition upd_client :: "nat \<Rightarrow> 'w Client \<Rightarrow> ('n, 'w) Conn \<Rightarrow> ('n, 'w) Conn" where
  "upd_client c cl st = st\<lparr>clients := (clients st)(c := cl)\<rparr>"

definition conn_disconnect :: "'w Env \<Rightarrow> ('n, 'w) Conn \<Rightarrow> ('n, 'w) Conn" where
  "conn_disconnect env st =
     (case conn st of
        Connected c \<Rightarrow> (upd_client c (close env (clients st c)) st)\<lparr>conn := NotConnected\<rparr>
      | NotConnected \<Rightarrow> st)"

definition is_run_mode :: "'w Env \<Rightarrow> ('w Client, bool) op" where
  "is_run_mode env =
     bindS (read_state env) (\<lambda>state_info. returnS (Ok (ads_state state_info = Run)))"

definition set_to_run_mode :: "'w Env \<Rightarrow> ('w Client, unit) op" where
  "set_to_run_mode env =
     bindS (read_device_info env) (\<lambda>device_info.
     bindS (read_state env) (\<lambda>state_info.
     if ads_state state_info \<noteq> Run then
       bindS (write_control env Run (device_state state_info)) (\<lambda>_.
       bindS (read_state env) (\<lambda>state_info.
       if ads_state state_info \<noteq> Run
       then returnS (Err (Other ''failed to set PLC to run mode!''))
       else returnS (Ok ())))
     else returnS (Ok ())))"

definition ensure_run_mode :: "'w Env \<Rightarrow> bool \<Rightarrow> ('w Client, unit) op" where
  "ensure_run_mode env set_run_mode =
     bindS (is_run_mode env) (\<lambda>run_mode.
     if run_mode then returnS (Ok ())
     else if set_run_mode then set_to_run_mode env
     else returnS (Err (Other ''PLC not in run mode'')))"

definition conn_connect ::
  "'w Env \<Rightarrow> ('r, 'n, 'w) Dialer \<Rightarrow> 'r \<Rightarrow> AmsAddr \<Rightarrow> AmsAddr option \<Rightarrow> Timeouts \<Rightarrow> bool
   \<Rightarrow> (('n, 'w) Conn, unit) op" where
  "conn_connect env dialer router target source timeouts set_run_mode st =
     (if conn_is_connected st then (Ok (), st)
      else
        let st = conn_disconnect env st
        in case client_new dialer router target source timeouts (net st) of
             (Err e, n) \<Rightarrow> (Err e, st\<lparr>net := n\<rparr>)
           | (Panic, n) \<Rightarrow> (Panic, st\<lparr>net := n\<rparr>)
           | (Ok cl, n) \<Rightarrow>
               let c = next_client st;
                   st = st\<lparr>net := n, next_client := c + 1\<rparr>
               in case ensure_run_mode env set_run_mode cl of
                    (Err e, cl) \<Rightarrow> (Err e, upd_client c (close env cl) st)
                  | (Panic, cl) \<Rightarrow> (Panic, upd_client c cl st)
                  | (Ok _, cl) \<Rightarrow> (Ok (), (upd_client c cl st)\<lparr>conn := Connected c\<rparr>))"

section \<open>Connecting\<close>

lemma closed_close [simp]: "client_is_closed (close env cl)"
  by (simp add: close_def client_is_closed_def upd_shared_def Let_def)

lemma conn_disconnect_idle [simp]: "conn (conn_disconnect env st) = NotConnected"
  by (simp add: conn_disconnect_def split: AdsConnection.split)

lemma bindS_eq_Ok: "bindS m f s = (Ok y, s') \<longleftrightarrow> (\<exists>x s1. m s = (Ok x, s1) \<and> f x s1 = (Ok y, s'))"
  by (auto simp: bindS_def split: prod.split res.split)

text \<open>Whenever \<open>ensure_run_mode\<close> is content, the last thing it read is the run state.\<close>

lemma ensure_run_mode_reads:
  assumes "ensure_run_mode env set_run_mode cl = (Ok u, cl')"
  shows "\<exists>cl1 info. read_state env cl1 = (Ok info, cl') \<and> ads_state info = Run"
  using assms
  by (auto simp: ensure_run_mode_def is_run_mode_def set_to_run_mode_def bindS_eq_Ok split: if_splits)

text \<open>
  C9: connecting succeeds only on a PLC in run mode. When \<open>connect\<close> opens a new connection, the
  last reply it got from the PLC said it is in run mode, and it now serves that client; when
  it fails, nothing is connected, the client it had before is closed, and so is a client whose
  run mode could not be ensured.
\<close>

theorem connect_outcome:
  assumes "conn_connect env dialer router target source timeouts set_run_mode st = (r, st')"
    and "\<not> conn_is_connected st"
  shows "(r = Ok () \<longrightarrow>
      (\<exists>cl1 info. conn st' = Connected (next_client st) \<and> ads_state info = Run
        \<and> read_state env cl1 = (Ok info, clients st' (next_client st))))
    \<and> (\<forall>e. r = Err e \<longrightarrow> conn st' = NotConnected
        \<and> (\<forall>c. next_client st \<le> c \<and> c < next_client st' \<longrightarrow> client_is_closed (clients st' c))
        \<and> (\<forall>c. conn st = Connected c \<and> c < next_client st \<longrightarrow> client_is_closed (clients st' c)))"
proof -
  let ?st = "conn_disconnect env st"
  have idle: "conn ?st = NotConnected" "next_client ?st = next_client st"
    by (simp_all add: conn_disconnect_def upd_client_def split: AdsConnection.split)
  have old: "client_is_closed (clients ?st c)" if "conn st = Connected c" for c
    by (simp add: conn_disconnect_def upd_client_def that)
  obtain r1 n where new: "client_new dialer router target source timeouts (net ?st) = (r1, n)"
    by fastforce
  show ?thesis
  proof (cases r1)
    case (Ok cl)
    obtain r2 cl2 where run: "ensure_run_mode env set_run_mode cl = (r2, cl2)"
      by fastforce
    show ?thesis
      using assms new Ok run idle old ensure_run_mode_reads [of env set_run_mode cl "()" cl2]
      by (cases r2; auto simp: conn_connect_def Let_def upd_client_def; blast)
  qed (use assms new idle old in \<open>auto simp: conn_connect_def Let_def\<close>)
qed

section \<open>Samples\<close>

definition demo_conn :: "(unit, Wire) Conn" where
  "demo_conn =
     \<lparr>conn = Connected 0, clients = (\<lambda>c. demo_client\<lparr>cl_shared := tear_down Disconnected shared_new\<rparr>),
      next_client = 1, net = ()\<rparr>"

theorem connect_outcome_witness:
  "conn (snd (conn_connect silent_env (demo_dialer [1]) ''router'' (AmsAddr netid_local 851) None
     (timeouts_new 1000) True demo_conn)) = NotConnected"
proof -
  let ?r = "conn_connect silent_env (demo_dialer [1]) ''router'' (AmsAddr netid_local 851) None
     (timeouts_new 1000) True demo_conn"
  have idle: "\<not> conn_is_connected demo_conn"
    by (simp add: conn_is_connected_def conn_client_def demo_conn_def client_is_closed_def)
  have "fst ?r = Err (Reply ''requesting port'' ''unexpected reply header'' 0)"
    using idle
    by (simp add: conn_connect_def client_new_def bindS_def open_socket_def disable_nagle_def
        determine_source_def request_source_def send_port_request_def read_port_reply_def
        source_of_reply_def fill_reply_def demo_dialer_def timeouts_new_def)
  then obtain st' where failed: "?r = (Err (Reply ''requesting port'' ''unexpected reply header'' 0), st')"
    by (cases ?r) simp
  show ?thesis
    using connect_outcome [OF failed idle] by (simp add: failed)
qed

end
