(* ===== verification/Ads.thy ===== *)
theory Ads
  imports SymbolMap DataTypes Connection
begin

text \<open>
  The facade (\<open>src/ads.rs\<close>): a connection, the cache of symbol handles, and the operations on
  symbols. The settings of the builder are the fields of \<open>AdsBuilder\<close>.

  Other tasks share an \<open>Ads\<close>: while a call waits for the PLC, neither mutex is held, and
  \<open>others\<close> says what the other tasks did to the shared state in the meantime. Name resolution,
  the network, \<open>str::to_lowercase\<close> (whose Unicode tables are not in the program) and the
  conversions of floats are parameters; log messages are left out.
\<close>

section \<open>The builder\<close>

record 'r AdsBuilder =
  ab_router :: 'r
  ab_target :: AmsAddr
  ab_source :: "AmsAddr option"
  ab_timeouts :: Timeouts
  ab_set_to_run_mode :: bool

text \<open>\<open>Timeouts::default()\<close>, which derives to no timeouts.\<close>

definition builder_new :: "AmsAddr \<Rightarrow> ((u8 \<times> u8 \<times> u8 \<times> u8) \<times> u16) AdsBuilder" where
  "builder_new target =
     \<lparr>ab_router = ((127, 0, 0, 1), 48898), ab_target = target, ab_source = None,
      ab_timeouts = timeouts_none, ab_set_to_run_mode = False\<rparr>"

definition builder_router :: "'s \<Rightarrow> 'r AdsBuilder \<Rightarrow> 's AdsBuilder" where
  "builder_router router b =
     \<lparr>ab_router = router, ab_target = ab_target b, ab_source = ab_source b,
      ab_timeouts = ab_timeouts b, ab_set_to_run_mode = ab_set_to_run_mode b\<rparr>"

definition builder_source :: "AmsAddr \<Rightarrow> 'r AdsBuilder \<Rightarrow> 'r AdsBuilder" where
  "builder_source source b = b\<lparr>ab_source := Some source\<rparr>"

definition builder_timeouts :: "Timeouts \<Rightarrow> 'r AdsBuilder \<Rightarrow> 'r AdsBuilder" where
  "builder_timeouts timeouts b = b\<lparr>ab_timeouts := timeouts\<rparr>"

definition builder_set_to_run_mode :: "bool \<Rightarrow> 'r AdsBuilder \<Rightarrow> 'r AdsBuilder" where
  "builder_set_to_run_mode m b = b\<lparr>ab_set_to_run_mode := m\<rparr>"

section \<open>The facade\<close>

record ('a, 'n, 'w) Ads =
  router_addresses :: "'a list"
  ads_target :: AmsAddr
  ads_source :: "AmsAddr option"
  ads_timeouts :: Timeouts
  ads_set_to_run_mode :: bool
  connection :: "('n, 'w) Conn"
  symbol_handles :: "string \<Rightarrow> u32 option"

record ('a, 'n, 'w) AdsEnv =
  client_env :: "'w Env"
  dialer :: "('a list, 'n, 'w) Dialer"
  others :: "('a, 'n, 'w) Ads \<Rightarrow> ('a, 'n, 'w) Ads"

definition ads_new ::
  "('r \<Rightarrow> io_error + 'a list) \<Rightarrow> ('n, 'w) Conn \<Rightarrow> 'r \<Rightarrow> AmsAddr \<Rightarrow> AmsAddr option \<Rightarrow> Timeouts \<Rightarrow> bool
   \<Rightarrow> io_error + ('a, 'n, 'w) Ads" where
  "ads_new lookup_host st router target source timeouts set_run_mode =
     (case lookup_host router of
        Inl e \<Rightarrow> Inl e
      | Inr addrs \<Rightarrow>
          Inr \<lparr>router_addresses = addrs, ads_target = target, ads_source = source,
               ads_timeouts = timeouts, ads_set_to_run_mode = set_run_mode,
               connection = st\<lparr>conn := NotConnected\<rparr>, symbol_handles = (\<lambda>_. None)\<rparr>)"

definition build ::
  "('r \<Rightarrow> io_error + 'a list) \<Rightarrow> ('n, 'w) Conn \<Rightarrow> 'r AdsBuilder \<Rightarrow> io_error + ('a, 'n, 'w) Ads" where
  "build lookup_host st b =
     ads_new lookup_host st (ab_router b) (ab_target b) (ab_source b) (ab_timeouts b)
       (ab_set_to_run_mode b)"

definition ads_is_connected :: "('a, 'n, 'w) Ads \<Rightarrow> bool" where
  "ads_is_connected ads \<longleftrightarrow> conn_is_connected (connection ads)"

definition ads_connect :: "('a, 'n, 'w) AdsEnv \<Rightarrow> (('a, 'n, 'w) Ads, unit) op" where
  "ads_connect env ads =
     (let ads = (if \<not> conn_is_connected (connection ads)
                 then ads\<lparr>symbol_handles := (\<lambda>_. None)\<rparr> else ads)
      in case conn_connect (client_env env) (dialer env) (router_addresses ads) (ads_target ads)
                (ads_source ads) (ads_timeouts ads) (ads_set_to_run_mode ads) (connection ads) of
           (r, st) \<Rightarrow> (r, ads\<lparr>connection := st\<rparr>))"

definition ads_disconnect :: "('a, 'n, 'w) AdsEnv \<Rightarrow> ('a, 'n, 'w) Ads \<Rightarrow> ('a, 'n, 'w) Ads" where
  "ads_disconnect env ads =
     (let ads = ads\<lparr>symbol_handles := (\<lambda>_. None)\<rparr>
      in ads\<lparr>connection := conn_disconnect (client_env env) (connection ads)\<rparr>)"

text \<open>
  The loop of \<open>connect_with_retry\<close>, given the number of rounds it may take; \<open>None\<close> says it is
  still trying. Between two rounds it sleeps.
\<close>

fun connect_with_retry ::
  "('a, 'n, 'w) AdsEnv \<Rightarrow> nat \<Rightarrow> ('a, 'n, 'w) Ads \<Rightarrow> (unit res \<times> ('a, 'n, 'w) Ads) option" where
  "connect_with_retry env 0 ads = None"
| "connect_with_retry env (Suc n) ads =
     (if ads_is_connected ads then Some (Ok (), ads)
      else case ads_connect env ads of
             (Ok u, ads) \<Rightarrow> Some (Ok (), ads)
           | (Err e, ads) \<Rightarrow> connect_with_retry env n (others env ads)
           | (Panic, ads) \<Rightarrow> Some (Panic, ads))"

definition should_disconnect :: "error \<Rightarrow> bool" where
  "should_disconnect e = (case e of Errors.Ads act msg code \<Rightarrow> code = 6 | _ \<Rightarrow> False)"

text \<open>
  \<open>with_client\<close> runs the callback on the client the connection has now; when it returns, the
  connection may have changed.
\<close>

definition with_client ::
  "('a, 'n, 'w) AdsEnv \<Rightarrow> ('w Client, 'v) op \<Rightarrow> (('a, 'n, 'w) Ads, 'v) op" where
  "with_client env callback ads =
     (case conn_client (connection ads) of
        None \<Rightarrow> (Err Disconnected, ads)
      | Some c \<Rightarrow>
          (case callback (clients (connection ads) c) of (result, cl) \<Rightarrow>
             let ads = others env (ads\<lparr>connection := upd_client c cl (connection ads)\<rparr>)
             in case result of
                  Ok v \<Rightarrow> (Ok v, ads)
                | Err e \<Rightarrow>
                    (Err e,
                     if client_is_closed (clients (connection ads) c) \<or> should_disconnect e
                     then ads_disconnect env ads else ads)
                | Panic \<Rightarrow> (Panic, ads)))"

definition get_info :: "('a, 'n, 'w) AdsEnv \<Rightarrow> (('a, 'n, 'w) Ads, DeviceInfo) op" where
  "get_info env = with_client env (read_device_info (client_env env))"

definition ads_is_run_mode :: "('a, 'n, 'w) AdsEnv \<Rightarrow> (('a, 'n, 'w) Ads, bool) op" where
  "ads_is_run_mode env = with_client env (is_run_mode (client_env env))"

definition ads_set_run_mode :: "('a, 'n, 'w) AdsEnv \<Rightarrow> (('a, 'n, 'w) Ads, unit) op" where
  "ads_set_run_mode env = with_client env (set_to_run_mode (client_env env))"

section \<open>Symbol handles\<close>

definition get_symbol_handle :: "('a, 'n, 'w) AdsEnv \<Rightarrow> string \<Rightarrow> (('a, 'n, 'w) Ads, u32) op" where
  "get_symbol_handle env symbol =
     with_client env
       (bindS (client_read_write (client_env env) GET_SYMHANDLE_BYNAME 0 [0, 0, 0, 0] (as_bytes symbol))
         (\<lambda>(n, read_data). returnS (Ok (from_le_bytes read_data))))"

definition symbol_handle :: "('a, 'n, 'w) AdsEnv \<Rightarrow> string \<Rightarrow> (('a, 'n, 'w) Ads, u32) op" where
  "symbol_handle env symbol ads =
     (case symbol_handles ads symbol of
        Some handle \<Rightarrow> (Ok handle, ads)
      | None \<Rightarrow>
          bindS (get_symbol_handle env symbol)
            (\<lambda>handle ads. (Ok handle, ads\<lparr>symbol_handles := (symbol_handles ads)(symbol \<mapsto> handle)\<rparr>)) ads)"

section \<open>Operations on symbols\<close>

text \<open>\<open>T\<close> is the type's implementation of \<open>AdsData\<close>; a filled buffer is read as a \<open>T\<close>.\<close>

definition value_of :: "'v AdsData \<Rightarrow> bytes \<Rightarrow> 'v res" where
  "value_of T bs = (case data_read T bs of Some v \<Rightarrow> Ok v | None \<Rightarrow> Panic)"

definition read_symbol :: "('a, 'n, 'w) AdsEnv \<Rightarrow> 'v AdsData \<Rightarrow> string \<Rightarrow> (('a, 'n, 'w) Ads, 'v) op" where
  "read_symbol env T symbol =
     bindS (symbol_handle env symbol) (\<lambda>index_offset.
     with_client env
       (bindS (client_read_exact (client_env env) RW_SYMVAL_BYHANDLE index_offset
                 (data_image T (data_default T)))
         (\<lambda>read_data. returnS (value_of T read_data))))"

definition invoke_rpc_method ::
  "('a, 'n, 'w) AdsEnv \<Rightarrow> string \<Rightarrow> bytes \<Rightarrow> (('a, 'n, 'w) Ads, unit) op" where
  "invoke_rpc_method env symbol write_data =
     bindS (symbol_handle env symbol) (\<lambda>index_offset.
     with_client env
       (bindS (client_read_write_exact (client_env env) RW_SYMVAL_BYHANDLE index_offset [] write_data)
         (\<lambda>_. returnS (Ok ()))))"

definition fetch_from_rpc_method ::
  "('a, 'n, 'w) AdsEnv \<Rightarrow> 'v AdsData \<Rightarrow> string \<Rightarrow> bytes \<Rightarrow> (('a, 'n, 'w) Ads, 'v) op" where
  "fetch_from_rpc_method env T symbol write_data =
     bindS (symbol_handle env symbol) (\<lambda>index_offset.
     with_client env
       (bindS (client_read_write_exact (client_env env) RW_SYMVAL_BYHANDLE index_offset
                 (data_image T (data_default T)) write_data)
         (\<lambda>read_data. returnS (value_of T read_data))))"

text \<open>
  The type tree of a symbol: the last symbol of the upload whose name is the same in lower
  case; a symbol whose type is not in the map has an unknown tree. \<open>fuel\<close> bounds the depth of
  the tree as in theory \<open>TypeTree\<close>; \<open>None\<close> says that the tree is deeper.
\<close>

definition find_symbol :: "(string \<Rightarrow> string) \<Rightarrow> string \<Rightarrow> Symbol list \<Rightarrow> Symbol option" where
  "find_symbol to_lowercase symbol_name symbols =
     fold (\<lambda>info found. if to_lowercase (sym_name info) = to_lowercase symbol_name then Some info else found)
       symbols None"

definition type_tree_of ::
  "(string \<Rightarrow> string) \<Rightarrow> nat \<Rightarrow> string \<Rightarrow> Symbol list \<times> TypeMap \<Rightarrow> SymbolTypeTree option" where
  "type_tree_of to_lowercase fuel symbol_name = (\<lambda>(symbols, type_map).
     case find_symbol to_lowercase symbol_name symbols of
       None \<Rightarrow> Some TMissing
     | Some symbol \<Rightarrow>
         map_option (\<lambda>r. case r of Inr tree \<Rightarrow> tree | Inl e \<Rightarrow> TUnknown (sym_size symbol))
           (try_from_symbol fuel symbol type_map))"

definition get_dynamic_type_tree ::
  "('a, 'n, 'w) AdsEnv \<Rightarrow> bool \<Rightarrow> (string \<Rightarrow> string) \<Rightarrow> nat \<Rightarrow> string
   \<Rightarrow> (('a, 'n, 'w) Ads, SymbolTypeTree option) op" where
  "get_dynamic_type_tree env oc to_lowercase fuel symbol =
     with_client env
       (bindS (get_symbol_info oc (client_env env))
         (\<lambda>info. returnS (Ok (type_tree_of to_lowercase fuel symbol info))))"

section \<open>Subscriptions\<close>

text \<open>
  The receiver of a subscription is a channel of the client it was made on. \<open>from_bytes\<close> may
  panic.
\<close>

record 't NotificationSubscription =
  sub_client :: nat
  receiver :: nat
  sub_from_bytes :: "bytes \<Rightarrow> 't res"

text \<open>Delays and cycle times are in milliseconds.\<close>

definition subscription_attributes :: "nat \<Rightarrow> NotificationTransmissionMode \<Rightarrow> NotificationAttributes" where
  "subscription_attributes sz transmission_mode =
     \<lparr>attr_length = sz, attr_trans_mode = transmission_mode, attr_max_delay = 0, attr_cycle_time = 10\<rparr>"

text \<open>The client that \<open>with_client\<close> would use, paired with the outcome of the callback.\<close>

definition subscribe_inner ::
  "('a, 'n, 'w) AdsEnv \<Rightarrow> string \<Rightarrow> nat \<Rightarrow> (bytes \<Rightarrow> 't res) \<Rightarrow> NotificationTransmissionMode
   \<Rightarrow> (('a, 'n, 'w) Ads, 't NotificationSubscription) op" where
  "subscribe_inner env symbol sz from_payload transmission_mode =
     bindS (symbol_handle env symbol) (\<lambda>index_offset ads.
       let c = the (conn_client (connection ads))
       in bindS (with_client env (add_notification (client_env env) RW_SYMVAL_BYHANDLE index_offset
                    (subscription_attributes sz transmission_mode)))
            (\<lambda>(rx, handle). returnS
               (Ok \<lparr>sub_client = c, receiver = rx, sub_from_bytes = from_payload\<rparr>)) ads)"

definition subscribe_value ::
  "('a, 'n, 'w) AdsEnv \<Rightarrow> 'v AdsData \<Rightarrow> string \<Rightarrow> NotificationTransmissionMode
   \<Rightarrow> (('a, 'n, 'w) Ads, 'v option NotificationSubscription) op" where
  "subscribe_value env T symbol transmission_mode =
     subscribe_inner env symbol (data_size T) (\<lambda>payload. Ok (ads_from_bytes T payload)) transmission_mode"

definition subscribe_tree ::
  "('a, 'n, 'w) AdsEnv \<Rightarrow> (bytes \<Rightarrow> u64) \<Rightarrow> string \<Rightarrow> SymbolTypeTree \<Rightarrow> NotificationTransmissionMode
   \<Rightarrow> (('a, 'n, 'w) Ads, SymbolTree NotificationSubscription) op" where
  "subscribe_tree env to_f64 symbol symbol_type_tree transmission_mode =
     subscribe_inner env symbol (get_size symbol_type_tree)
       (\<lambda>payload. from_bytes to_f64 payload symbol_type_tree 0) transmission_mode"

definition subscribe_map ::
  "('a, 'n, 'w) AdsEnv \<Rightarrow> bool
   \<Rightarrow> (bytes \<Rightarrow> PrimitiveSymbolDescriptor \<Rightarrow> 'dt PrimitiveValue res) \<Rightarrow> string \<Rightarrow> SymbolTypeTree
   \<Rightarrow> NotificationTransmissionMode
   \<Rightarrow> (('a, 'n, 'w) Ads, (string \<times> 'dt PrimitiveValue) list NotificationSubscription) op" where
  "subscribe_map env oc read symbol symbol_type_tree transmission_mode =
     (let sz = get_size symbol_type_tree
      in bindS (returnS (from_tree oc symbol_type_tree 0 [])) (\<lambda>symbol_type_map.
           subscribe_inner env symbol sz (\<lambda>payload. map_from_bytes read payload symbol_type_map [])
             transmission_mode))"

text \<open>
  \<open>recv\<close>: the next message, decoded; \<open>Some None\<close> when the queue is empty and its sender gone;
  \<open>None\<close> while it waits.
\<close>

definition recv ::
  "'t NotificationSubscription \<Rightarrow> Shared \<Rightarrow> ('t res option) option \<times> Shared" where
  "recv sub sh =
     (let c = channels sh (receiver sub)
      in case queue c of
           m # ms \<Rightarrow>
             (Some (Some (sub_from_bytes sub m)),
              sh\<lparr>channels := (channels sh)(receiver sub := c\<lparr>queue := ms\<rparr>)\<rparr>)
         | [] \<Rightarrow> (if receiver sub \<in> snd ` set (subscribers sh) then None else Some None, sh))"

section \<open>Without a connection\<close>

lemma with_client_none:
  "conn_client (connection ads) = None \<Longrightarrow> with_client env callback ads = (Err Disconnected, ads)"
  by (simp add: with_client_def)

lemma symbol_handle_none:
  "conn_client (connection ads) = None \<Longrightarrow> symbol_handles ads symbol = None \<Longrightarrow>
     symbol_handle env symbol ads = (Err Disconnected, ads)"
  by (simp add: symbol_handle_def get_symbol_handle_def with_client_none)


section \<open>The cache of handles\<close>

lemma ads_disconnect_simps [simp]:
  "symbol_handles (ads_disconnect env ads) = (\<lambda>_. None)"
  "conn (connection (ads_disconnect env ads)) = NotConnected"
  by (simp_all add: ads_disconnect_def Let_def)

lemma conn_upd_client [simp]: "conn (upd_client c cl st) = conn st"
  by (simp add: upd_client_def)

text \<open>An \<open>Ads\<close> that no other task uses.\<close>

definition unshared :: "('a, 'n, 'w) AdsEnv \<Rightarrow> ('a, 'n, 'w) AdsEnv" where
  "unshared env = env\<lparr>others := (\<lambda>ads. ads)\<rparr>"

lemma unshared_simps [simp]:
  "others (unshared env) = (\<lambda>ads. ads)" "client_env (unshared env) = client_env env"
  "dialer (unshared env) = dialer env"
  by (simp_all add: unshared_def)

text \<open>The calls on an \<open>Ads\<close>.\<close>

datatype ('v, 'dt) ads_call =
    Connect
  | Disconnect
  | GetInfo
  | IsRunMode
  | SetRunMode
  | ReadSymbol "'v AdsData" string
  | InvokeMethod string bytes
  | FetchFromMethod "'v AdsData" string bytes
  | GetTypeTree bool "string \<Rightarrow> string" nat string
  | SubscribeValue "'v AdsData" string NotificationTransmissionMode
  | SubscribeTree "bytes \<Rightarrow> u64" string SymbolTypeTree NotificationTransmissionMode
  | SubscribeMap bool "bytes \<Rightarrow> PrimitiveSymbolDescriptor \<Rightarrow> 'dt PrimitiveValue res" string SymbolTypeTree
      NotificationTransmissionMode

primrec run_ads ::
  "('a, 'n, 'w) AdsEnv \<Rightarrow> ('v, 'dt) ads_call \<Rightarrow> ('a, 'n, 'w) Ads \<Rightarrow> ('a, 'n, 'w) Ads" where
  "run_ads env Connect ads = snd (ads_connect env ads)"
| "run_ads env Disconnect ads = ads_disconnect env ads"
| "run_ads env GetInfo ads = snd (get_info env ads)"
| "run_ads env IsRunMode ads = snd (ads_is_run_mode env ads)"
| "run_ads env SetRunMode ads = snd (ads_set_run_mode env ads)"
| "run_ads env (ReadSymbol T symbol) ads = snd (read_symbol env T symbol ads)"
| "run_ads env (InvokeMethod symbol params) ads = snd (invoke_rpc_method env symbol params ads)"
| "run_ads env (FetchFromMethod T symbol params) ads = snd (fetch_from_rpc_method env T symbol params ads)"
| "run_ads env (GetTypeTree oc lower fuel symbol) ads =
     snd (get_dynamic_type_tree env oc lower fuel symbol ads)"
| "run_ads env (SubscribeValue T symbol mode) ads = snd (subscribe_value env T symbol mode ads)"
| "run_ads env (SubscribeTree to_f64 symbol tree mode) ads = snd (subscribe_tree env to_f64 symbol tree mode ads)"
| "run_ads env (SubscribeMap oc read symbol tree mode) ads = snd (subscribe_map env oc read symbol tree mode ads)"

text \<open>
  What the updates of the connection keep, all operations but \<open>connect\<close> keep once they have their
  symbol's handle. That is the first thing an operation on a symbol asks for.
\<close>

locale ads_invariant =
  fixes env :: "('a, 'n, 'w) AdsEnv" and I :: "('a, 'n, 'w) Ads \<Rightarrow> bool"
  assumes others_idle: "others env = (\<lambda>ads. ads)"
    and keeps_client: "I ads \<Longrightarrow> I (ads\<lparr>connection := upd_client c cl (connection ads)\<rparr>)"
    and keeps_disconnect: "I ads \<Longrightarrow> I (ads_disconnect env ads)"
begin

lemma keeps_with_client: "keeps I (with_client env callback)"
  unfolding keeps_def
proof (intro allI impI)
  fix ads :: "('a, 'n, 'w) Ads"
  assume "I ads"
  then have "I (ads\<lparr>connection := upd_client c cl (connection ads)\<rparr>)"
      "I (ads_disconnect env (ads\<lparr>connection := upd_client c cl (connection ads)\<rparr>))" for c cl
    by (simp_all add: keeps_client keeps_disconnect)
  with \<open>I ads\<close> show "I (snd (with_client env callback ads))"
    by (auto simp: with_client_def others_idle Let_def split: option.split prod.split res.split)
qed

lemma after_bindS:
  assumes "I (snd (m ads))" and "\<And>x. keeps I (f x)"
  shows "I (snd (bindS m f ads))"
  using assms(1) keepsD [OF assms(2)] by (auto simp: bindS_def split: prod.split res.split)

lemma after_returnS:
  assumes "I ads" and "\<And>x. I (snd (f x ads))"
  shows "I (snd (bindS (returnS r) f ads))"
  using assms by (simp add: bindS_def returnS_def split: res.split)

lemma after_subscribe_inner:
  assumes "I (snd (symbol_handle env symbol ads))"
  shows "I (snd (subscribe_inner env symbol sz from_payload mode ads))"
  unfolding subscribe_inner_def
proof (rule after_bindS, rule assms)
  fix index_offset
  let ?add = "with_client env (add_notification (client_env env) RW_SYMVAL_BYHANDLE index_offset
      (subscription_attributes sz mode))"
  have "keeps I (bindS ?add (\<lambda>(rx, handle). returnS
      (Ok \<lparr>sub_client = c, receiver = rx, sub_from_bytes = from_payload\<rparr>)))" for c
    by (intro keeps_bindS keeps_with_client) (auto split: prod.split)
  then show "keeps I (\<lambda>ads. let c = the (conn_client (connection ads))
      in bindS ?add (\<lambda>(rx, handle). returnS
           (Ok \<lparr>sub_client = c, receiver = rx, sub_from_bytes = from_payload\<rparr>)) ads)"
    by (auto simp: keeps_def Let_def)
qed

lemma keeps_infos:
  "keeps I (get_info env)" "keeps I (ads_is_run_mode env)" "keeps I (ads_set_run_mode env)"
  "keeps I (get_dynamic_type_tree env oc lower fuel symbol)"
  unfolding get_info_def ads_is_run_mode_def ads_set_run_mode_def get_dynamic_type_tree_def
  by (rule keeps_with_client)+

lemma after_handle:
  assumes "I (snd (symbol_handle env symbol ads))"
  shows "I (snd (read_symbol env T symbol ads))" "I (snd (invoke_rpc_method env symbol params ads))"
    "I (snd (fetch_from_rpc_method env T symbol params ads))"
    "I (snd (subscribe_value env T symbol mode ads))" "I (snd (subscribe_tree env to_f64 symbol tree mode ads))"
    "I ads \<Longrightarrow> I (snd (subscribe_map env oc read symbol tree mode ads))"
  unfolding read_symbol_def invoke_rpc_method_def fetch_from_rpc_method_def subscribe_value_def
    subscribe_tree_def subscribe_map_def Let_def
  by (intro after_bindS after_returnS assms keeps_with_client after_subscribe_inner; assumption?)+

lemma keeps_run:
  assumes "I ads" and "\<And>symbol. I (snd (symbol_handle env symbol ads))" and "call \<noteq> Connect"
  shows "I (run_ads env call ads)"
  using assms
  by (cases call) (simp_all add: keeps_infos [THEN keepsD] after_handle keeps_disconnect)

end

text \<open>
  Where a cached handle comes from: \<open>fetched\<close>, the client that is connected answers a request for
  it; \<open>traced\<close>, since \<open>ads0\<close> it has been cached, or the client of \<open>ads0\<close> gives it, and no other
  client was opened.
\<close>

definition fetched :: "('a, 'n, 'w) AdsEnv \<Rightarrow> ('a, 'n, 'w) Ads \<Rightarrow> string \<Rightarrow> u32 \<Rightarrow> nat \<Rightarrow> bool" where
  "fetched env ads symbol handle c \<longleftrightarrow> conn_client (connection ads) = Some c
     \<and> (\<exists>n data cl. client_read_write (client_env env) GET_SYMHANDLE_BYNAME 0 [0, 0, 0, 0] (as_bytes symbol)
           (clients (connection ads) c) = (Ok (n, data), cl) \<and> handle = from_le_bytes data)"

abbreviation same_connection :: "('a, 'n, 'w) Ads \<Rightarrow> ('a, 'n, 'w) Ads \<Rightarrow> bool" where
  "same_connection ads0 ads \<equiv> conn (connection ads) = conn (connection ads0)
     \<and> next_client (connection ads) = next_client (connection ads0)"

definition traced :: "('a, 'n, 'w) AdsEnv \<Rightarrow> ('a, 'n, 'w) Ads \<Rightarrow> ('a, 'n, 'w) Ads \<Rightarrow> bool" where
  "traced env ads0 ads \<longleftrightarrow> (\<forall>symbol handle. symbol_handles ads symbol = Some handle \<longrightarrow>
     same_connection ads0 ads
     \<and> (symbol_handles ads0 symbol = Some handle \<or> (\<exists>c. fetched env ads0 symbol handle c)))"

lemma traced_refl [simp]: "traced env ads ads"
  by (simp add: traced_def)

lemma traced_empty: "symbol_handles ads = (\<lambda>_. None) \<Longrightarrow> traced env ads0 ads"
  by (simp add: traced_def)

interpretation origin: ads_invariant "unshared env" "traced env ads0" for env ads0
proof unfold_locales
  fix ads c cl
  show "traced env ads0 ads \<Longrightarrow> traced env ads0 (ads\<lparr>connection := upd_client c cl (connection ads)\<rparr>)"
    by (simp add: traced_def upd_client_def)
qed (simp_all add: traced_empty)

lemma get_symbol_handle_unshared:
  assumes "get_symbol_handle (unshared env) symbol ads = (Ok handle, ads')"
  shows "\<exists>c cl. fetched env ads symbol handle c \<and> ads' = ads\<lparr>connection := upd_client c cl (connection ads)\<rparr>"
  using assms
  by (auto simp: get_symbol_handle_def with_client_def fetched_def bindS_def returnS_def Let_def
      split: option.splits prod.splits res.splits if_splits)

lemma traced_symbol_handle: "traced env ads (snd (symbol_handle (unshared env) symbol ads))"
proof (cases "symbol_handles ads symbol")
  case None
  obtain r ads' where got: "get_symbol_handle (unshared env) symbol ads = (r, ads')"
    by fastforce
  have "traced env ads ads'"
    using keepsD [OF origin.keeps_with_client traced_refl] got unfolding get_symbol_handle_def
    by (metis snd_conv)
  moreover have "traced env ads (ads'\<lparr>symbol_handles := (symbol_handles ads')(symbol \<mapsto> handle)\<rparr>)"
    if "r = Ok handle" for handle
    using get_symbol_handle_unshared [OF got [unfolded that]] by (auto simp: traced_def upd_client_def)
  ultimately show ?thesis
    using None got by (cases r) (auto simp: symbol_handle_def)
qed (simp add: symbol_handle_def)

lemma traced_connect: "traced env ads (snd (ads_connect (unshared env) ads))"
  by (auto simp: ads_connect_def Let_def conn_connect_def traced_def split: prod.split)

lemma traced_call: "traced env ads (run_ads (unshared env) call ads)"
proof (cases "call = Connect")
  case True
  then show ?thesis by (simp add: traced_connect)
next
  case False
  show ?thesis
    by (rule origin.keeps_run [OF traced_refl traced_symbol_handle False])
qed

text \<open>The state after a sequence of calls, made by one task.\<close>

definition run_calls ::
  "('a, 'n, 'w) AdsEnv \<Rightarrow> ('v, 'dt) ads_call list \<Rightarrow> ('a, 'n, 'w) Ads \<Rightarrow> ('a, 'n, 'w) Ads" where
  "run_calls env = fold (run_ads (unshared env))"

lemma run_calls_simps [simp]:
  "run_calls env [] ads = ads"
  "run_calls env (calls @ [call]) ads = run_ads (unshared env) call (run_calls env calls ads)"
  by (simp_all add: run_calls_def)

lemma run_calls_take:
  "j < length calls \<Longrightarrow> run_calls env (take (Suc j) calls) ads
     = run_ads (unshared env) (calls ! j) (run_calls env (take j calls) ads)"
  by (simp add: take_Suc_conv_app_nth)

lemma fetched_connected: "fetched env ads symbol handle c \<Longrightarrow> conn (connection ads) = Connected c"
  by (auto simp: fetched_def conn_client_def split: AdsConnection.splits if_splits)

lemma traced_back:
  fixes at :: "nat \<Rightarrow> ('a, 'n, 'w) Ads"
  assumes "\<And>j. j < n \<Longrightarrow> traced env (at j) (at (Suc j))"
    and "symbol_handles (at 0) symbol = None" and "symbol_handles (at n) symbol = Some handle"
  shows "\<exists>k < n. \<exists>c. fetched env (at k) symbol handle c
    \<and> (\<forall>j. k \<le> j \<and> j \<le> n \<longrightarrow> conn (connection (at j)) = Connected c
         \<and> next_client (connection (at j)) = next_client (connection (at k)))"
  using assms(1,3)
proof (induction n)
  case 0
  then show ?case using assms(2) by simp
next
  case (Suc n)
  have same: "same_connection (at n) (at (Suc n))"
    and origin: "symbol_handles (at n) symbol = Some handle \<or> (\<exists>c. fetched env (at n) symbol handle c)"
    using Suc.prems(1) [of n] Suc.prems(2) unfolding traced_def by blast+
  from origin show ?case
  proof
    assume "symbol_handles (at n) symbol = Some handle"
    then obtain k c where k: "k < n" "fetched env (at k) symbol handle c"
      and till: "\<And>j. k \<le> j \<Longrightarrow> j \<le> n \<Longrightarrow> conn (connection (at j)) = Connected c
        \<and> next_client (connection (at j)) = next_client (connection (at k))"
      using Suc.IH Suc.prems(1) by (metis less_SucI)
    have "conn (connection (at j)) = Connected c \<and> next_client (connection (at j)) = next_client (connection (at k))"
      if "k \<le> j" "j \<le> Suc n" for j
      using that same till [of j] till [of n] k(1) by (cases "j = Suc n") simp_all
    with k show ?thesis
      using less_SucI by blast
  next
    assume "\<exists>c. fetched env (at n) symbol handle c"
    then obtain c where c: "fetched env (at n) symbol handle c" ..
    have "conn (connection (at j)) = Connected c \<and> next_client (connection (at j)) = next_client (connection (at n))"
      if "n \<le> j" "j \<le> Suc n" for j
    proof -
      have "j = n \<or> j = Suc n"
        using that by linarith
      then show ?thesis
        using same fetched_connected [OF c] by auto
    qed
    with c show ?thesis
      by blast
  qed
qed

text \<open>
  C7: a cached handle belongs to the connection it is used on. Whatever sequence of calls one task
  makes on an \<open>Ads\<close> it has built: when the cache has a handle after them, then before one of these
  calls the connection was a client \<open>c\<close>, which was open, and that client's reply to the request
  for the symbol's handle was this handle; and from then on the connection has been \<open>c\<close> all the
  time, open or closed, and no other client has been opened.
\<close>

theorem handles_follow_connection:
  assumes "build lookup_host st b = Inr ads0"
    and "symbol_handles (run_calls env calls ads0) symbol = Some handle"
  shows "\<exists>k < length calls. \<exists>c. fetched env (run_calls env (take k calls) ads0) symbol handle c
    \<and> (\<forall>j. k \<le> j \<and> j \<le> length calls \<longrightarrow>
         conn (connection (run_calls env (take j calls) ads0)) = Connected c
         \<and> next_client (connection (run_calls env (take j calls) ads0))
             = next_client (connection (run_calls env (take k calls) ads0)))"
proof -
  let ?at = "\<lambda>j. run_calls env (take j calls) ads0"
  have "traced env (?at j) (?at (Suc j))" if "j < length calls" for j
    by (simp add: run_calls_take [OF that] traced_call)
  moreover have "symbol_handles (?at 0) symbol = None"
    using assms(1) by (auto simp: build_def ads_new_def split: sum.splits)
  ultimately show ?thesis
    using assms(2) traced_back [of "length calls" env ?at symbol handle] by simp
qed

section \<open>Other tasks\<close>

text \<open>
  C26: a handle can outlive its connection. While \<open>symbol_handle\<close> waits for the PLC, other tasks may
  reconnect and leave an empty cache; the handle of the old client then goes into the cache of
  the new connection, and every later call uses it without asking the new connection.
\<close>

theorem stale_handle_cached:
  assumes "conn_client (connection ads) = Some c" and "symbol_handles ads symbol = None"
    and "client_read_write (client_env env) GET_SYMHANDLE_BYNAME 0 [0, 0, 0, 0] (as_bytes symbol)
        (clients (connection ads) c) = (Ok (n, read_data), cl)"
    and "others env (ads\<lparr>connection := upd_client c cl (connection ads)\<rparr>) = ads2"
    and "conn (connection ads2) = Connected c2" and "c2 \<noteq> c"
  shows "\<exists>ads3. symbol_handle env symbol ads = (Ok (from_le_bytes read_data), ads3)
    \<and> conn (connection ads3) = Connected c2
    \<and> symbol_handle env symbol ads3 = (Ok (from_le_bytes read_data), ads3)"
proof -
  have "get_symbol_handle env symbol ads = (Ok (from_le_bytes read_data), ads2)"
    using assms by (simp add: get_symbol_handle_def with_client_def Let_def)
  then have "symbol_handle env symbol ads = (Ok (from_le_bytes read_data),
      ads2\<lparr>symbol_handles := (symbol_handles ads2)(symbol \<mapsto> from_le_bytes read_data)\<rparr>)"
    using assms(2) by (simp add: symbol_handle_def)
  then show ?thesis
    using assms(5) by (simp add: symbol_handle_def)
qed

text \<open>
  C27: an error of an old client closes a new one. When a call fails on a client that has ended, and
  other tasks have already replaced the connection, the call closes the new connection, not the
  one that failed.
\<close>

theorem stale_error_disconnects:
  assumes "conn_client (connection ads) = Some c"
    and "callback (clients (connection ads) c) = (Err e, cl)"
    and "others env (ads\<lparr>connection := upd_client c cl (connection ads)\<rparr>) = ads2"
    and "client_is_closed (clients (connection ads2) c)"
    and "conn (connection ads2) = Connected c2"
  shows "\<exists>ads3. with_client env callback ads = (Err e, ads3)
    \<and> conn (connection ads3) = NotConnected \<and> client_is_closed (clients (connection ads3) c2)"
  using assms
  by (simp add: with_client_def Let_def ads_disconnect_def conn_disconnect_def upd_client_def)

section \<open>Trying until it connects\<close>

text \<open>The state before the \<open>k\<close>-th attempt, when all attempts before it failed.\<close>

definition attempt :: "('a, 'n, 'w) AdsEnv \<Rightarrow> nat \<Rightarrow> ('a, 'n, 'w) Ads \<Rightarrow> ('a, 'n, 'w) Ads" where
  "attempt env k ads = ((\<lambda>ads. others env (snd (ads_connect env ads))) ^^ k) ads"

definition attempt_ends :: "('a, 'n, 'w) AdsEnv \<Rightarrow> ('a, 'n, 'w) Ads \<Rightarrow> bool" where
  "attempt_ends env ads \<longleftrightarrow> ads_is_connected ads \<or> (case fst (ads_connect env ads) of Err e \<Rightarrow> False | _ \<Rightarrow> True)"

definition attempt_result :: "('a, 'n, 'w) AdsEnv \<Rightarrow> ('a, 'n, 'w) Ads \<Rightarrow> unit res \<times> ('a, 'n, 'w) Ads" where
  "attempt_result env ads = (if ads_is_connected ads then (Ok (), ads) else ads_connect env ads)"

lemma attempt_Suc: "attempt env (Suc k) ads = attempt env k (others env (snd (ads_connect env ads)))"
  by (simp add: attempt_def funpow_Suc_right del: funpow.simps)

lemma attempt_0 [simp]: "attempt env 0 ads = ads"
  by (simp add: attempt_def)

lemma find_map: "find P (map f xs) = map_option f (find (P \<circ> f) xs)"
  by (induction xs) simp_all

lemma find_upt_Suc:
  "find P [0..<Suc n] = (if P 0 then Some 0 else map_option Suc (find (P \<circ> Suc) [0..<n]))"
  by (simp add: upt_conv_Cons find_map del: upt_Suc flip: map_Suc_upt)

text \<open>
  C36: \<open>connect_with_retry\<close> keeps trying until it connects. Within \<open>n\<close> rounds it returns exactly when
  one of the first \<open>n\<close> attempts ends without an error, the connection having been found up or made
  (or the attempt having panicked); it returns what the first such attempt gives, hence never an
  error, and after \<open>n\<close> failures it is still trying.
\<close>

theorem connect_with_retry_ends:
  "connect_with_retry env n ads
   = map_option (\<lambda>k. attempt_result env (attempt env k ads))
       (find (\<lambda>k. attempt_ends env (attempt env k ads)) [0..<n])"
proof (induction n arbitrary: ads)
  case (Suc n)
  obtain r ads1 where connect: "ads_connect env ads = (r, ads1)"
    by fastforce
  show ?case
  proof (cases "attempt_ends env ads")
    case True
    then show ?thesis
      using connect
      by (cases r) (auto simp: find_upt_Suc attempt_ends_def attempt_result_def simp del: upt_Suc)
  next
    case False
    then have "connect_with_retry env (Suc n) ads = connect_with_retry env n (others env ads1)"
      using connect by (cases r) (auto simp: attempt_ends_def)
    then show ?thesis
      using False connect Suc.IH [of "others env ads1"]
      by (simp add: find_upt_Suc attempt_Suc comp_def option.map_comp del: upt_Suc)
  qed
qed simp

section \<open>Reading a symbol\<close>

text \<open>
  C8: reading a symbol works end to end. On an idle connection whose cache has the symbol's
  handle, when the peer answers the read of that handle with the image of a value of the type,
  \<open>read_symbol\<close> returns that value.
\<close>

theorem read_symbol_answered:
  assumes "client_env env = stream_env peer"
    and "conn (connection ads) = Connected c" and "idle (clients (connection ads) c)"
    and "symbol_handles ads symbol = Some handle"
    and "reads_its_images T valid" and "valid (data_default T)" and "valid v" and "data_size T < 2 ^ 32"
    and "build_request (clients (connection ads) c) Read
        [as_bytes_IndexLength \<lparr>il_index_group = RW_SYMVAL_BYHANDLE, il_index_offset = handle,
           il_length = of_nat (data_size T)\<rparr>] (next_invoke_id (clients (connection ads) c)) = Ok request"
    and "list_all (\<lambda>f. wf_frame f \<and> harmless (cl_source (clients (connection ads) c)) f) fs"
    and "peer request = concat (map frame_bytes fs)"
    and "find (answers (cl_source (clients (connection ads) c)) (next_invoke_id (clients (connection ads) c))) fs
      = Some (h, [0, 0, 0, 0] @ to_le_bytes (of_nat (data_size T) :: u32) @ data_image T v)"
    and "reply_matches (cl_target (clients (connection ads) c)) Read
        (next_invoke_id (clients (connection ads) c)) h" and "error_code h = 0"
  shows "fst (read_symbol env T symbol ads) = Ok v"
proof -
  note image = image_of [OF assms(5,6)] image_of [OF assms(5,7)]
  let ?cl = "clients (connection ads) c"
  have "fst (client_read_exact (stream_env peer) RW_SYMVAL_BYHANDLE handle (data_image T (data_default T)) ?cl)
      = Ok (data_image T v)"
    using assms image
    by (intro read_exact_reply [where peer = peer and request = request and fs = fs and h = h]) simp_all
  then obtain cl' where read: "client_read_exact (stream_env peer) RW_SYMVAL_BYHANDLE handle
      (data_image T (data_default T)) ?cl = (Ok (data_image T v), cl')"
    by (metis prod.collapse)
  have "conn_client (connection ads) = Some c"
    using assms(2,3) by (simp add: conn_client_def idle_def)
  moreover have "value_of T (data_image T v) = Ok v"
    using image(3) by (simp add: value_of_def ads_from_bytes_def)
  ultimately show ?thesis
    using read assms(1,4)
    by (simp add: read_symbol_def symbol_handle_def with_client_def bindS_def Let_def)
qed

section \<open>Samples\<close>

text \<open>Two clients, of which the connection is the first; another task may switch to the second.\<close>

definition demo_ads :: "(string \<Rightarrow> u32 option) \<Rightarrow> (string, unit, Wire) Ads" where
  "demo_ads handles =
     \<lparr>router_addresses = [''router''], ads_target = AmsAddr netid_local 851, ads_source = None,
      ads_timeouts = timeouts_new 1000, ads_set_to_run_mode = False,
      connection = \<lparr>conn = Connected 0, clients = (\<lambda>_. demo_client), next_client = 2, net = ()\<rparr>,
      symbol_handles = handles\<rparr>"

definition demo_env :: "(bytes \<Rightarrow> bytes) \<Rightarrow> (string, unit, Wire) AdsEnv" where
  "demo_env peer =
     \<lparr>client_env = stream_env peer,
      dialer = \<lparr>tcp_connect = (\<lambda>r net. (Inr demo_wire, net)),
        tcp_connect_timed = (\<lambda>t r net. (InTime (Inr demo_wire), net)), set_nodelay = (\<lambda>w. (Inr (), w)),
        socket_write_all = (\<lambda>b w. (Inr (), w)), socket_write_all_timed = (\<lambda>t b w. (InTime (Inr ()), w)),
        socket_read_some = (\<lambda>n w. (Inr [], w)), socket_read_some_timed = (\<lambda>t n w. (InTime (Inr []), w))\<rparr>,
      others = (\<lambda>ads. ads\<lparr>symbol_handles := (\<lambda>_. None),
        connection := (connection ads)\<lparr>conn := Connected 1\<rparr>\<rparr>)\<rparr>"

lemma demo_simps [simp]:
  "conn (connection (demo_ads handles)) = Connected 0" "clients (connection (demo_ads handles)) c = demo_client"
  "symbol_handles (demo_ads handles) = handles" "client_env (demo_env peer) = stream_env peer"
  by (simp_all add: demo_ads_def demo_env_def)


lemma demo_value:
  "data_image udint_data (AdsUdint 0x04030201) = [1, 2, 3, 4]" "data_size udint_data = 4"
  by (simp_all add: data_defs to_le_bytes_def)

theorem read_symbol_answered_witness:
  "fst (read_symbol (demo_env demo_peer) udint_data ''MAIN.n'' (demo_ads [''MAIN.n'' \<mapsto> 5]))
    = Ok (AdsUdint 0x04030201)"
proof -
  obtain request where "build_request demo_client Read [as_bytes_IndexLength
      \<lparr>il_index_group = RW_SYMVAL_BYHANDLE, il_index_offset = 5, il_length = 4\<rparr>] 1 = Ok request"
    by (auto simp: build_request_eq as_bytes_IndexLength_def length_to_le_bytes)
  then show ?thesis
    using read_symbol_answered [of "demo_env demo_peer" demo_peer "demo_ads [''MAIN.n'' \<mapsto> 5]" 0 "''MAIN.n''" 5
        udint_data "\<lambda>_. True" "AdsUdint 0x04030201" request
        "[(reply_header 9, [0, 0, 0, 0]), (demo_reply, [0, 0, 0, 0, 4, 0, 0, 0, 1, 2, 3, 4])]" demo_reply]
    by (simp add: udint_ads.reads_images idle_demo demo_peer_def demo_reply_def reply_header_def demo_fields
        reply_matches_def to_le_bytes_def demo_value)
qed

text \<open>The reply to a request for a handle, the second client being open all along.\<close>

definition handle_reply :: AdsHeader where
  "handle_reply = (reply_header 1)\<lparr>command := 9, hdr_length := 44, data_length := 12\<rparr>"

definition handle_peer :: "bytes \<Rightarrow> bytes" where
  "handle_peer request = concat (map frame_bytes [(handle_reply, [0, 0, 0, 0, 4, 0, 0, 0, 7, 0, 0, 0])])"

lemma handle_read:
  "\<exists>n cl. client_read_write (stream_env handle_peer) GET_SYMHANDLE_BYNAME 0 [0, 0, 0, 0] (as_bytes ''MAIN.n'') demo_client
    = (Ok (n, [7, 0, 0, 0]), cl)"
proof -
  let ?payload = "[as_bytes_IndexLengthRW \<lparr>rw_index_group = GET_SYMHANDLE_BYNAME, rw_index_offset = 0,
      rw_read_length = 4, rw_write_length = 6\<rparr>, as_bytes ''MAIN.n'']"
  obtain request where "build_request demo_client ReadWrite ?payload (next_invoke_id demo_client) = Ok request"
    by (auto simp: build_request_eq as_bytes_IndexLengthRW_def length_to_le_bytes)
  from communicate_check [OF idle_demo this, of "[(handle_reply, [0, 0, 0, 0, 4, 0, 0, 0, 7, 0, 0, 0])]"
      handle_peer handle_reply "[0, 0, 0, 0, 4, 0, 0, 0, 7, 0, 0, 0]" "[[0, 0, 0, 0], [0, 0, 0, 0]]"]
  have "fst (communicate (stream_env handle_peer) ReadWrite ?payload [[0, 0, 0, 0], [0, 0, 0, 0]] demo_client)
      = Ok (8, [[4, 0, 0, 0], [7, 0, 0, 0]])"
    by (simp add: handle_peer_def handle_reply_def reply_header_def demo_fields check_reply_def Let_def
        case_prod_beta)
  then obtain cl where "communicate (stream_env handle_peer) ReadWrite ?payload [[0, 0, 0, 0], [0, 0, 0, 0]] demo_client
      = (Ok (8, [[4, 0, 0, 0], [7, 0, 0, 0]]), cl)"
    by (metis prod.collapse)
  then show ?thesis
    by (simp add: client_read_write_def u32_try_from_def to_le_bytes_def)
qed

theorem stale_handle_cached_witness:
  "\<exists>ads. symbol_handle (demo_env handle_peer) ''MAIN.n'' (demo_ads (\<lambda>_. None)) = (Ok 7, ads)
    \<and> conn (connection ads) = Connected 1 \<and> fst (symbol_handle (demo_env handle_peer) ''MAIN.n'' ads) = Ok 7"
proof -
  obtain n cl where "client_read_write (stream_env handle_peer) GET_SYMHANDLE_BYNAME 0 [0, 0, 0, 0]
      (as_bytes ''MAIN.n'') demo_client = (Ok (n, [7, 0, 0, 0]), cl)"
    using handle_read by blast
  then show ?thesis
    using stale_handle_cached [of "demo_ads (\<lambda>_. None)" 0 "''MAIN.n''" "demo_env handle_peer" n "[7, 0, 0, 0]" cl _ 1]
      idle_demo
    by (auto simp: conn_client_def idle_def demo_env_def from_le_bytes_def)
qed

theorem stale_error_disconnects_witness:
  "\<exists>ads. with_client (demo_env handle_peer)
        (\<lambda>cl. (Err Overflow, upd_shared (tear_down Overflow) cl) :: unit res \<times> Wire Client) (demo_ads (\<lambda>_. None))
      = (Err Overflow, ads)
    \<and> client_is_closed (clients (connection ads) 1)"
  using stale_error_disconnects [of "demo_ads (\<lambda>_. None)" 0
      "\<lambda>cl. (Err Overflow, upd_shared (tear_down Overflow) cl) :: unit res \<times> Wire Client" Overflow
      "upd_shared (tear_down Overflow) demo_client" "demo_env handle_peer" _ 1]
    idle_demo
  by (auto simp: conn_client_def idle_def demo_env_def upd_client_def client_is_closed_def upd_shared_def)

end
