(* ===== verification/Delivery.thy ===== *)
theory Delivery
  imports Ads
begin

text \<open>
  The components together, over the byte stream of theory \<open>Session\<close>: a client that is quiet
  between calls stays so, hence calls compose; reading a symbol whose handle is not known asks
  for the handle first; and what a subscriber receives, whatever else happens on the client, is
  what the PLC sent for its handle since the subscription was made.
\<close>

section \<open>Quiet clients\<close>

text \<open>Open, no request waiting, nothing unread.\<close>

definition quiet :: "Wire Client \<Rightarrow> bool" where
  "quiet cl \<longleftrightarrow>
     \<not> client_is_closed cl \<and> commands (cl_shared cl) = [] \<and> reader_alive (cl_world cl)
     \<and> unread (cl_world cl) = [] \<and> queues_bounded (cl_shared cl)"

lemma quiet_idle: "quiet cl \<Longrightarrow> idle cl"
  by (simp add: quiet_def idle_def waiting_def)

text \<open>The state after a call: the client is quiet again, with the next invoke ID.\<close>

definition follows :: "Wire Client \<Rightarrow> Wire Client \<Rightarrow> bool" where
  "follows cl cl' \<longleftrightarrow>
     quiet cl' \<and> next_invoke_id cl' = next_invoke_id cl + 1 \<and> cl_source cl' = cl_source cl
     \<and> cl_target cl' = cl_target cl \<and> next_channel cl' = next_channel cl
     \<and> subscribers (cl_shared cl') = subscribers (cl_shared cl)"

text \<open>
  The peer replies to a command with the data: among the frames it sends for the request, the
  first that answers the invoke ID matches the request and carries a result of zero and the data.
\<close>

definition peer_replies :: "(bytes \<Rightarrow> bytes) \<Rightarrow> Wire Client \<Rightarrow> Command \<Rightarrow> bytes list \<Rightarrow> bytes \<Rightarrow> bool" where
  "peer_replies peer cl cmd payload data \<longleftrightarrow>
     (\<exists>request fs h. build_request cl cmd payload (next_invoke_id cl) = Ok request
        \<and> list_all (\<lambda>f. wf_frame f \<and> harmless (cl_source cl) f) fs
        \<and> peer request = concat (map frame_bytes fs)
        \<and> find (answers (cl_source cl) (next_invoke_id cl)) fs = Some (h, [0, 0, 0, 0] @ data)
        \<and> reply_matches (cl_target cl) cmd (next_invoke_id cl) h \<and> error_code h = 0)"

lemma peer_replies_after:
  "follows cl cl' \<Longrightarrow>
     peer_replies peer cl' = peer_replies peer (cl\<lparr>next_invoke_id := next_invoke_id cl + 1\<rparr>)"
  by (simp add: fun_eq_iff peer_replies_def follows_def build_request_eq request_header_def)

interpretation reader_keys: reader_invariant "\<lambda>sh. fst ` set (commands sh) \<subseteq> K" for K
  by unfold_locales
    (auto simp: send_reply_def try_send_def Let_def AList.delete_eq dest: subsetD)

lemma communicate_replies:
  assumes "quiet cl" and "peer_replies peer cl cmd payload data" and "length buf \<le> length data"
  shows "\<exists>cl'. communicate (stream_env peer) cmd payload (buf # bufs) cl
      = (Ok (length data, distribute data (buf # bufs)), cl') \<and> follows cl cl'"
proof -
  obtain request fs h where reply: "build_request cl cmd payload (next_invoke_id cl) = Ok request"
      "list_all (\<lambda>f. wf_frame f \<and> harmless (cl_source cl) f) fs"
      "peer request = concat (map frame_bytes fs)"
      "find (answers (cl_source cl) (next_invoke_id cl)) fs = Some (h, [0, 0, 0, 0] @ data)"
      "reply_matches (cl_target cl) cmd (next_invoke_id cl) h" "error_code h = 0"
    using assms(2) unfolding peer_replies_def by blast
  obtain w sh hs where result: "communicate (stream_env peer) cmd payload (buf # bufs) cl
      = (check_reply (cl_target cl) cmd (next_invoke_id cl) h ([0, 0, 0, 0] @ data) (buf # bufs),
         registered cl\<lparr>cl_world := w, cl_shared := drop_pending (next_invoke_id cl) sh,
           consecutive_timeouts := 0\<rparr>)"
    and w: "unread w = []" "reader_alive w"
    and fs: "process_frames (cl_source cl) fs (cl_shared (registered cl)) = (Ok hs, sh)"
    using communicate_exact [where peer = peer and request = request and bufs = "buf # bufs",
        OF quiet_idle [OF assms(1)] reply(1-4)] by blast
  have sh: "snd (process_frames (cl_source cl) fs (cl_shared (registered cl))) = sh"
    using fs by simp
  have keys: "fst ` set (commands sh) \<subseteq> {next_invoke_id cl}"
    using reader_keys.keeps_process [where K = "{next_invoke_id cl}" and source = "cl_source cl" and fs = fs
        and sh = "cl_shared (registered cl)", unfolded sh] assms(1)
    by (simp add: registered_def quiet_def)
  then have none: "commands (drop_pending (next_invoke_id cl) sh) = []"
    by (auto simp: drop_pending_def AList.delete_eq filter_empty_conv)
  have frame: "subscribers sh = subscribers (cl_shared cl) \<and> closed sh = closed (cl_shared cl)"
    using reader_frame.keeps_process [of "cl_shared (registered cl)" "subscribers (cl_shared cl)"
        "closed (cl_shared cl)" "cl_source cl" fs, unfolded sh]
    by (simp add: registered_def)
  have "queues_bounded sh"
    using reader_queues.keeps_process [of "cl_shared (registered cl)" "cl_source cl" fs, unfolded sh] assms(1)
    by (simp add: registered_def quiet_def queues_bounded_def)
  then have "follows cl (registered cl\<lparr>cl_world := w, cl_shared := drop_pending (next_invoke_id cl) sh,
      consecutive_timeouts := 0\<rparr>)"
    using assms(1) w none frame
    by (simp add: follows_def quiet_def registered_def client_is_closed_def is_closed_def
        queues_bounded_def drop_pending_def)
  moreover have "check_reply (cl_target cl) cmd (next_invoke_id cl) h ([0, 0, 0, 0] @ data) (buf # bufs)
      = Ok (length data, distribute data (buf # bufs))"
    using assms(3) reply(5,6) by (simp add: check_reply_eq_Ok del: distribute.simps)
  ultimately show ?thesis
    using result by auto
qed

section \<open>Reading a symbol from scratch\<close>

lemma read_write_replies:
  assumes "quiet cl" and "length buf = length data" and "length buf < 2 ^ 32" and "length wr < 2 ^ 32"
    and "peer_replies peer cl ReadWrite [as_bytes_IndexLengthRW \<lparr>rw_index_group = g, rw_index_offset = off,
        rw_read_length = of_nat (length buf), rw_write_length = of_nat (length wr)\<rparr>, wr]
      (to_le_bytes (of_nat (length data) :: u32) @ data)"
  shows "\<exists>cl'. client_read_write (stream_env peer) g off buf wr cl = (Ok (length data, data), cl') \<and> follows cl cl'"
  using communicate_replies [OF assms(1,5), of "to_le_bytes (0 :: u32)" "[buf]"] assms(2-4)
  by (auto simp: client_read_write_def u32_try_from_def length_to_le_bytes distribute_Cons
      from_to_le_bytes unat_of_nat_u32 simp del: distribute.simps(2))

lemma read_exact_replies:
  assumes "quiet cl" and "length buf = length data" and "length buf < 2 ^ 32"
    and "peer_replies peer cl Read [as_bytes_IndexLength \<lparr>il_index_group = g, il_index_offset = off,
        il_length = of_nat (length buf)\<rparr>] (to_le_bytes (of_nat (length data) :: u32) @ data)"
  shows "\<exists>cl'. client_read_exact (stream_env peer) g off buf cl = (Ok data, cl') \<and> follows cl cl'"
  using communicate_replies [OF assms(1,4), of "to_le_bytes (0 :: u32)" "[buf]"] assms(2,3)
  by (auto simp: client_read_exact_def client_read_def u32_try_from_def length_to_le_bytes distribute_Cons
      from_to_le_bytes unat_of_nat_u32 simp del: distribute.simps(2))

text \<open>Nobody else uses the \<open>Ads\<close> while its calls run.\<close>

definition alone :: "(bytes \<Rightarrow> bytes) \<Rightarrow> ('a, 'n, Wire) AdsEnv \<Rightarrow> bool" where
  "alone peer env \<longleftrightarrow> client_env env = stream_env peer \<and> others env = (\<lambda>ads. ads)"

definition with_quiet :: "('a, 'n, Wire) Ads \<Rightarrow> nat \<Rightarrow> bool" where
  "with_quiet ads c \<longleftrightarrow> conn (connection ads) = Connected c \<and> quiet (clients (connection ads) c)"

lemma with_client_quiet:
  assumes "alone peer env" and "with_quiet ads c"
    and "callback (clients (connection ads) c) = (Ok v, cl')"
  shows "with_client env callback ads = (Ok v, ads\<lparr>connection := upd_client c cl' (connection ads)\<rparr>)"
  using assms by (simp add: with_client_def alone_def with_quiet_def conn_client_def quiet_def Let_def)

lemma with_quiet_upd:
  "with_quiet ads c \<Longrightarrow> quiet cl' \<Longrightarrow> with_quiet (ads\<lparr>connection := upd_client c cl' (connection ads)\<rparr>) c"
  by (simp add: with_quiet_def upd_client_def)

lemma clients_upd [simp]: "clients (upd_client c cl' st) c = cl'"
  by (simp add: upd_client_def)

lemma symbol_handle_asks:
  assumes "alone peer env" and "with_quiet ads c" and "symbol_handles ads symbol = None"
    and "length symbol < 2 ^ 32"
    and "peer_replies peer (clients (connection ads) c) ReadWrite
        [as_bytes_IndexLengthRW \<lparr>rw_index_group = GET_SYMHANDLE_BYNAME, rw_index_offset = 0,
           rw_read_length = 4, rw_write_length = of_nat (length symbol)\<rparr>, as_bytes symbol]
        (to_le_bytes (4 :: u32) @ to_le_bytes (handle :: u32))"
  shows "\<exists>cl'. symbol_handle env symbol ads
      = (Ok handle, ads\<lparr>connection := upd_client c cl' (connection ads),
           symbol_handles := (symbol_handles ads)(symbol \<mapsto> handle)\<rparr>)
    \<and> follows (clients (connection ads) c) cl'"
proof -
  have "length (as_bytes symbol) = length symbol"
    by (simp add: as_bytes_def)
  then obtain cl' where read: "client_read_write (stream_env peer) GET_SYMHANDLE_BYNAME 0 [0, 0, 0, 0]
      (as_bytes symbol) (clients (connection ads) c) = (Ok (4, to_le_bytes handle), cl')"
    and cl': "follows (clients (connection ads) c) cl'"
    using read_write_replies [of "clients (connection ads) c" "[0, 0, 0, 0]" "to_le_bytes handle"
        "as_bytes symbol" peer GET_SYMHANDLE_BYNAME 0] assms(2,4,5)
    by (auto simp: with_quiet_def length_to_le_bytes)
  have "get_symbol_handle env symbol ads = (Ok handle, ads\<lparr>connection := upd_client c cl' (connection ads)\<rparr>)"
    using read assms(1)
    by (simp add: get_symbol_handle_def alone_def with_client_quiet [OF assms(1,2)] from_to_le_bytes)
  with cl' assms(3) show ?thesis
    by (auto simp: symbol_handle_def)
qed

lemma read_symbol_asks:
  assumes "alone peer env" and "with_quiet ads c" and "symbol_handles ads symbol = None"
    and "length symbol < 2 ^ 32" and "data_size T < 2 ^ 32"
    and "reads_its_images T valid" and "valid (data_default T)" and "valid v"
    and "peer_replies peer (clients (connection ads) c) ReadWrite
        [as_bytes_IndexLengthRW \<lparr>rw_index_group = GET_SYMHANDLE_BYNAME, rw_index_offset = 0,
           rw_read_length = 4, rw_write_length = of_nat (length symbol)\<rparr>, as_bytes symbol]
        (to_le_bytes (4 :: u32) @ to_le_bytes (handle :: u32))"
    and "peer_replies peer ((clients (connection ads) c)
          \<lparr>next_invoke_id := next_invoke_id (clients (connection ads) c) + 1\<rparr>) Read
        [as_bytes_IndexLength \<lparr>il_index_group = RW_SYMVAL_BYHANDLE, il_index_offset = handle,
           il_length = of_nat (data_size T)\<rparr>]
        (to_le_bytes (of_nat (data_size T) :: u32) @ data_image T v)"
  shows "\<exists>cl2. read_symbol env T symbol ads
      = (Ok v, ads\<lparr>connection := upd_client c cl2 (connection ads),
           symbol_handles := (symbol_handles ads)(symbol \<mapsto> handle)\<rparr>)
    \<and> quiet cl2 \<and> next_invoke_id cl2 = next_invoke_id (clients (connection ads) c) + 2"
proof -
  note image = image_of [OF assms(6,7)] image_of [OF assms(6,8)]
  obtain cl1 where handle: "symbol_handle env symbol ads
      = (Ok handle, ads\<lparr>connection := upd_client c cl1 (connection ads),
           symbol_handles := (symbol_handles ads)(symbol \<mapsto> handle)\<rparr>)" (is "_ = (_, ?ads1)")
    and cl1: "follows (clients (connection ads) c) cl1"
    using symbol_handle_asks [OF assms(1-4,9)] by blast
  have quiet1: "with_quiet ?ads1 c"
    using assms(2) cl1 by (simp add: with_quiet_def upd_client_def follows_def)
  have "peer_replies peer cl1 Read [as_bytes_IndexLength \<lparr>il_index_group = RW_SYMVAL_BYHANDLE,
      il_index_offset = handle, il_length = of_nat (data_size T)\<rparr>]
      (to_le_bytes (of_nat (data_size T) :: u32) @ data_image T v)"
    using assms(10) by (simp add: peer_replies_after [OF cl1])
  then obtain cl2 where read: "client_read_exact (stream_env peer) RW_SYMVAL_BYHANDLE handle
      (data_image T (data_default T)) cl1 = (Ok (data_image T v), cl2)" and cl2: "follows cl1 cl2"
    using read_exact_replies [of cl1 "data_image T (data_default T)" "data_image T v" peer
        RW_SYMVAL_BYHANDLE handle] cl1 image assms(5)
    by (auto simp: follows_def)
  have "value_of T (data_image T v) = Ok v"
    using image(3) by (simp add: value_of_def ads_from_bytes_def)
  then have "read_symbol env T symbol ads
      = (Ok v, ?ads1\<lparr>connection := upd_client c cl2 (connection ?ads1)\<rparr>)"
    using handle read assms(1)
    by (simp add: read_symbol_def alone_def with_client_quiet [OF assms(1) quiet1])
  moreover have "?ads1\<lparr>connection := upd_client c cl2 (connection ?ads1)\<rparr>
      = ads\<lparr>connection := upd_client c cl2 (connection ads),
          symbol_handles := (symbol_handles ads)(symbol \<mapsto> handle)\<rparr>"
    by (simp add: upd_client_def)
  ultimately show ?thesis
    using cl1 cl2 by (auto simp: follows_def add.assoc)
qed

text \<open>
  C4: reading a symbol from scratch. On a quiet connection whose cache does not have the symbol,
  when the peer answers the request for the handle with a handle and then the read of that
  handle with the image of a value of the type, \<open>read_symbol\<close> returns that value, the handle is
  cached, and the connection is quiet again, two invoke IDs further.
\<close>

theorem read_symbol_from_scratch:
  assumes "alone peer env" and "with_quiet ads c" and "symbol_handles ads symbol = None"
    and "length symbol < 2 ^ 32" and "data_size T < 2 ^ 32"
    and "reads_its_images T valid" and "valid (data_default T)" and "valid v"
    and "peer_replies peer (clients (connection ads) c) ReadWrite
        [as_bytes_IndexLengthRW \<lparr>rw_index_group = GET_SYMHANDLE_BYNAME, rw_index_offset = 0,
           rw_read_length = 4, rw_write_length = of_nat (length symbol)\<rparr>, as_bytes symbol]
        (to_le_bytes (4 :: u32) @ to_le_bytes (handle :: u32))"
    and "peer_replies peer ((clients (connection ads) c)
          \<lparr>next_invoke_id := next_invoke_id (clients (connection ads) c) + 1\<rparr>) Read
        [as_bytes_IndexLength \<lparr>il_index_group = RW_SYMVAL_BYHANDLE, il_index_offset = handle,
           il_length = of_nat (data_size T)\<rparr>]
        (to_le_bytes (of_nat (data_size T) :: u32) @ data_image T v)"
  shows "\<exists>ads'. read_symbol env T symbol ads = (Ok v, ads')
    \<and> symbol_handles ads' = (symbol_handles ads)(symbol \<mapsto> handle) \<and> with_quiet ads' c
    \<and> next_invoke_id (clients (connection ads') c) = next_invoke_id (clients (connection ads) c) + 2"
  using read_symbol_asks [OF assms] assms(2) by (auto simp: with_quiet_def)

section \<open>Subscriptions\<close>

text \<open>A notification for us, given by its header and its stamps.\<close>

definition notifies :: "AmsAddr \<Rightarrow> AdsHeader \<times> stamp list \<Rightarrow> bool" where
  "notifies source = (\<lambda>(h, stamps). wf_frame (h, notification_payload stamps)
     \<and> for_us source (h, notification_payload stamps)
     \<and> command h = command_code Command.Notification \<and> state_flags h = 4 \<and> error_code h = 0
     \<and> length stamps < 2 ^ 32 \<and> list_all valid_stamp stamps)"

definition notification_frame :: "AdsHeader \<times> stamp list \<Rightarrow> frame" where
  "notification_frame = (\<lambda>(h, stamps). (h, notification_payload stamps))"

text \<open>The data the stamps carry for a handle, in order.\<close>

definition data_for :: "NotificationHandle \<Rightarrow> stamp list \<Rightarrow> bytes list" where
  "data_for handle stamps =
     map sm_data (filter (\<lambda>s. sm_handle s = handle) (concat (map stamp_samples stamps)))"

text \<open>Any other frame the reader goes on after carries no samples, for nobody.\<close>

definition mute :: "AmsAddr \<Rightarrow> frame \<Rightarrow> bool" where
  "mute source f \<longleftrightarrow> passing source f \<and> \<not> (\<exists>n. notifies source n \<and> f = notification_frame n)"

lemma accepted_message:
  assumes "notification_new (frame_bytes (h, p)) = Ok n"
    and "from_le_bytes (take 4 p) = (of_nat (length p) - 4 :: u32)"
  shows "\<exists>stamps. p = notification_payload stamps \<and> length stamps < 2 ^ 32 \<and> list_all valid_stamp stamps"
proof -
  obtain hdr stamps where hdr: "length hdr = 42" and ok: "length stamps < 2 ^ 32" "list_all valid_stamp stamps"
    and data: "as_bytes_AdsHeader h @ p = hdr @ to_le_bytes (of_nat (length stamps) :: u32) @ concat (map enc_stamp stamps)"
    using assms(1) by (auto simp: notification_new_iff enc_message_def)
  let ?body = "to_le_bytes (of_nat (length stamps) :: u32) @ concat (map enc_stamp stamps)"
  have p: "p = drop 38 hdr @ ?body"
    using arg_cong [OF data, of "drop 38"] hdr by (simp add: header_sizes)
  have "take 4 p = to_le_bytes (from_le_bytes (take 4 p) :: u32)"
    using hdr p by (simp add: to_from_le_bytes)
  also have "from_le_bytes (take 4 p) = (of_nat (length ?body) :: u32)"
    unfolding assms(2) using hdr by (simp add: p)
  finally have "drop 38 hdr = to_le_bytes (of_nat (length ?body) :: u32)"
    using hdr p by simp
  with p ok show ?thesis
    by (intro exI [of _ stamps]) (simp add: notification_payload_def Let_def)
qed

lemma mute_frame:
  assumes "mute source f"
  shows "channels (snd (handle_frame source (raw f) sh)) = channels sh"
proof -
  obtain h p where f: "f = (h, p)"
    by (cases f)
  have silent: "channels (snd (deliver_notification (frame_bytes f) sh)) = channels sh"
    if fr: "wf_frame f" "for_us source f" "command h = command_code Command.Notification"
      and ok: "state_flags h = 4" "error_code h = 0" "from_le_bytes (take 4 p) = data_length h - 4"
  proof (cases "notification_new (frame_bytes f)")
    case (Ok n)
    have "data_length h = of_nat (length p)"
      using fr(1) f by (metis of_nat_unat ucast_id wf_frame.simps)
    then obtain stamps where "p = notification_payload stamps" "length stamps < 2 ^ 32" "list_all valid_stamp stamps"
      using accepted_message [of h p n] Ok ok(3) f by auto
    with fr ok have "notifies source (h, stamps)" "f = notification_frame (h, stamps)"
      by (simp_all add: f notifies_def notification_frame_def)
    with assms show ?thesis
      by (auto simp: mute_def)
  qed (simp_all add: deliver_notification_def)
  have "passing source f"
    using assms by (simp add: mute_def)
  then show ?thesis
    using silent handle_frame_skipped [of h source p sh] handle_frame_raw [of h p source sh]
    by (auto simp: f dispatch_reply_def send_reply_def Let_def split: option.split)
qed

section \<open>What a subscriber can see\<close>

text \<open>
  What may happen on a client once \<open>subscribe\<close> has returned: the reader takes a notification or
  another frame off the stream; requests come and go; other subscriptions are made and deleted;
  the connection ends; the subscriber calls \<open>recv\<close>.
\<close>

datatype event =
    Notifies AdsHeader "stamp list"
  | Passes frame
  | Registers u32 nat
  | Withdraws u32
  | Subscribes NotificationHandle nat
  | Unsubscribes NotificationHandle
  | Ends error
  | Receives

primrec happens :: "AmsAddr \<Rightarrow> event \<Rightarrow> Shared \<Rightarrow> Shared" where
  "happens source (Notifies h stamps) sh = snd (handle_frame source (raw (notification_frame (h, stamps))) sh)"
| "happens source (Passes f) sh = snd (handle_frame source (raw f) sh)"
| "happens source (Registers i tx) sh = snd (register i tx sh)"
| "happens source (Withdraws i) sh = drop_pending i sh"
| "happens source (Subscribes h ch) sh =
     snd (subscribe h ch (sh\<lparr>channels := (channels sh)(ch := \<lparr>queue = [], receiver_open = True\<rparr>)\<rparr>))"
| "happens source (Unsubscribes h) sh = sh\<lparr>subscribers := AList.delete h (subscribers sh)\<rparr>"
| "happens source (Ends reason) sh = tear_down reason sh"
| "happens source Receives sh = sh"

text \<open>The notifications and frames are what they are named; a new subscription has a channel of its own.\<close>

primrec possible :: "AmsAddr \<Rightarrow> nat \<Rightarrow> event \<Rightarrow> bool" where
  "possible source ch (Notifies h stamps) = notifies source (h, stamps)"
| "possible source ch (Passes f) = mute source f"
| "possible source ch (Registers i tx) = True"
| "possible source ch (Withdraws i) = True"
| "possible source ch (Subscribes h ch') = (ch' \<noteq> ch)"
| "possible source ch (Unsubscribes h) = True"
| "possible source ch (Ends reason) = True"
| "possible source ch Receives = True"

text \<open>What the calls of \<open>recv\<close> return while these events happen.\<close>

fun received ::
  "AmsAddr \<Rightarrow> 't NotificationSubscription \<Rightarrow> event list \<Rightarrow> Shared \<Rightarrow> 't res option option list" where
  "received source sub [] sh = []"
| "received source sub (Receives # es) sh = (case recv sub sh of (r, sh') \<Rightarrow> r # received source sub es sh')"
| "received source sub (e # es) sh = received source sub es (happens source e sh)"

text \<open>
  What they should return: messages wait in a mailbox that is open until the connection ends, the
  subscription is deleted or its handle is taken over; what is carried for the handle while it is
  open is put in as long as fewer than 32 messages wait; what is in it can always be taken out.
\<close>

fun mailbox :: "NotificationHandle \<Rightarrow> event list \<Rightarrow> bool \<Rightarrow> bytes list \<Rightarrow> bytes option option list" where
  "mailbox handle [] opened ms = []"
| "mailbox handle (Notifies h stamps # es) opened ms =
     mailbox handle es opened (if opened then take 32 (ms @ data_for handle stamps) else ms)"
| "mailbox handle (Subscribes h ch # es) opened ms = mailbox handle es (opened \<and> h \<noteq> handle) ms"
| "mailbox handle (Unsubscribes h # es) opened ms = mailbox handle es (opened \<and> h \<noteq> handle) ms"
| "mailbox handle (Ends reason # es) opened ms = mailbox handle es False ms"
| "mailbox handle (Receives # es) opened [] = (if opened then None else Some None) # mailbox handle es opened []"
| "mailbox handle (Receives # es) opened (m # ms) = Some (Some m) # mailbox handle es opened ms"
| "mailbox handle (e # es) opened ms = mailbox handle es opened ms"

text \<open>The channel \<open>ch\<close> of the subscription is such a mailbox.\<close>

definition boxed :: "NotificationHandle \<Rightarrow> nat \<Rightarrow> bool \<Rightarrow> bytes list \<Rightarrow> Shared \<Rightarrow> bool" where
  "boxed handle ch opened ms sh \<longleftrightarrow>
     shared_ok sh \<and> queues_bounded sh \<and> receiver_open (channels sh ch) \<and> queue (channels sh ch) = ms
     \<and> (\<forall>h. map_of (subscribers sh) h = Some ch \<longleftrightarrow> opened \<and> h = handle) \<and> (opened \<longrightarrow> \<not> is_closed sh)"

lemma add_notification_replies:
  assumes "quiet cl" and "attr_length attrs < 2 ^ 32" and "attr_max_delay attrs < 2 ^ 32"
    and "attr_cycle_time attrs < 2 ^ 32"
    and "peer_replies peer cl AddNotification [as_bytes_AddNotif
        \<lparr>an_index_group = g, an_index_offset = off, an_length = of_nat (attr_length attrs),
           an_trans_mode = trans_mode_code (attr_trans_mode attrs),
           an_max_delay = of_nat (attr_max_delay attrs), an_cycle_time = of_nat (attr_cycle_time attrs)\<rparr>]
        (to_le_bytes (handle :: u32))"
    and "next_channel cl \<notin> snd ` set (subscribers (cl_shared cl))" and "shared_ok (cl_shared cl)"
  shows "\<exists>cl'. add_notification (stream_env peer) g off attrs cl = (Ok (next_channel cl, handle), cl')
    \<and> quiet cl' \<and> cl_source cl' = cl_source cl \<and> boxed handle (next_channel cl) True [] (cl_shared cl')"
proof -
  obtain cl1 where call: "communicate (stream_env peer) AddNotification [as_bytes_AddNotif
        \<lparr>an_index_group = g, an_index_offset = off, an_length = of_nat (attr_length attrs),
           an_trans_mode = trans_mode_code (attr_trans_mode attrs),
           an_max_delay = of_nat (attr_max_delay attrs), an_cycle_time = of_nat (attr_cycle_time attrs)\<rparr>]
        [to_le_bytes (0 :: u32)] cl = (Ok (4, [to_le_bytes handle]), cl1)"
    and cl1: "follows cl cl1"
    using communicate_replies [OF assms(1,5), of "to_le_bytes (0 :: u32)" "[]"]
    by (auto simp: length_to_le_bytes distribute_Cons simp del: distribute.simps(2))
  let ?ch = "next_channel cl"
  let ?sh = "(cl_shared cl1)\<lparr>channels := (channels (cl_shared cl1))(?ch := \<lparr>queue = [], receiver_open = True\<rparr>),
      subscribers := AList.update handle ?ch (subscribers (cl_shared cl1))\<rparr>"
  have add: "add_notification (stream_env peer) g off attrs cl
      = (Ok (?ch, handle), cl1\<lparr>next_channel := ?ch + 1, cl_shared := ?sh\<rparr>)"
    using call cl1 assms(2-4)
    by (simp add: add_notification_def u32_try_from_def from_to_le_bytes new_channel_def subscribe_channel_def
        subscribe_def follows_def quiet_def client_is_closed_def is_closed_def Let_def)
  have fresh: "map_of (subscribers (cl_shared cl1)) h \<noteq> Some ?ch" for h
    using assms(6) cl1 by (auto simp: follows_def dest!: map_of_SomeD) force
  have quiet: "quiet (cl1\<lparr>next_channel := ?ch + 1, cl_shared := ?sh\<rparr>)"
    using cl1 by (simp add: follows_def quiet_def client_is_closed_def is_closed_def queues_bounded_def)
  moreover have "shared_ok ?sh"
    using keepsD [OF shared_session.stream.keeps_add_notification assms(7), of peer g off attrs] by (simp add: add)
  then have "boxed handle ?ch True [] ?sh"
    using quiet fresh by (simp add: boxed_def update_conv' quiet_def client_is_closed_def)
  ultimately show ?thesis
    using add cl1 by (simp add: follows_def)
qed

lemma boxed_subscribed:
  assumes "boxed handle ch opened ms sh"
  shows "ch \<in> snd ` set (subscribers sh) \<longleftrightarrow> opened"
proof -
  have "distinct (map fst (subscribers sh))" and box: "\<And>h. map_of (subscribers sh) h = Some ch \<longleftrightarrow> opened \<and> h = handle"
    using assms by (simp_all add: boxed_def shared_ok_def)
  then have entry: "(h, ch) \<in> set (subscribers sh) \<longleftrightarrow> opened \<and> h = handle" for h
    by (metis map_of_eq_Some_iff)
  show ?thesis
  proof
    assume "ch \<in> snd ` set (subscribers sh)"
    then obtain h where "(h, ch) \<in> set (subscribers sh)"
      by auto
    with entry show opened
      by blast
  next
    assume opened
    with entry [of handle] show "ch \<in> snd ` set (subscribers sh)"
      by (metis image_eqI snd_conv)
  qed
qed

lemma boxed_notified:
  assumes "boxed handle ch opened ms sh" and "notifies source (h, stamps)"
  shows "boxed handle ch opened (if opened then take 32 (ms @ data_for handle stamps) else ms)
    (happens source (Notifies h stamps) sh)"
proof -
  let ?ss = "concat (map stamp_samples stamps)" and ?sh = "happens source (Notifies h stamps) sh"
  have sh: "?sh = snd (deliver_samples ?ss sh)"
    using handle_notification_frame [of h stamps source sh] assms(2)
    by (simp add: notifies_def notification_frame_def)
  have box: "shared_ok sh" "queues_bounded sh" "receiver_open (channels sh ch)" "queue (channels sh ch) = ms"
    using assms(1) by (simp_all add: boxed_def)
  have "samples_for sh ch ?ss = (if opened then data_for handle stamps else [])"
    using assms(1) by (auto simp: boxed_def samples_for_def data_for_def)
  moreover have "take 32 ms = ms"
    using box(2,4) by (auto simp: queues_bounded_def CHANNEL_CAPACITY_def)
  ultimately have "queue (channels ?sh ch) = (if opened then take 32 (ms @ data_for handle stamps) else ms)"
    using deliver_samples_spec [OF box(2), of ?ss ch] box(3,4) unfolding sh by simp
  moreover have "receiver_open (channels ?sh ch)"
    using reader_receivers.keeps_samples [of sh "\<lambda>ch. receiver_open (channels sh ch)" ?ss] box(3)
    unfolding sh by (simp add: fun_eq_iff)
  moreover have "shared_ok ?sh" "queues_bounded ?sh"
    unfolding sh by (rule reader_shared.keeps_samples [OF box(1)] reader_queues.keeps_samples [OF box(2)])+
  ultimately show ?thesis
    using assms(1) deliver_samples_fields [of ?ss sh] unfolding sh by (simp add: boxed_def is_closed_def)
qed

lemma boxed_passed:
  assumes "boxed handle ch opened ms sh" and "mute source f"
  shows "boxed handle ch opened ms (happens source (Passes f) sh)"
proof -
  let ?sh = "happens source (Passes f) sh"
  have "subscribers ?sh = subscribers sh \<and> closed ?sh = closed sh"
    using keepsD [OF reader_frame.keeps_frame, of sh "subscribers sh" "closed sh"] by simp
  moreover have "shared_ok ?sh"
    using assms(1) keepsD [OF reader_shared.keeps_frame, of sh] by (simp add: boxed_def)
  ultimately show ?thesis
    using assms mute_frame [OF assms(2), of sh] by (simp add: boxed_def queues_bounded_def is_closed_def)
qed

lemma boxed_subscribes:
  assumes "boxed handle ch opened ms sh" and "ch' \<noteq> ch"
  shows "boxed handle ch (opened \<and> h \<noteq> handle) ms (happens source (Subscribes h ch') sh)"
proof -
  let ?sh = "sh\<lparr>channels := (channels sh)(ch' := \<lparr>queue = [], receiver_open = True\<rparr>)\<rparr>"
  have "shared_ok ?sh"
    using assms(1) by (simp add: boxed_def shared_ok_def is_closed_def)
  then have "shared_ok (snd (subscribe h ch' ?sh))"
    by (rule shared_ok_subscribe)
  with assms show ?thesis
    by (auto simp: boxed_def subscribe_def is_closed_def queues_bounded_def update_conv')
qed

lemma boxed_step:
  "boxed handle ch opened' ms' sh' \<Longrightarrow>
   (\<And>es. mailbox handle (e # es) opened ms = mailbox handle es opened' ms') \<Longrightarrow>
   \<exists>opened' ms'. boxed handle ch opened' ms' sh'
     \<and> (\<forall>es. mailbox handle (e # es) opened ms = mailbox handle es opened' ms')"
  by blast

lemma boxed_happens:
  assumes "boxed handle ch opened ms sh" and "possible source ch e" and "receiver sub = ch" and "e \<noteq> Receives"
  shows "\<exists>opened' ms'. boxed handle ch opened' ms' (happens source e sh)
    \<and> (\<forall>es. mailbox handle (e # es) opened ms = mailbox handle es opened' ms')"
proof (cases e)
  case (Notifies h stamps)
  then show ?thesis
    using assms(2) unfolding Notifies
    by (intro boxed_step [OF boxed_notified [OF assms(1)]]) simp_all
next
  case (Passes f)
  then show ?thesis
    using assms(2) unfolding Passes
    by (intro boxed_step [OF boxed_passed [OF assms(1)]]) simp_all
next
  case (Registers i tx)
  have "boxed handle ch opened ms (happens source (Registers i tx) sh)"
    using assms(1) shared_ok_register [of sh i tx]
    by (auto simp: boxed_def register_def queues_bounded_def is_closed_def)
  then show ?thesis
    unfolding Registers by (rule boxed_step) simp
next
  case (Withdraws i)
  have "boxed handle ch opened ms (happens source (Withdraws i) sh)"
    using assms(1) shared_ok_drop_pending [of sh i]
    by (auto simp: boxed_def drop_pending_def queues_bounded_def is_closed_def)
  then show ?thesis
    unfolding Withdraws by (rule boxed_step) simp
next
  case (Subscribes h ch')
  then show ?thesis
    using assms(2) unfolding Subscribes
    by (intro boxed_step [OF boxed_subscribes [OF assms(1)]]) simp_all
next
  case (Unsubscribes h)
  have "shared_ok (happens source (Unsubscribes h) sh)"
    using assms(1) shared_session.keeps_unsubscribe [of sh h] by (simp add: boxed_def)
  then have "boxed handle ch (opened \<and> h \<noteq> handle) ms (happens source (Unsubscribes h) sh)"
    using assms(1) by (auto simp: boxed_def queues_bounded_def is_closed_def delete_conv')
  then show ?thesis
    unfolding Unsubscribes by (rule boxed_step) simp
next
  case (Ends reason)
  have "boxed handle ch False ms (happens source (Ends reason) sh)"
    using assms(1) shared_ok_tear_down [of sh reason]
    by (auto simp: boxed_def queues_bounded_def tear_down_fields shared_ok_def)
  then show ?thesis
    unfolding Ends by (rule boxed_step) simp
qed (use assms(4) in simp)

lemma boxed_take:
  assumes "boxed handle (receiver sub) opened (m # ms) sh"
  shows "\<exists>sh'. recv sub sh = (Some (Some (sub_from_bytes sub m)), sh')
    \<and> boxed handle (receiver sub) opened ms sh'"
proof -
  let ?sh = "sh\<lparr>channels := (channels sh)(receiver sub := (channels sh (receiver sub))\<lparr>queue := ms\<rparr>)\<rparr>"
  have box: "queue (channels sh (receiver sub)) = m # ms" "queues_bounded sh"
    using assms by (simp_all add: boxed_def)
  from box have "length ms \<le> CHANNEL_CAPACITY"
    by (metis Suc_leD length_Cons queues_bounded_def)
  with box have "queues_bounded ?sh"
    by (simp add: queues_bounded_def)
  with assms have "boxed handle (receiver sub) opened ms ?sh"
    by (simp add: boxed_def shared_ok_def is_closed_def)
  with box show ?thesis
    by (simp add: recv_def Let_def)
qed

lemma boxed_received:
  "boxed handle (receiver sub) opened ms sh \<Longrightarrow> list_all (possible source (receiver sub)) es \<Longrightarrow>
     received source sub es sh
     = map (map_option (map_option (sub_from_bytes sub))) (mailbox handle es opened ms)"
proof (induction es arbitrary: sh opened ms)
  case (Cons e es)
  show ?case
  proof (cases "e = Receives")
    case True
    show ?thesis
    proof (cases ms)
      case Nil
      then have "recv sub sh = (if opened then None else Some None, sh)"
        using Cons.prems(1) boxed_subscribed [OF Cons.prems(1)] by (simp add: recv_def Let_def boxed_def)
      then show ?thesis
        using True Nil Cons.IH [OF Cons.prems(1)] Cons.prems(2) by simp
    next
      case (Cons m ms')
      obtain sh' where recv: "recv sub sh = (Some (Some (sub_from_bytes sub m)), sh')"
        and "boxed handle (receiver sub) opened ms' sh'"
        using boxed_take [OF Cons.prems(1) [unfolded Cons]] by blast
      then have "received source sub es sh'
          = map (map_option (map_option (sub_from_bytes sub))) (mailbox handle es opened ms')"
        using Cons.IH Cons.prems(2) by simp
      with recv show ?thesis
        by (simp add: True Cons)
    qed
  next
    case False
    then have "received source sub (e # es) sh = received source sub es (happens source e sh)"
      by (cases e) simp_all
    moreover obtain opened' ms' where "boxed handle (receiver sub) opened' ms' (happens source e sh)"
      and "mailbox handle (e # es) opened ms = mailbox handle es opened' ms'"
      using boxed_happens [OF Cons.prems(1) _ refl False, of source] Cons.prems(2) by auto
    ultimately show ?thesis
      using Cons.IH Cons.prems(2) by simp
  qed
qed simp

text \<open>
  C3: a subscription delivers. On a quiet connection that has the symbol's handle, when the peer
  accepts the subscription, \<open>subscribe\<close> succeeds; and from then on, whatever happens on the client
  and in whatever order, the calls of \<open>recv\<close> return what the mailbox of the handle returns: the data
  that the notifications after \<open>subscribe\<close> carry for the handle, decoded and in order, less what
  arrives while 32 messages wait unread; after the end of the subscription what still waits, and
  then that there is nothing more to come.
\<close>

theorem subscription_delivers:
  assumes "alone peer env" and "with_quiet ads c" and "symbol_handles ads symbol = Some symbol_id"
    and "data_size T < 2 ^ 32"
    and "peer_replies peer (clients (connection ads) c) AddNotification [as_bytes_AddNotif
        \<lparr>an_index_group = RW_SYMVAL_BYHANDLE, an_index_offset = symbol_id, an_length = of_nat (data_size T),
           an_trans_mode = trans_mode_code mode, an_max_delay = 0, an_cycle_time = 10\<rparr>]
        (to_le_bytes (handle :: u32))"
    and "next_channel (clients (connection ads) c) \<notin> snd ` set (subscribers (cl_shared (clients (connection ads) c)))"
    and "shared_ok (cl_shared (clients (connection ads) c))"
  shows "\<exists>sub ads'. subscribe_value env T symbol mode ads = (Ok sub, ads') \<and> with_quiet ads' c
    \<and> (\<forall>es. list_all (possible (cl_source (clients (connection ads) c)) (receiver sub)) es \<longrightarrow>
         received (cl_source (clients (connection ads) c)) sub es (cl_shared (clients (connection ads') c))
         = map (map_option (map_option (\<lambda>m. Ok (ads_from_bytes T m)))) (mailbox handle es True []))"
proof -
  let ?cl = "clients (connection ads) c" and ?attrs = "subscription_attributes (data_size T) mode"
  obtain cl where add: "add_notification (stream_env peer) RW_SYMVAL_BYHANDLE symbol_id ?attrs ?cl
      = (Ok (next_channel ?cl, handle), cl)"
    and cl: "quiet cl" and box: "boxed handle (next_channel ?cl) True [] (cl_shared cl)"
    using add_notification_replies [of ?cl ?attrs peer RW_SYMVAL_BYHANDLE symbol_id handle] assms(2,4-7)
    by (auto simp: subscription_attributes_def with_quiet_def)
  let ?ads = "ads\<lparr>connection := upd_client c cl (connection ads)\<rparr>"
  let ?sub = "\<lparr>sub_client = c, receiver = next_channel ?cl,
      sub_from_bytes = (\<lambda>payload. Ok (ads_from_bytes T payload))\<rparr>"
  have "subscribe_value env T symbol mode ads = (Ok ?sub, ?ads)"
    using add assms(1-3)
    by (simp add: subscribe_value_def subscribe_inner_def symbol_handle_def alone_def
        with_client_quiet [OF assms(1,2)] Let_def bindS_def)
      (simp add: with_quiet_def conn_client_def quiet_def)
  moreover have "with_quiet ?ads c"
    using assms(2) cl by (rule with_quiet_upd)
  moreover have "received source ?sub es (cl_shared cl)
      = map (map_option (map_option (\<lambda>m. Ok (ads_from_bytes T m)))) (mailbox handle es True [])"
    if "list_all (possible source (next_channel ?cl)) es" for source es
    using boxed_received [of handle ?sub True "[]" "cl_shared cl" source es] box that by simp
  ultimately show ?thesis
    by (intro exI [of _ ?sub] exI [of _ ?ads]) simp
qed

section \<open>Samples\<close>

text \<open>A peer that sends the replies to both requests each time; the other one is late or early.\<close>

definition both_peer :: "bytes \<Rightarrow> bytes" where
  "both_peer request = concat (map frame_bytes
     [(handle_reply, [0, 0, 0, 0, 4, 0, 0, 0, 7, 0, 0, 0]),
      (demo_reply\<lparr>invoke_id := 2\<rparr>, [0, 0, 0, 0, 4, 0, 0, 0, 1, 2, 3, 4])])"

definition alone_env :: "(bytes \<Rightarrow> bytes) \<Rightarrow> (string, unit, Wire) AdsEnv" where
  "alone_env peer = (demo_env peer)\<lparr>others := (\<lambda>ads. ads)\<rparr>"

lemma alone_demo: "alone peer (alone_env peer)"
  by (simp add: alone_def alone_env_def)

lemma quiet_demo: "with_quiet (demo_ads handles) 0"
  by (simp add: with_quiet_def quiet_def demo_client_def client_is_closed_def is_closed_def shared_new_def
      queues_bounded_def)

lemma peer_repliesI:
  assumes "32 + length (concat payload) < 2 ^ 32"
    and "\<And>request. peer request = concat (map frame_bytes fs)"
    and "list_all (\<lambda>f. wf_frame f \<and> harmless (cl_source cl) f) fs"
    and "find (answers (cl_source cl) (next_invoke_id cl)) fs = Some (h, [0, 0, 0, 0] @ data)"
    and "reply_matches (cl_target cl) cmd (next_invoke_id cl) h" and "error_code h = 0"
  shows "peer_replies peer cl cmd payload data"
  unfolding peer_replies_def using assms by (intro exI conjI) (simp_all add: build_request_eq)

theorem read_symbol_from_scratch_witness:
  "\<exists>ads'. read_symbol (alone_env both_peer) udint_data ''MAIN.n'' (demo_ads (\<lambda>_. None)) = (Ok (AdsUdint 0x04030201), ads')
    \<and> symbol_handles ads' = [''MAIN.n'' \<mapsto> 7]"
proof -
  have handle: "peer_replies both_peer demo_client ReadWrite
      [as_bytes_IndexLengthRW \<lparr>rw_index_group = GET_SYMHANDLE_BYNAME, rw_index_offset = 0,
         rw_read_length = 4, rw_write_length = of_nat (length ''MAIN.n'')\<rparr>, as_bytes ''MAIN.n'']
      (to_le_bytes (4 :: u32) @ to_le_bytes (7 :: u32))"
    by (rule peer_repliesI [OF _ both_peer_def, where h = handle_reply])
      (simp_all add: as_bytes_def as_bytes_IndexLengthRW_def length_to_le_bytes demo_fields handle_reply_def
        demo_reply_def reply_header_def reply_matches_def to_le_bytes_def)
  have read: "peer_replies both_peer (demo_client\<lparr>next_invoke_id := next_invoke_id demo_client + 1\<rparr>) Read
      [as_bytes_IndexLength \<lparr>il_index_group = RW_SYMVAL_BYHANDLE, il_index_offset = 7,
         il_length = of_nat (data_size udint_data)\<rparr>]
      (to_le_bytes (of_nat (data_size udint_data) :: u32) @ data_image udint_data (AdsUdint 0x04030201))"
    by (rule peer_repliesI [OF _ both_peer_def, where h = "demo_reply\<lparr>invoke_id := 2\<rparr>"])
      (simp_all add: as_bytes_IndexLength_def length_to_le_bytes demo_fields handle_reply_def
        demo_reply_def reply_header_def reply_matches_def to_le_bytes_def demo_value)
  show ?thesis
    using read_symbol_from_scratch [OF alone_demo quiet_demo, of "\<lambda>_. None" "''MAIN.n''" udint_data "\<lambda>_. True"
        "AdsUdint 0x04030201" both_peer 7] handle read udint_ads.reads_images
    by (auto simp: demo_value)
qed

text \<open>A peer that accepts a subscription under the handle 5.\<close>

definition subscribed_peer :: "bytes \<Rightarrow> bytes" where
  "subscribed_peer request = concat (map frame_bytes
     [((reply_header 1)\<lparr>command := 6, hdr_length := 40, data_length := 8\<rparr>, [0, 0, 0, 0, 5, 0, 0, 0])])"

theorem subscription_delivers_witness:
  "\<exists>sub ads'. subscribe_value (alone_env subscribed_peer) bool_data ''MAIN.b'' ServerOnChange
        (demo_ads [''MAIN.b'' \<mapsto> 9]) = (Ok sub, ads')
    \<and> received (cl_source demo_client) sub
        [Receives, Notifies (notification_header 38) [(7, [(5, [1]), (6, [43])])],
         Passes (reply_header 9, [0, 0, 0, 0]), Receives, Ends Overflow, Receives]
        (cl_shared (clients (connection ads') 0))
      = [None, Some (Some (Ok (Some (AdsBool 1)))), Some None]"
proof -
  let ?es = "[Receives, Notifies (notification_header 38) [(7, [(5, [1]), (6, [43])])],
      Passes (reply_header 9, [0, 0, 0, 0]), Receives, Ends Overflow, Receives]"
  have reply: "peer_replies subscribed_peer demo_client AddNotification [as_bytes_AddNotif
        \<lparr>an_index_group = RW_SYMVAL_BYHANDLE, an_index_offset = 9, an_length = of_nat (data_size bool_data),
           an_trans_mode = trans_mode_code ServerOnChange, an_max_delay = 0, an_cycle_time = 10\<rparr>]
        (to_le_bytes (5 :: u32))"
    by (rule peer_repliesI [OF _ subscribed_peer_def,
          where h = "(reply_header 1)\<lparr>command := 6, hdr_length := 40, data_length := 8\<rparr>"])
      (simp_all add: as_bytes_AddNotif_def length_to_le_bytes demo_fields reply_header_def
        reply_matches_def to_le_bytes_def)
  have next_channel: "next_channel demo_client \<notin> snd ` set (subscribers (cl_shared demo_client))"
    and shared: "shared_ok (cl_shared demo_client)"
    by (simp_all add: demo_client_def demo_shared) (simp add: shared_new_def)
  obtain sub :: "AdsBool option NotificationSubscription" and ads'
    where sub: "subscribe_value (alone_env subscribed_peer) bool_data ''MAIN.b'' ServerOnChange
        (demo_ads [''MAIN.b'' \<mapsto> 9]) = (Ok sub, ads')"
    and delivers: "\<forall>es. list_all (possible (cl_source demo_client) (receiver sub)) es \<longrightarrow>
      received (cl_source demo_client) sub es (cl_shared (clients (connection ads') 0))
      = map (map_option (map_option (\<lambda>m. Ok (ads_from_bytes bool_data m)))) (mailbox 5 es True [])"
    using subscription_delivers [OF alone_demo quiet_demo, of "[''MAIN.b'' \<mapsto> 9]" "''MAIN.b''" 9 bool_data
        subscribed_peer ServerOnChange 5] reply next_channel shared
    by (auto simp: sample_sizes)
  have "mailbox 5 ?es True [] = [None, Some (Some [1]), Some None]"
    by (simp add: data_for_def stamp_samples_def)
  moreover have "list_all (possible (cl_source demo_client) (receiver sub)) ?es"
    by (simp add: notifies_def mute_def notification_frame_def notification_header_def notification_payload_def
        Let_def length_to_le_bytes enc_stamp_def enc_sample_def valid_stamp_def valid_sample_def demo_fields
        reply_header_def)
  moreover have "ads_from_bytes bool_data [1] = Some (AdsBool 1)"
    by (simp add: ads_from_bytes_def data_defs word_read_from_bytes_def from_le_bytes_def)
  ultimately have "received (cl_source demo_client) sub ?es (cl_shared (clients (connection ads') 0))
      = [None, Some (Some (Ok (Some (AdsBool 1)))), Some None]"
    using delivers [THEN spec, of ?es] by simp
  with sub show ?thesis
    by blast
qed

text \<open>
  A peer that sends the replies to the requests of a whole session each time: the run state, a
  handle, and a value.
\<close>

definition session_peer :: "bytes \<Rightarrow> bytes" where
  "session_peer request = concat (map frame_bytes
     [((reply_header 1)\<lparr>command := 4, hdr_length := 40, data_length := 8\<rparr>, [0, 0, 0, 0, 5, 0, 0, 0]),
      (handle_reply\<lparr>invoke_id := 2\<rparr>, [0, 0, 0, 0, 4, 0, 0, 0, 7, 0, 0, 0]),
      (demo_reply\<lparr>invoke_id := 3\<rparr>, [0, 0, 0, 0, 4, 0, 0, 0, 1, 2, 3, 4])])"

definition session_builder :: "((u8 \<times> u8 \<times> u8 \<times> u8) \<times> u16) AdsBuilder" where
  "session_builder = builder_source (AmsAddr netid_local 30000)
     (builder_timeouts (timeouts_new 1000) (builder_new (AmsAddr netid_local 851)))"

definition session_calls :: "(AdsUdint, nat) ads_call list" where
  "session_calls = [Connect, ReadSymbol udint_data ''MAIN.n'']"

lemma session_run_mode:
  "\<exists>cl. ensure_run_mode (stream_env session_peer) m demo_client = (Ok (), cl) \<and> follows demo_client cl"
proof -
  have "peer_replies session_peer demo_client Command.ReadState [] [5, 0, 0, 0]"
    by (rule peer_repliesI [OF _ session_peer_def,
          where h = "(reply_header 1)\<lparr>command := 4, hdr_length := 40, data_length := 8\<rparr>"])
      (simp_all add: demo_fields handle_reply_def demo_reply_def reply_header_def reply_matches_def)
  moreover have "quiet demo_client"
    using quiet_demo by (simp add: with_quiet_def)
  ultimately obtain cl where "communicate (stream_env session_peer) Command.ReadState [] [replicate 4 0] demo_client
      = (Ok (4, [[5, 0, 0, 0]]), cl)" and cl: "follows demo_client cl"
    using communicate_replies [of demo_client session_peer Command.ReadState "[]" "[5, 0, 0, 0]" "replicate 4 0" "[]"]
    by (auto simp: numeral_eq_Suc)
  then have "read_state (stream_env session_peer) demo_client = (Ok \<lparr>ads_state = Run, device_state = 0\<rparr>, cl)"
    by (simp add: read_state_def read_ReadState_def ads_state_try_from_def from_le_bytes_def slice_def)
  with cl show ?thesis
    by (simp add: ensure_run_mode_def is_run_mode_def)
qed

lemma session_connects:
  assumes "build (\<lambda>r. Inr [''router'']) (connection (demo_ads (\<lambda>_. None))) session_builder = Inr ads0"
  shows "let ads = run_ads (unshared (alone_env session_peer)) (Connect :: (AdsUdint, nat) ads_call) ads0
    in with_quiet ads 2 \<and> follows demo_client (clients (connection ads) 2) \<and> symbol_handles ads = (\<lambda>_. None)"
proof -
  obtain cl where run: "ensure_run_mode (stream_env session_peer) False demo_client = (Ok (), cl)"
    and cl: "follows demo_client cl"
    using session_run_mode by blast
  have built: "ads0 = (demo_ads (\<lambda>_. None))\<lparr>ads_source := Some (AmsAddr netid_local 30000),
      connection := (connection (demo_ads (\<lambda>_. None)))\<lparr>conn := NotConnected\<rparr>\<rparr>"
    using assms
    by (simp add: build_def ads_new_def session_builder_def builder_source_def builder_timeouts_def
        builder_new_def demo_ads_def)
  have "client_new (dialer (alone_env session_peer)) [''router''] (AmsAddr netid_local 851)
      (Some (AmsAddr netid_local 30000)) (timeouts_new 1000) () = (Ok demo_client, ())"
    by (simp add: client_new_def bindS_def returnS_def open_socket_def disable_nagle_def determine_source_def
        alone_env_def demo_env_def timeouts_new_def demo_client_def demo_wire_def)
  then show ?thesis
    using cl run unfolding built
    by (simp add: ads_connect_def conn_connect_def Let_def conn_is_connected_def conn_client_def
        conn_disconnect_def demo_ads_def alone_env_def upd_client_def with_quiet_def follows_def)
qed

theorem handles_follow_connection_witness:
  "\<exists>ads0. build (\<lambda>r. Inr [''router'']) (connection (demo_ads (\<lambda>_. None))) session_builder = Inr ads0
    \<and> symbol_handles (run_calls (alone_env session_peer) session_calls ads0) ''MAIN.n'' = Some 7
    \<and> (\<exists>k c. fetched (alone_env session_peer) (run_calls (alone_env session_peer) (take k session_calls) ads0)
          ''MAIN.n'' 7 c
        \<and> conn (connection (run_calls (alone_env session_peer) session_calls ads0)) = Connected c)"
proof -
  let ?env = "alone_env session_peer"
  obtain ads0 where built: "build (\<lambda>r. Inr [''router'']) (connection (demo_ads (\<lambda>_. None))) session_builder = Inr ads0"
    by (simp add: build_def ads_new_def)
  let ?ads1 = "run_ads (unshared ?env) (Connect :: (AdsUdint, nat) ads_call) ads0"
  have up: "with_quiet ?ads1 2" "follows demo_client (clients (connection ?ads1) 2)"
      "symbol_handles ?ads1 = (\<lambda>_. None)"
    using session_connects [OF built] by (simp_all add: Let_def)
  have alone: "alone session_peer (unshared ?env)"
    using alone_demo by (simp add: alone_def)
  have handle: "peer_replies session_peer (clients (connection ?ads1) 2) ReadWrite
      [as_bytes_IndexLengthRW \<lparr>rw_index_group = GET_SYMHANDLE_BYNAME, rw_index_offset = 0,
         rw_read_length = 4, rw_write_length = of_nat (length ''MAIN.n'')\<rparr>, as_bytes ''MAIN.n'']
      (to_le_bytes (4 :: u32) @ to_le_bytes (7 :: u32))"
    unfolding peer_replies_after [OF up(2)]
    by (rule peer_repliesI [OF _ session_peer_def, where h = "handle_reply\<lparr>invoke_id := 2\<rparr>"])
      (simp_all add: as_bytes_def as_bytes_IndexLengthRW_def length_to_le_bytes demo_fields handle_reply_def
        demo_reply_def reply_header_def reply_matches_def to_le_bytes_def)
  have "peer_replies session_peer ((clients (connection ?ads1) 2)
        \<lparr>next_invoke_id := next_invoke_id (clients (connection ?ads1) 2) + 1\<rparr>) Read
      [as_bytes_IndexLength \<lparr>il_index_group = RW_SYMVAL_BYHANDLE, il_index_offset = 7,
         il_length = of_nat (data_size udint_data)\<rparr>]
      (to_le_bytes (of_nat (data_size udint_data) :: u32) @ data_image udint_data (AdsUdint 0x04030201))"
    using up(2)
    by (intro peer_repliesI [OF _ session_peer_def, where h = "demo_reply\<lparr>invoke_id := 3\<rparr>"])
      (simp_all add: follows_def as_bytes_IndexLength_def length_to_le_bytes demo_fields handle_reply_def
        demo_reply_def reply_header_def reply_matches_def to_le_bytes_def demo_value)
  then have "symbol_handles (snd (read_symbol (unshared ?env) udint_data ''MAIN.n'' ?ads1)) ''MAIN.n'' = Some 7"
    using read_symbol_asks [OF alone up(1), of "''MAIN.n''" udint_data "\<lambda>_. True" "AdsUdint 0x04030201" 7]
      up(3) handle udint_ads.reads_images
    by (auto simp: demo_value)
  then have cached: "symbol_handles (run_calls ?env session_calls ads0) ''MAIN.n'' = Some 7"
    by (simp add: run_calls_def session_calls_def)
  obtain k c where k: "k < length session_calls"
      and "fetched ?env (run_calls ?env (take k session_calls) ads0) ''MAIN.n'' 7 c"
    and "\<forall>j. k \<le> j \<and> j \<le> length session_calls \<longrightarrow>
      conn (connection (run_calls ?env (take j session_calls) ads0)) = Connected c"
    using handles_follow_connection [OF built cached] by blast
  then have "conn (connection (run_calls ?env (take (length session_calls) session_calls) ads0)) = Connected c"
    by (metis le_refl less_imp_le)
  with built cached k show ?thesis
    using \<open>fetched ?env (run_calls ?env (take k session_calls) ads0) ''MAIN.n'' 7 c\<close> unfolding take_all_iff
    by (metis order_refl take_all)
qed

end
