(* ===== verification/SymWire.thy ===== *)
theory SymWire
  imports SymType
begin

text \<open>
  The format of the symbol and type tables, as encoders: what a PLC sends for a given list of
  symbols and types. The lemmas show that the decoders of theory \<open>SymType\<close> are inverse to
  them; each piece is an interpretation of the interface \<open>wire_codec\<close>, whose lemmas lift it to
  the counted sequences.

  Fields that the decoders skip are written as zeros; the comment and the further parts of a
  symbol entry, which the decoder jumps over, are any bytes.
\<close>

section \<open>Strings\<close>

definition enc_str :: "string \<Rightarrow> bytes" where
  "enc_str s = as_bytes s @ [0]"

definition fits :: "nat \<Rightarrow> string \<Rightarrow> bool" where
  "fits capacity s \<longleftrightarrow> length s < capacity \<and> valid_utf8 (as_bytes s)"

lemma fits_less: "fits capacity s \<Longrightarrow> length s < capacity"
  by (simp add: fits_def)

lemma read_str_enc [simp]:
  "fits capacity s \<Longrightarrow> n = length s \<Longrightarrow> read_str capacity ctx n (enc_str s @ rest) = Ok (s, rest)"
  by (simp add: read_str_def enc_str_def fits_def bindR_def read_exact_def from_utf8_lossy_valid)

lemma unat_of_nat_u8: "n < 256 \<Longrightarrow> unat (of_nat n :: u8) = n"
  by (simp add: unat_of_nat)

lemma unat_of_nat_u16: "n < 65536 \<Longrightarrow> unat (of_nat n :: u16) = n"
  by (simp add: unat_of_nat)

abbreviation u8_len :: "'a list \<Rightarrow> bytes" where "u8_len xs \<equiv> to_le_bytes (of_nat (length xs) :: u8)"
abbreviation u16_len :: "'a list \<Rightarrow> bytes" where "u16_len xs \<equiv> to_le_bytes (of_nat (length xs) :: u16)"

section \<open>Attributes and enum variants\<close>

definition enc_attribute :: "Attribute \<Rightarrow> bytes" where
  "enc_attribute a = u8_len (at_name a) @ u8_len (at_value a) @ enc_str (at_name a) @ enc_str (at_value a)"

definition valid_attribute :: "Attribute \<Rightarrow> bool" where
  "valid_attribute a \<longleftrightarrow> fits 256 (at_name a) \<and> fits 256 (at_value a)"

interpretation attribute: wire_codec enc_attribute parse_attribute valid_attribute
  by unfold_locales
    (simp add: enc_attribute_def parse_attribute_def valid_attribute_def Let_def read_le_append
      unat_of_nat_u8 fits_less)

definition enc_attributes :: "Attribute list \<Rightarrow> bytes" where
  "enc_attributes as = u16_len as @ concat (map enc_attribute as)"

definition valid_attributes :: "Attribute list \<Rightarrow> bool" where
  "valid_attributes as \<longleftrightarrow> length as < 65536 \<and> list_all valid_attribute as"

interpretation attributes: wire_codec enc_attributes parse_attributes valid_attributes
  by unfold_locales
    (simp add: enc_attributes_def parse_attributes_def valid_attributes_def read_le_append
      unat_of_nat_u16 attribute.read_n_enc)

text \<open>A variant's value is sent in the size of its type; it must be in that type's range.\<close>

definition enum_image :: "nat \<Rightarrow> i64 \<Rightarrow> bytes" where
  "enum_image sz v = take sz (to_le_bytes v)"

definition enc_enum :: "nat \<Rightarrow> EnumInfo \<Rightarrow> bytes" where
  "enc_enum sz e = u8_len (ei_name e) @ enc_str (ei_name e) @ enum_image sz (ei_value e)"

definition valid_enum :: "nat \<Rightarrow> u32 \<Rightarrow> EnumInfo \<Rightarrow> bool" where
  "valid_enum sz base_type e \<longleftrightarrow> fits 256 (ei_name e) \<and> sz \<le> 8
     \<and> enum_value base_type sz (enum_image sz (ei_value e)) = Ok (ei_value e)"

lemma length_enum_image: "sz \<le> 8 \<Longrightarrow> length (enum_image sz v) = sz"
  by (simp add: enum_image_def length_to_le_bytes)

interpretation enum: wire_codec "enc_enum sz" "parse_enum_info sz base_type" "valid_enum sz base_type"
  for sz base_type
  by unfold_locales
    (simp add: enc_enum_def parse_enum_info_def valid_enum_def Let_def read_le_append
      unat_of_nat_u8 fits_less length_enum_image)

definition enc_enums :: "nat \<Rightarrow> EnumInfo list \<Rightarrow> bytes" where
  "enc_enums sz es = u16_len es @ concat (map (enc_enum sz) es)"

definition valid_enums :: "nat \<Rightarrow> u32 \<Rightarrow> EnumInfo list \<Rightarrow> bool" where
  "valid_enums sz base_type es \<longleftrightarrow> length es < 65536 \<and> list_all (valid_enum sz base_type) es"

interpretation enums: wire_codec "enc_enums sz" "parse_enum_infos sz base_type" "valid_enums sz base_type"
  for sz base_type
  by unfold_locales
    (simp add: enc_enums_def parse_enum_infos_def valid_enums_def read_le_append
      unat_of_nat_u16 enum.read_n_enc)

section \<open>Entries with their length in front\<close>

definition enc_block :: "bytes \<Rightarrow> bytes" where
  "enc_block b = to_le_bytes (of_nat (length b + 4) :: u32) @ b"

definition block_fits :: "bytes \<Rightarrow> bool" where
  "block_fits b \<longleftrightarrow> length b + 4 < 2 ^ 32"

lemma unat_block: "block_fits b \<Longrightarrow> unat (of_nat (length b + 4) :: u32) = length b + 4"
  unfolding block_fits_def by (rule unat_of_nat_u32)

lemma read_blocks_enc:
  assumes "block_fits b"
  shows "read_block ctx (enc_block b @ rest) = Ok (b, rest)"
    and "read_block_checked ctx msg (enc_block b @ rest) = Ok (b, rest)"
  using unat_block [OF assms]
  by (simp_all add: read_block_def read_block_checked_def enc_block_def read_le_append
      del: of_nat_add)

text \<open>A decoder of whole entries and its encoder make a codec of entries with lengths.\<close>

locale entry_codec =
  fixes enc :: "'a \<Rightarrow> bytes"
    and dec :: "bytes \<Rightarrow> 'a res"
    and valid :: "'a \<Rightarrow> bool"
  assumes dec_entry: "valid x \<Longrightarrow> dec (enc x) = Ok x"
    and entry_fits: "valid x \<Longrightarrow> block_fits (enc x)"
begin

sublocale checked: wire_codec "\<lambda>x. enc_block (enc x)" "with_block (read_block_checked ctx msg) dec" valid
  for ctx msg
  by unfold_locales (simp add: with_block_def read_blocks_enc entry_fits dec_entry)

sublocale bulk: wire_codec "\<lambda>x. enc_block (enc x)" "with_block (read_block ctx) dec" valid
  for ctx
  by unfold_locales (simp add: with_block_def read_blocks_enc entry_fits dec_entry)

lemma decode_blocks_enc:
  "list_all valid xs \<Longrightarrow> decode_blocks ctx dec (concat (map (\<lambda>x. enc_block (enc x)) xs)) = Ok xs"
proof (induction xs)
  case (Cons x xs)
  have "enc_block (enc x) @ concat (map (\<lambda>x. enc_block (enc x)) xs) \<noteq> []"
    by (simp add: enc_block_def to_le_bytes_def)
  with Cons show ?case
    by (subst decode_blocks.simps) (simp add: read_blocks_enc entry_fits dec_entry)
qed (simp add: decode_blocks.simps)

end

section \<open>RPC methods\<close>

abbreviation zero_guid :: bytes where "zero_guid \<equiv> replicate 16 0"
abbreviation zero32 :: bytes where "zero32 \<equiv> to_le_bytes (0 :: u32)"

definition enc_if :: "bool \<Rightarrow> bytes \<Rightarrow> bytes" where
  "enc_if b bs = (if b then bs else [])"

definition enc_param :: "RpcMethodParameter \<Rightarrow> bytes" where
  "enc_param p =
     to_le_bytes (of_nat (pm_size p) :: u32) @ zero32 @ zero32 @ to_le_bytes (pm_flags p) @ zero32
     @ zero_guid @ to_le_bytes (0 :: u16) @ u16_len (pm_name p) @ u16_len (pm_typ p)
     @ u16_len (pm_comment p) @ enc_str (pm_name p) @ enc_str (pm_typ p) @ enc_str (pm_comment p)
     @ enc_if (has_flag (pm_flags p) RPC_PARAM_ATTRIBUTE_FLAG) (enc_attributes (pm_attributes p))"

definition valid_param :: "RpcMethodParameter \<Rightarrow> bool" where
  "valid_param p \<longleftrightarrow> pm_size p < 2 ^ 32 \<and> fits 2048 (pm_name p) \<and> fits 2048 (pm_typ p)
     \<and> fits 2048 (pm_comment p) \<and> valid_attributes (pm_attributes p)
     \<and> (\<not> has_flag (pm_flags p) RPC_PARAM_ATTRIBUTE_FLAG \<longrightarrow> pm_attributes p = [])
     \<and> block_fits (enc_param p)"

lemma unat_of_nat_len: "fits 2048 s \<Longrightarrow> unat (of_nat (length s) :: u16) = length s"
  "fits 1024 s \<Longrightarrow> unat (of_nat (length s) :: u16) = length s"
  by (simp_all add: unat_of_nat_u16 fits_def)

lemma read_exact_enc: "length b = n \<Longrightarrow> read_exact ctx n (b @ rest) = Ok (b, rest)"
  by simp

interpretation param: entry_codec enc_param parse_rpc_method_parameter valid_param
proof unfold_locales
  fix p
  assume valid: "valid_param p"
  note strings = unat_of_nat_len(1) [of "pm_name p"] unat_of_nat_len(1) [of "pm_typ p"]
    unat_of_nat_len(1) [of "pm_comment p"]
  have attrs: "(if has_flag (pm_flags p) RPC_PARAM_ATTRIBUTE_FLAG
      then parse_attributes (enc_if (has_flag (pm_flags p) RPC_PARAM_ATTRIBUTE_FLAG)
             (enc_attributes (pm_attributes p)))
      else Ok ([], enc_if (has_flag (pm_flags p) RPC_PARAM_ATTRIBUTE_FLAG)
             (enc_attributes (pm_attributes p)))) = Ok (pm_attributes p, [])"
    using valid attributes.dec_enc_nil by (simp add: enc_if_def valid_param_def)
  show "parse_rpc_method_parameter (enc_param p) = Ok p"
    unfolding parse_rpc_method_parameter_def enc_param_def Let_def
    using valid strings attrs
    by (simp add: valid_param_def read_le_append read_exact_enc unat_of_nat_u32)
  show "block_fits (enc_param p)"
    using valid by (simp add: valid_param_def)
qed

definition method_flags :: "RpcMethod \<Rightarrow> u32" where
  "method_flags m = (if rm_attributes m = [] then 0 else RPC_METHOD_ATTRIBUTE_FLAG)"

definition enc_method :: "RpcMethod \<Rightarrow> bytes" where
  "enc_method m =
     to_le_bytes (1 :: u32) @ zero32 @ to_le_bytes (of_nat (rm_return_size m) :: u32) @ zero32 @ zero32
     @ zero_guid @ zero32 @ to_le_bytes (method_flags m) @ u16_len (rm_name m)
     @ u16_len (rm_return_type m) @ u16_len (rm_comment m) @ u16_len (rm_parameters m)
     @ enc_str (rm_name m) @ enc_str (rm_return_type m) @ enc_str (rm_comment m)
     @ concat (map (\<lambda>p. enc_block (enc_param p)) (rm_parameters m))
     @ enc_if (rm_attributes m \<noteq> []) (enc_attributes (rm_attributes m))"

definition valid_method :: "RpcMethod \<Rightarrow> bool" where
  "valid_method m \<longleftrightarrow> rm_return_size m < 2 ^ 32 \<and> fits 2048 (rm_name m)
     \<and> fits 2048 (rm_return_type m) \<and> fits 2048 (rm_comment m)
     \<and> length (rm_parameters m) < 65536 \<and> list_all valid_param (rm_parameters m)
     \<and> valid_attributes (rm_attributes m) \<and> block_fits (enc_method m)"

lemma has_method_flag: "has_flag (method_flags m) RPC_METHOD_ATTRIBUTE_FLAG \<longleftrightarrow> rm_attributes m \<noteq> []"
  by (simp add: method_flags_def has_flag_def RPC_METHOD_ATTRIBUTE_FLAG_def)

interpretation meth: entry_codec enc_method parse_rpc_method valid_method
proof unfold_locales
  fix m
  assume valid: "valid_method m"
  note strings = unat_of_nat_len(1) [of "rm_name m"] unat_of_nat_len(1) [of "rm_return_type m"]
    unat_of_nat_len(1) [of "rm_comment m"] unat_of_nat_u16 [of "length (rm_parameters m)"]
  have attrs: "(if rm_attributes m \<noteq> []
      then parse_attributes (enc_if (rm_attributes m \<noteq> []) (enc_attributes (rm_attributes m)))
      else Ok ([], enc_if (rm_attributes m \<noteq> []) (enc_attributes (rm_attributes m))))
      = Ok (rm_attributes m, [])"
    using valid attributes.dec_enc_nil by (simp add: enc_if_def valid_method_def)
  show "parse_rpc_method (enc_method m) = Ok m"
    unfolding parse_rpc_method_def enc_method_def Let_def
    using valid strings attrs
    by (simp add: valid_method_def read_le_append read_exact_enc unat_of_nat_u32 param.checked.read_n_enc
        has_method_flag)
  show "block_fits (enc_method m)"
    using valid by (simp add: valid_method_def)
qed

definition enc_methods :: "RpcMethod list \<Rightarrow> bytes" where
  "enc_methods ms = u16_len ms @ concat (map (\<lambda>m. enc_block (enc_method m)) ms)"

definition valid_methods :: "RpcMethod list \<Rightarrow> bool" where
  "valid_methods ms \<longleftrightarrow> length ms < 65536 \<and> list_all valid_method ms"

interpretation methods: wire_codec enc_methods parse_method_infos valid_methods
  by unfold_locales
    (simp add: enc_methods_def parse_method_infos_def valid_methods_def Let_def read_le_append
      unat_of_nat_u16 meth.checked.read_n_enc)

section \<open>Fields\<close>

text \<open>An array dimension is sent as its lower bound and its length.\<close>

definition enc_dimension :: "i32 \<times> i32 \<Rightarrow> bytes" where
  "enc_dimension d = to_le_bytes (fst d) @ to_le_bytes (snd d - fst d + 1)"

definition valid_dimension :: "bool \<Rightarrow> i32 \<times> i32 \<Rightarrow> bool" where
  "valid_dimension oc d \<longleftrightarrow> is_ok (upper_bound oc (fst d) (snd d - fst d + 1))"

interpretation dimension: wire_codec enc_dimension "read_dimension oc ctx" "valid_dimension oc"
  for oc ctx
  by unfold_locales
    (auto simp: enc_dimension_def read_dimension_def valid_dimension_def read_le_append
      upper_bound_def split: if_splits)

definition enc_entry :: "Entry \<Rightarrow> bytes" where
  "enc_entry e =
     to_le_bytes (1 :: u32) @ zero32 @ zero32 @ to_le_bytes (of_nat (en_size e) :: u32)
     @ to_le_bytes (en_offset e) @ to_le_bytes (en_base_type e) @ to_le_bytes (en_flags e)
     @ u16_len (en_name e) @ u16_len (en_type_name e) @ u16_len (en_comment e)
     @ u16_len (en_array e) @ to_le_bytes (of_nat (en_sub_items e) :: u16)
     @ enc_str (en_name e) @ enc_str (en_type_name e) @ enc_str (en_comment e)
     @ concat (map enc_dimension (en_array e))"

definition valid_entry :: "bool \<Rightarrow> Entry \<Rightarrow> bool" where
  "valid_entry oc e \<longleftrightarrow> en_size e < 2 ^ 32 \<and> fits 1024 (en_name e) \<and> fits 1024 (en_type_name e)
     \<and> fits 1024 (en_comment e) \<and> length (en_array e) < 65536 \<and> en_sub_items e < 65536
     \<and> list_all (valid_dimension oc) (en_array e)"

lemma zero32_split: "zero32 = to_le_bytes (0 :: u16) @ to_le_bytes (0 :: u16)"
  by (simp add: to_le_bytes_def)

lemma read_bulk_entry_enc:
  assumes "valid_entry oc e"
  shows "read_bulk_entry oc (enc_entry e @ rest) = Ok (e, rest)"
proof -
  note strings = unat_of_nat_len(2) [of "en_name e"] unat_of_nat_len(2) [of "en_type_name e"]
    unat_of_nat_len(2) [of "en_comment e"] unat_of_nat_u16 [of "length (en_array e)"]
    unat_of_nat_u16 [of "en_sub_items e"] unat_of_nat_u32 [of "en_size e"]
  have "enc_entry e @ rest = to_le_bytes (1 :: u32) @ to_le_bytes (0 :: u16) @ to_le_bytes (0 :: u16)
      @ drop 8 (enc_entry e) @ rest"
    by (simp add: enc_entry_def length_to_le_bytes) (simp add: zero32_split)
  moreover have "drop 8 (enc_entry e) @ rest = zero32 @ to_le_bytes (of_nat (en_size e) :: u32)
     @ to_le_bytes (en_offset e) @ to_le_bytes (en_base_type e) @ to_le_bytes (en_flags e)
     @ u16_len (en_name e) @ u16_len (en_type_name e) @ u16_len (en_comment e)
     @ u16_len (en_array e) @ to_le_bytes (of_nat (en_sub_items e) :: u16)
     @ enc_str (en_name e) @ enc_str (en_type_name e) @ enc_str (en_comment e)
     @ concat (map enc_dimension (en_array e)) @ rest"
    by (simp add: enc_entry_def length_to_le_bytes)
  ultimately show ?thesis
    using assms strings
    by (simp add: read_bulk_entry_def read_entry_def Let_def read_le_append valid_entry_def
        dimension.read_n_enc)
qed

text \<open>The optional parts: a GUID, a copy mask of the size, methods, attributes.\<close>

lemma read_if_enc:
  assumes "b \<Longrightarrow> r (bs @ rest) = Ok (x, rest)"
  shows "read_if b r (enc_if b bs @ rest) = Ok (if b then Some x else None, rest)"
  using assms by (simp add: read_if_def enc_if_def)

definition entry_of_field :: "Field \<Rightarrow> Entry" where
  "entry_of_field f =
     \<lparr>en_size = fd_size f, en_offset = (case fd_offset f of None \<Rightarrow> 0xFFFFFFFF | Some off \<Rightarrow> off),
      en_base_type = fd_base_type f, en_flags = fd_flags f, en_sub_items = 0, en_name = fd_name f,
      en_type_name = fd_typ f, en_comment = fd_comment f, en_array = fd_array f\<rparr>"

definition enc_field :: "Field \<Rightarrow> bytes" where
  "enc_field f =
     enc_entry (entry_of_field f)
     @ enc_if (has_flag (fd_flags f) TYPE_FLAG_GUID) zero_guid
     @ enc_if (has_flag (fd_flags f) TYPE_FLAG_COPY_MASK) (replicate (fd_size f) 0)
     @ enc_if (has_flag (fd_flags f) TYPE_FLAG_METHOD_INFOS) (enc_methods [])
     @ enc_if (has_flag (fd_flags f) TYPE_FLAG_ATTRIBUTES) (enc_attributes (the (fd_attributes f)))"

definition valid_field :: "bool \<Rightarrow> Field \<Rightarrow> bool" where
  "valid_field oc f \<longleftrightarrow> valid_entry oc (entry_of_field f) \<and> fd_offset f \<noteq> Some 0xFFFFFFFF
     \<and> (has_flag (fd_flags f) TYPE_FLAG_ATTRIBUTES \<longleftrightarrow> fd_attributes f \<noteq> None)
     \<and> (case fd_attributes f of None \<Rightarrow> True | Some as \<Rightarrow> valid_attributes as)
     \<and> block_fits (enc_field f)"

lemma read_if_parts:
  "length g = 16 \<Longrightarrow>
     read_if b parse_guid (enc_if b g @ rest) = Ok (if b then Some (format_guid g) else None, rest)"
  "length m = n \<Longrightarrow>
     read_if b (skip_copy_mask n) (enc_if b m @ rest) = Ok (if b then Some () else None, rest)"
  "(b \<Longrightarrow> valid_methods ms) \<Longrightarrow>
     read_if b parse_method_infos (enc_if b (enc_methods ms) @ rest)
       = Ok (if b then Some ms else None, rest)"
  "(b \<Longrightarrow> valid_attributes as) \<Longrightarrow>
     read_if b parse_attributes (enc_if b (enc_attributes as) @ rest)
       = Ok (if b then Some as else None, rest)"
  "(b \<Longrightarrow> valid_enums n base_type es) \<Longrightarrow>
     read_if b (parse_enum_infos n base_type) (enc_if b (enc_enums n es) @ rest)
       = Ok (if b then Some es else None, rest)"
  by (intro read_if_enc; simp add: parse_guid_def skip_copy_mask_def methods.dec_enc
      attributes.dec_enc enums.dec_enc)+

lemmas read_if_last = read_if_parts(4,5) [where rest = "[]", unfolded append_Nil2]

lemma field_of_entry:
  "fd_offset f \<noteq> Some 0xFFFFFFFF \<Longrightarrow> field_of (entry_of_field f) (fd_attributes f) = f"
  by (cases f) (auto simp: field_of_def entry_of_field_def split: option.split)

interpretation field: entry_codec enc_field "decode_field_info oc" "valid_field oc" for oc
proof unfold_locales
  fix f
  assume valid: "valid_field oc f"
  let ?b = "\<lambda>m. has_flag (fd_flags f) m"
  have "(if ?b TYPE_FLAG_ATTRIBUTES then Some (the (fd_attributes f)) else None) = fd_attributes f"
    using valid by (auto simp: valid_field_def)
  then have "parse_field_attributes (fd_flags f) (fd_size f)
      (enc_if (?b TYPE_FLAG_GUID) zero_guid
       @ enc_if (?b TYPE_FLAG_COPY_MASK) (replicate (fd_size f) 0)
       @ enc_if (?b TYPE_FLAG_METHOD_INFOS) (enc_methods [])
       @ enc_if (?b TYPE_FLAG_ATTRIBUTES) (enc_attributes (the (fd_attributes f)))) = Ok (fd_attributes f, [])"
    using valid
    by (simp add: parse_field_attributes_def read_if_parts(1-3) read_if_last valid_methods_def
        valid_field_def split: option.splits)
  moreover have "read_bulk_entry oc (enc_field f) = Ok (entry_of_field f,
      enc_if (?b TYPE_FLAG_GUID) zero_guid
       @ enc_if (?b TYPE_FLAG_COPY_MASK) (replicate (fd_size f) 0)
       @ enc_if (?b TYPE_FLAG_METHOD_INFOS) (enc_methods [])
       @ enc_if (?b TYPE_FLAG_ATTRIBUTES) (enc_attributes (the (fd_attributes f))))"
    using valid by (simp add: enc_field_def read_bulk_entry_enc valid_field_def)
  moreover have "en_flags (entry_of_field f) = fd_flags f" "en_size (entry_of_field f) = fd_size f"
      "en_sub_items (entry_of_field f) = 0"
    by (simp_all add: entry_of_field_def)
  ultimately show "decode_field_info oc (enc_field f) = Ok f"
    using valid by (simp add: decode_field_info_def field_of_entry valid_field_def)
  show "block_fits (enc_field f)"
    using valid by (simp add: valid_field_def)
qed

section \<open>Types\<close>

text \<open>The bytes of a formatted GUID.\<close>

definition hex_value :: "char \<Rightarrow> nat" where
  "hex_value c = (if 97 \<le> (of_char c :: nat) then of_char c - 87 else of_char c - 48)"

fun hex_pairs :: "string \<Rightarrow> bytes" where
  "hex_pairs (a # b # s) = of_nat (16 * hex_value a + hex_value b) # hex_pairs s"
| "hex_pairs _ = []"

definition guid_bytes :: "string \<Rightarrow> bytes" where
  "guid_bytes s =
     (let bs = hex_pairs (filter (\<lambda>c. c \<noteq> CHR ''-'') s)
      in rev (take 4 bs) @ rev (slice 4 2 bs) @ rev (slice 6 2 bs) @ drop 8 bs)"

definition entry_of_type :: "Type \<Rightarrow> Entry" where
  "entry_of_type t =
     \<lparr>en_size = ty_size t, en_offset = 0, en_base_type = ty_base_type t, en_flags = ty_flags t,
      en_sub_items = length (ty_fields t), en_name = ty_name t, en_type_name = ty_type_name t,
      en_comment = ty_comment t, en_array = ty_array t\<rparr>"

definition enc_type_parts :: "Type \<Rightarrow> bytes" where
  "enc_type_parts t =
     enc_if (has_flag (ty_flags t) TYPE_FLAG_GUID) (guid_bytes (the (ty_guid t)))
     @ enc_if (has_flag (ty_flags t) TYPE_FLAG_COPY_MASK) (replicate (ty_size t) 0)
     @ enc_if (has_flag (ty_flags t) TYPE_FLAG_METHOD_INFOS) (enc_methods (the (ty_methods t)))
     @ enc_if (has_flag (ty_flags t) TYPE_FLAG_ATTRIBUTES) (enc_attributes (the (ty_attributes t)))
     @ enc_if (has_flag (ty_flags t) TYPE_FLAG_ENUM_INFOS) (enc_enums (ty_size t) (the (ty_enum_info t)))"

definition enc_type :: "Type \<Rightarrow> bytes" where
  "enc_type t =
     enc_entry (entry_of_type t)
     @ concat (map (\<lambda>f. enc_block (enc_field f)) (ty_fields t)) @ enc_type_parts t"

text \<open>An optional part is there exactly when its flag is set, and is well-formed.\<close>

definition valid_part :: "bool \<Rightarrow> ('a \<Rightarrow> bool) \<Rightarrow> 'a option \<Rightarrow> bool" where
  "valid_part b ok part \<longleftrightarrow> (case part of None \<Rightarrow> \<not> b | Some x \<Rightarrow> b \<and> ok x)"

definition valid_guid :: "string \<Rightarrow> bool" where
  "valid_guid s \<longleftrightarrow> length (guid_bytes s) = 16 \<and> format_guid (guid_bytes s) = s"

definition valid_type :: "bool \<Rightarrow> Type \<Rightarrow> bool" where
  "valid_type oc t \<longleftrightarrow> valid_entry oc (entry_of_type t) \<and> list_all (valid_field oc) (ty_fields t)
     \<and> valid_part (has_flag (ty_flags t) TYPE_FLAG_GUID) valid_guid (ty_guid t)
     \<and> valid_part (has_flag (ty_flags t) TYPE_FLAG_METHOD_INFOS) valid_methods (ty_methods t)
     \<and> valid_part (has_flag (ty_flags t) TYPE_FLAG_ATTRIBUTES) valid_attributes (ty_attributes t)
     \<and> valid_part (has_flag (ty_flags t) TYPE_FLAG_ENUM_INFOS)
         (valid_enums (ty_size t) (ty_base_type t)) (ty_enum_info t)
     \<and> block_fits (enc_type t)"

lemma valid_part_the:
  "valid_part b ok part \<Longrightarrow> (b \<longrightarrow> ok (the part)) \<and> (if b then Some (the part) else None) = part"
  by (auto simp: valid_part_def split: option.splits)

lemma or_else_None: "or_else x None = x"
  by (cases x) auto

lemma parse_type_flags_enc:
  assumes "valid_type oc t"
  shows "parse_type_flags (type_of (entry_of_type t) (ty_fields t)) (enc_type_parts t) = Ok (t, [])"
proof -
  let ?b = "\<lambda>m. has_flag (ty_flags t) m"
  have "valid_part (?b TYPE_FLAG_GUID) valid_guid (ty_guid t)"
      "valid_part (?b TYPE_FLAG_METHOD_INFOS) valid_methods (ty_methods t)"
      "valid_part (?b TYPE_FLAG_ATTRIBUTES) valid_attributes (ty_attributes t)"
      "valid_part (?b TYPE_FLAG_ENUM_INFOS) (valid_enums (ty_size t) (ty_base_type t)) (ty_enum_info t)"
    using assms by (simp_all add: valid_type_def)
  note parts = this [THEN valid_part_the]
  have guid: "?b TYPE_FLAG_GUID \<Longrightarrow> valid_guid (the (ty_guid t))"
      "(if ?b TYPE_FLAG_GUID then Some (the (ty_guid t)) else None) = ty_guid t"
    and methods: "?b TYPE_FLAG_METHOD_INFOS \<Longrightarrow> valid_methods (the (ty_methods t))"
      "(if ?b TYPE_FLAG_METHOD_INFOS then Some (the (ty_methods t)) else None) = ty_methods t"
    and attrs: "?b TYPE_FLAG_ATTRIBUTES \<Longrightarrow> valid_attributes (the (ty_attributes t))"
      "(if ?b TYPE_FLAG_ATTRIBUTES then Some (the (ty_attributes t)) else None) = ty_attributes t"
    and enums: "?b TYPE_FLAG_ENUM_INFOS \<Longrightarrow> valid_enums (ty_size t) (ty_base_type t) (the (ty_enum_info t))"
      "(if ?b TYPE_FLAG_ENUM_INFOS then Some (the (ty_enum_info t)) else None) = ty_enum_info t"
    using parts by blast+
  have guid_part: "read_if (?b TYPE_FLAG_GUID) parse_guid
      (enc_if (?b TYPE_FLAG_GUID) (guid_bytes (the (ty_guid t))) @ rest) = Ok (ty_guid t, rest)" for rest
    using read_if_enc [of "?b TYPE_FLAG_GUID" parse_guid "guid_bytes (the (ty_guid t))" rest
        "the (ty_guid t)"] guid
    by (simp add: parse_guid_def valid_guid_def)
  have fields: "ty_flags (type_of (entry_of_type t) (ty_fields t)) = ty_flags t"
      "ty_size (type_of (entry_of_type t) (ty_fields t)) = ty_size t"
      "ty_base_type (type_of (entry_of_type t) (ty_fields t)) = ty_base_type t"
      "ty_guid (type_of (entry_of_type t) (ty_fields t)) = None"
      "ty_methods (type_of (entry_of_type t) (ty_fields t)) = None"
      "ty_attributes (type_of (entry_of_type t) (ty_fields t)) = None"
      "ty_enum_info (type_of (entry_of_type t) (ty_fields t)) = None"
    by (simp_all add: type_of_def entry_of_type_def)
  have "parse_type_flags (type_of (entry_of_type t) (ty_fields t)) (enc_type_parts t)
      = Ok (type_of (entry_of_type t) (ty_fields t)\<lparr>ty_guid := ty_guid t, ty_methods := ty_methods t,
          ty_attributes := ty_attributes t, ty_enum_info := ty_enum_info t\<rparr>, [])"
    unfolding parse_type_flags_def enc_type_parts_def fields
    using methods attrs enums
    by (simp add: guid_part read_if_parts(2-4) read_if_last or_else_None)
  then show ?thesis
    by (simp add: type_of_def entry_of_type_def)
qed

interpretation type_entry: entry_codec enc_type "decode_type_info oc" "valid_type oc" for oc
proof unfold_locales
  fix t
  assume valid: "valid_type oc t"
  have "read_bulk_entry oc (enc_type t) = Ok (entry_of_type t,
      concat (map (\<lambda>f. enc_block (enc_field f)) (ty_fields t)) @ enc_type_parts t)"
    using valid by (simp add: enc_type_def read_bulk_entry_enc valid_type_def)
  moreover have "en_offset (entry_of_type t) = 0" "en_sub_items (entry_of_type t) = length (ty_fields t)"
    by (simp_all add: entry_of_type_def)
  moreover have "list_all (valid_field oc) (ty_fields t)"
    using valid by (simp add: valid_type_def)
  ultimately show "decode_type_info oc (enc_type t) = Ok t"
    by (simp add: decode_type_info_def field.bulk.read_n_enc parse_type_flags_enc [OF valid])
  show "block_fits (enc_type t)"
    using valid by (simp add: valid_type_def)
qed

section \<open>Symbols\<close>

text \<open>The rest of an entry: the comment, the GUID, attributes and further flags.\<close>

definition enc_symbol :: "bytes \<Rightarrow> Symbol \<Rightarrow> bytes" where
  "enc_symbol rest s =
     to_le_bytes (ix_group s) @ to_le_bytes (ix_offset s) @ to_le_bytes (of_nat (sym_size s) :: u32)
     @ to_le_bytes (sym_base_type s) @ to_le_bytes (ucast (sym_flags s) :: u16)
     @ to_le_bytes (0 :: u16) @ u16_len (sym_name s) @ u16_len (sym_typ s) @ to_le_bytes (0 :: u16)
     @ enc_str (sym_name s) @ enc_str (sym_typ s) @ rest"

definition valid_symbol :: "bytes \<Rightarrow> Symbol \<Rightarrow> bool" where
  "valid_symbol rest s \<longleftrightarrow> sym_size s < 2 ^ 32 \<and> fits 1024 (sym_name s) \<and> fits 1024 (sym_typ s)
     \<and> sym_flags s < 65536 \<and> block_fits (enc_symbol rest s)"

lemma u16_flags: "(w :: u32) < 65536 \<Longrightarrow> ucast (ucast w :: u16) = w"
  by (simp add: word_unat_eq_iff word_less_nat_alt unsigned_ucast_eq unsigned_take_bit_eq
      take_bit_nat_eq_self)

interpretation symbol: entry_codec "enc_symbol rest" decode_symbol "valid_symbol rest" for rest
proof unfold_locales
  fix s
  assume valid: "valid_symbol rest s"
  note strings = unat_of_nat_len(2) [of "sym_name s"] unat_of_nat_len(2) [of "sym_typ s"]
    unat_of_nat_u32 [of "sym_size s"] u16_flags [of "sym_flags s"]
  show "decode_symbol (enc_symbol rest s) = Ok s"
    unfolding decode_symbol_def enc_symbol_def Let_def
    using valid strings by (simp add: valid_symbol_def read_le_append)
  show "block_fits (enc_symbol rest s)"
    using valid by (simp add: valid_symbol_def)
qed

definition enc_types :: "Type list \<Rightarrow> bytes" where
  "enc_types ts = concat (map (\<lambda>t. enc_block (enc_type t)) ts)"

definition enc_symbols :: "bytes \<Rightarrow> Symbol list \<Rightarrow> bytes" where
  "enc_symbols rest ss = concat (map (\<lambda>s. enc_block (enc_symbol rest s)) ss)"

lemma fold_insert_type: "fold insert_type ts m = m ++ map_of (rev (map (\<lambda>t. (ty_name t, t)) ts))"
  by (induction ts arbitrary: m) (simp_all add: insert_type_def)

text \<open>
  C10: the bulk decoder inverts the upload format. From the tables of any symbols and any types
  (with fields, array bounds, attributes, enum variants, methods and GUIDs), it returns the
  symbols in order and the map of the types by name, the last of equal names winning.
\<close>

theorem symbol_tables_roundtrip:
  assumes "list_all (valid_symbol rest) symbols" and "list_all (valid_type oc) types"
  shows "decode_symbol_info oc (enc_symbols rest symbols) (enc_types types)
    = Ok (symbols, map_of (rev (map (\<lambda>t. (ty_name t, t)) types)))"
  using assms
  by (simp add: decode_symbol_info_def enc_symbols_def enc_types_def symbol.decode_blocks_enc
      type_entry.decode_blocks_enc fold_insert_type)

lemma decode_blocks_malformed:
  assumes "unat n < 4 \<or> length bs < unat n - 4"
  shows "decode_blocks ctx dec (to_le_bytes (n :: u32) @ bs) = Panic"
proof -
  have "to_le_bytes n @ bs \<noteq> []"
    by (simp add: to_le_bytes_def)
  then show ?thesis
    using assms by (subst decode_blocks.simps) (auto simp: read_block_def read_le_append split_at_def)
qed

text \<open>
  C29: a malformed length makes the bulk decoder panic. If the length of the first entry of the
  type table, or of the symbol table after a table of valid types, is below four or goes
  beyond the data, the decoder does not report an error but panics, whether the build checks
  overflow or not.
\<close>

theorem malformed_length_panics:
  assumes "unat n < 4 \<or> length bs < unat n - 4" and "list_all (valid_type oc) types"
  shows "decode_symbol_info oc symbol_data (to_le_bytes (n :: u32) @ bs) = Panic
    \<and> decode_symbol_info oc (to_le_bytes n @ bs) (enc_types types) = Panic"
  using assms
  by (simp add: decode_symbol_info_def enc_types_def type_entry.decode_blocks_enc decode_blocks_malformed)

section \<open>A sample\<close>

definition sample_field :: Field where
  "sample_field =
     \<lparr>fd_name = ''xs'', fd_typ = ''ARRAY [1..3] OF INT'', fd_offset = Some 2, fd_size = 6,
      fd_array = [(1, 3)], fd_base_type = 2, fd_flags = 0x1000, fd_comment = [],
      fd_attributes = Some [\<lparr>at_name = ''unit'', at_value = ''mm''\<rparr>]\<rparr>"

definition sample_type :: Type where
  "sample_type =
     \<lparr>ty_name = ''ST_Axis'', ty_type_name = [], ty_comment = ''an axis'', ty_size = 8,
      ty_array = [], ty_fields = [sample_field], ty_base_type = 65, ty_flags = 0x881,
      ty_guid = Some ''0000002a-0001-0000-0000-00000000002a'',
      ty_methods = Some [\<lparr>rm_name = ''Move'', rm_return_type = ''BOOL'', rm_return_size = 1,
        rm_comment = [], rm_parameters = [\<lparr>pm_name = ''to'', pm_typ = ''INT'', pm_size = 2,
          pm_flags = 1, pm_comment = [], pm_attributes = []\<rparr>], rm_attributes = []\<rparr>],
      ty_attributes = None, ty_enum_info = None\<rparr>"

definition sample_enum :: Type where
  "sample_enum =
     \<lparr>ty_name = ''E_Mode'', ty_type_name = ''INT'', ty_comment = [], ty_size = 2, ty_array = [],
      ty_fields = [], ty_base_type = 2, ty_flags = 0x2001, ty_guid = None, ty_methods = None,
      ty_attributes = None,
      ty_enum_info = Some [\<lparr>ei_name = ''Off'', ei_value = -1\<rparr>, \<lparr>ei_name = ''On'', ei_value = 7\<rparr>]\<rparr>"

definition sample_symbol :: Symbol where
  "sample_symbol =
     \<lparr>sym_name = ''MAIN.axis'', ix_group = 0x4040, ix_offset = 16, sym_typ = ''ST_Axis'',
      sym_size = 8, sym_base_type = 65, sym_flags = 8\<rparr>"

lemma fits_ascii: "ascii s \<Longrightarrow> length s < n \<Longrightarrow> fits n s"
  by (simp add: fits_def ascii_def valid_utf8_ascii)

lemmas flag_defs = has_flag_def TYPE_FLAG_GUID_def TYPE_FLAG_COPY_MASK_def TYPE_FLAG_METHOD_INFOS_def
  TYPE_FLAG_ATTRIBUTES_def TYPE_FLAG_ENUM_INFOS_def RPC_PARAM_ATTRIBUTE_FLAG_def
lemmas valid_defs = valid_part_def valid_entry_def valid_attributes_def valid_attribute_def
  valid_methods_def valid_method_def valid_param_def valid_dimension_def upper_bound_def in_i32_def
  fits_ascii ascii_def as_bytes_def
lemmas enc_defs = block_fits_def enc_entry_def enc_if_def enc_attributes_def enc_attribute_def
  enc_str_def enc_dimension_def enc_methods_def enc_method_def enc_param_def enc_block_def
  length_to_le_bytes

lemma sample_field_valid: "valid_field True sample_field"
  by (simp add: sample_field_def valid_field_def entry_of_field_def enc_field_def valid_defs
      flag_defs enc_defs)

lemma sample_guid: "valid_guid ''0000002a-0001-0000-0000-00000000002a''"
  by code_simp

lemma sample_type_valid: "valid_type True sample_type"
proof -
  have "length (enc_block (enc_field sample_field)) < 200"
    by (simp add: sample_field_def entry_of_field_def enc_field_def enc_defs flag_defs)
  then show ?thesis
    using sample_guid
    by (simp add: sample_type_def valid_type_def entry_of_type_def enc_type_def enc_type_parts_def
        sample_field_valid valid_defs flag_defs enc_defs valid_guid_def)
qed

lemma sample_enum_valid: "valid_type oc sample_enum"
  by (simp add: sample_enum_def valid_type_def entry_of_type_def enc_type_def enc_type_parts_def
      valid_defs flag_defs enc_defs valid_enums_def valid_enum_def enc_enums_def enc_enum_def
      enum_image_def enum_value_def raw_as_def raw_prefix_def i16_as_i64_def to_le_bytes_def
      from_le_bytes_def unsigned_minus_1_eq_mask mask_eq_exp_minus_1)

lemma sample_symbol_valid: "valid_symbol [1, 2, 3] sample_symbol"
  by (simp add: sample_symbol_def valid_symbol_def enc_symbol_def valid_defs enc_defs)

theorem symbol_tables_roundtrip_witness:
  "decode_symbol_info True (enc_symbols [1, 2, 3] [sample_symbol]) (enc_types [sample_type, sample_enum])
   = Ok ([sample_symbol], [''E_Mode'' \<mapsto> sample_enum, ''ST_Axis'' \<mapsto> sample_type])"
  using symbol_tables_roundtrip [of "[1, 2, 3]" "[sample_symbol]" True "[sample_type, sample_enum]"]
    sample_type_valid sample_enum_valid sample_symbol_valid
  by (simp add: sample_type_def sample_enum_def fun_upd_twist)

theorem malformed_length_panics_witness:
  "decode_symbol_info False [] (to_le_bytes (3 :: u32) @ []) = Panic
   \<and> decode_symbol_info False (to_le_bytes (3 :: u32) @ []) (enc_types []) = Panic"
  using malformed_length_panics [of 3 "[]" False "[]" "[]"] by simp

text \<open>
  C30: the two decoders of a type agree. Whatever bytes the decoder of the bulk upload accepts
  as a type entry, the decoder of the query by name accepts too, with the same type, fields,
  attributes, enum variants and methods.
\<close>

theorem by_name_agrees_with_bulk:
  assumes "decode_type_info oc ptr = Ok typ"
  shows "decode_type_info_by_name oc ptr = Ok typ"
  using ok_leD [OF ok_le_type assms] .

theorem by_name_agrees_with_bulk_witness:
  "decode_type_info_by_name True (enc_type sample_type) = Ok sample_type"
  using by_name_agrees_with_bulk [of True "enc_type sample_type" sample_type]
    type_entry.dec_entry [OF sample_type_valid] by simp

end
