(* ===== verification/Teardown.thy ===== *)
theory Teardown
  imports Shared
begin

text \<open>
  The interleavings of the methods of \<open>Shared\<close> (\<open>src/core/client.rs\<close>). Each of the two maps has
  a mutex of its own and \<open>closed\<close> has none that a critical section holds, so the connection may
  end between the check and the insertion of \<open>register\<close> or \<open>subscribe\<close>, and \<open>tear_down\<close> works in
  four steps between which other threads run. A step \<open>step t\<close> of the relation is one access of
  the thread \<open>t\<close> to the shared state; a thread that waits for a mutex has no step.

  \<open>asked\<close> holds the channels of the requests that still wait or were answered: \<open>register\<close> adds
  one, dropping the guard before an answer removes it. \<open>made\<close> holds the channels ever created.
\<close>

datatype Doing =
    Idle
  | Registering u32 nat
  | Inserting u32 nat
  | Subscribing u32 nat
  | Enrolling u32 nat
  | Closing error
  | Answering error "(u32 \<times> nat) list"
  | Replying nat reply

record Threads =
  shared_state :: Shared
  commands_lock :: "nat option"
  subscribers_lock :: "nat option"
  doing :: "nat \<Rightarrow> Doing"
  asked :: "nat set"
  made :: "nat set"

definition threads_new :: Threads where
  "threads_new =
     \<lparr>shared_state = shared_new, commands_lock = None, subscribers_lock = None,
      doing = (\<lambda>_. Idle), asked = {}, made = {}\<rparr>"

definition upd_state :: "(Shared \<Rightarrow> Shared) \<Rightarrow> Threads \<Rightarrow> Threads" where
  "upd_state f s = s\<lparr>shared_state := f (shared_state s)\<rparr>"

definition now_doing :: "nat \<Rightarrow> Doing \<Rightarrow> Threads \<Rightarrow> Threads" where
  "now_doing t d s = s\<lparr>doing := (doing s)(t := d)\<rparr>"

text \<open>The request under an invoke ID, if any, is no longer asked for: its sender is dropped.\<close>

definition forget :: "u32 \<Rightarrow> Threads \<Rightarrow> Threads" where
  "forget i s = s\<lparr>asked := asked s - {tx. map_of (commands (shared_state s)) i = Some tx}\<rparr>"

text \<open>The reader task takes the request of a reply off the map, and then sends the reply.\<close>

inductive reader_step :: "nat \<Rightarrow> Threads \<Rightarrow> Threads \<Rightarrow> bool" for t where
  reply_take: "doing s t = Idle \<Longrightarrow> commands_lock s = None \<Longrightarrow>
    map_of (commands (shared_state s)) i = Some tx \<Longrightarrow>
    reader_step t s (now_doing t (Replying tx (Inr r)) (upd_state (drop_pending i) s))"
| reply_send: "doing s t = Replying tx r \<Longrightarrow>
    reader_step t s (now_doing t Idle (upd_state (send_reply tx r) s))"

text \<open>\<open>delete_notification\<close>, once the PLC has confirmed.\<close>

inductive unsubscribe_step :: "nat \<Rightarrow> Threads \<Rightarrow> Threads \<Rightarrow> bool" for t where
  unsubscribe: "doing s t = Idle \<Longrightarrow> subscribers_lock s = None \<Longrightarrow>
    unsubscribe_step t s (upd_state (\<lambda>sh. sh\<lparr>subscribers := AList.delete h (subscribers sh)\<rparr>) s)"

text \<open>The methods of \<open>Shared\<close> and the guard of a request, among the threads of the two above.\<close>

inductive step :: "nat \<Rightarrow> Threads \<Rightarrow> Threads \<Rightarrow> bool" for t where
  register_lock: "doing s t = Idle \<Longrightarrow> commands_lock s = None \<Longrightarrow> tx \<notin> made s \<Longrightarrow>
    step t s (now_doing t (Registering i tx) (s\<lparr>commands_lock := Some t, made := insert tx (made s)\<rparr>))"
| register_refuse: "doing s t = Registering i tx \<Longrightarrow> is_closed (shared_state s) \<Longrightarrow>
    step t s (now_doing t Idle (s\<lparr>commands_lock := None\<rparr>))"
| register_check: "doing s t = Registering i tx \<Longrightarrow> \<not> is_closed (shared_state s) \<Longrightarrow>
    step t s (now_doing t (Inserting i tx) s)"
| register_insert: "doing s t = Inserting i tx \<Longrightarrow>
    step t s (now_doing t Idle (upd_state (\<lambda>sh. sh\<lparr>commands := AList.update i tx (commands sh)\<rparr>)
      ((forget i s)\<lparr>commands_lock := None, asked := insert tx (asked (forget i s))\<rparr>)))"
| drop_request: "doing s t = Idle \<Longrightarrow> commands_lock s = None \<Longrightarrow>
    step t s (upd_state (drop_pending i) (forget i s))"
| subscribe_lock: "doing s t = Idle \<Longrightarrow> subscribers_lock s = None \<Longrightarrow>
    step t s (now_doing t (Subscribing h ch) (s\<lparr>subscribers_lock := Some t\<rparr>))"
| subscribe_refuse: "doing s t = Subscribing h ch \<Longrightarrow> is_closed (shared_state s) \<Longrightarrow>
    step t s (now_doing t Idle (s\<lparr>subscribers_lock := None\<rparr>))"
| subscribe_check: "doing s t = Subscribing h ch \<Longrightarrow> \<not> is_closed (shared_state s) \<Longrightarrow>
    step t s (now_doing t (Enrolling h ch) s)"
| subscribe_insert: "doing s t = Enrolling h ch \<Longrightarrow>
    step t s (now_doing t Idle (upd_state (\<lambda>sh. sh\<lparr>subscribers := AList.update h ch (subscribers sh)\<rparr>)
      (s\<lparr>subscribers_lock := None\<rparr>)))"
| close_first: "doing s t = Idle \<Longrightarrow> \<not> is_closed (shared_state s) \<Longrightarrow>
    step t s (now_doing t (Closing reason) (upd_state (\<lambda>sh. sh\<lparr>closed := Some (error_clone reason)\<rparr>) s))"
| close_take: "doing s t = Closing reason \<Longrightarrow> commands_lock s = None \<Longrightarrow>
    step t s (now_doing t (Answering reason (commands (shared_state s)))
      (upd_state (\<lambda>sh. sh\<lparr>commands := []\<rparr>) s))"
| close_send: "doing s t = Answering reason ((i, tx) # pending) \<Longrightarrow>
    step t s (now_doing t (Answering reason pending) (upd_state (send_reply tx (Inl (error_clone reason))) s))"
| close_clear: "doing s t = Answering reason [] \<Longrightarrow> subscribers_lock s = None \<Longrightarrow>
    step t s (now_doing t Idle (upd_state (\<lambda>sh. sh\<lparr>subscribers := []\<rparr>) s))"
| reader: "reader_step t s s' \<Longrightarrow> step t s s'"
| unsubscriber: "unsubscribe_step t s s' \<Longrightarrow> step t s s'"

abbreviation steps :: "Threads \<Rightarrow> Threads \<Rightarrow> bool" where
  "steps \<equiv> (\<lambda>s s'. \<exists>t. step t s s')\<^sup>*\<^sup>*"

lemmas other_steps = reader_step.cases unsubscribe_step.cases

lemma step_first: "step t s s' \<Longrightarrow> steps s' s'' \<Longrightarrow> steps s s''"
  by (rule converse_rtranclp_into_rtranclp, rule exI)

lemma step_last: "steps s s' \<Longrightarrow> step t s' s'' \<Longrightarrow> steps s s''"
  by (rule rtranclp.rtrancl_into_rtrancl, assumption, rule exI)

section \<open>Runs without interference\<close>

text \<open>The methods of theory \<open>Shared\<close> are runs of one thread.\<close>

lemma threads_eqI:
  "shared_state s = shared_state s' \<Longrightarrow> commands_lock s = commands_lock s' \<Longrightarrow>
   subscribers_lock s = subscribers_lock s' \<Longrightarrow> doing s = doing s' \<Longrightarrow> asked s = asked s' \<Longrightarrow>
   made s = made s' \<Longrightarrow> s = (s' :: Threads)"
  by (cases s; cases s') simp

lemmas thread_defs = upd_state_def now_doing_def forget_def

lemma answer_all:
  "doing s t = Answering reason pending \<Longrightarrow>
   steps s (now_doing t (Answering reason [])
     (upd_state (fold (\<lambda>(_, reply). send_reply reply (Inl (error_clone reason))) pending) s))"
proof (induction pending arbitrary: s)
  case Nil
  then have "now_doing t (Answering reason []) (upd_state (fold (\<lambda>(_, reply). send_reply reply
      (Inl (error_clone reason))) []) s) = s"
    by (intro threads_eqI) (auto simp: thread_defs)
  then show ?case by (simp add: id_def)
next
  case (Cons p pending)
  obtain i tx where p: "p = (i, tx)" by fastforce
  let ?s = "now_doing t (Answering reason pending) (upd_state (send_reply tx (Inl (error_clone reason))) s)"
  have "steps ?s (now_doing t (Answering reason []) (upd_state (fold (\<lambda>(_, reply). send_reply reply
      (Inl (error_clone reason))) pending) ?s))"
    by (rule Cons.IH) (simp add: now_doing_def)
  from step_first [OF close_send [OF Cons.prems [unfolded p]] this] show ?case
    by (simp add: p thread_defs)
qed

lemma register_runs:
  assumes idle: "doing s t = Idle" "commands_lock s = None" "tx \<notin> made s"
  shows "\<exists>s'. steps s s' \<and> shared_state s' = snd (register i tx (shared_state s)) \<and> doing s' = doing s
        \<and> commands_lock s' = None \<and> subscribers_lock s' = subscribers_lock s
        \<and> (tx \<in> asked s' \<or> fst (register i tx (shared_state s)) = Err Disconnected)"
proof -
  note locked = register_lock [OF idle, of i]
  let ?s = "now_doing t (Registering i tx) (s\<lparr>commands_lock := Some t, made := insert tx (made s)\<rparr>)"
  have at: "doing ?s t = Registering i tx" "shared_state ?s = shared_state s"
    by (simp_all add: now_doing_def)
  show ?thesis
  proof (cases "is_closed (shared_state s)")
    case True
    have "steps s (now_doing t Idle (?s\<lparr>commands_lock := None\<rparr>))"
      by (rule step_first [OF locked step_first [OF register_refuse [OF at(1)]]]) (simp_all add: at(2) True)
    then show ?thesis
      using True idle(1) by (auto simp: thread_defs register_def fun_eq_iff intro!: exI)
  next
    case False
    let ?c = "now_doing t (Inserting i tx) ?s"
    have "doing ?c t = Inserting i tx" by (simp add: now_doing_def)
    note inserted = register_insert [OF this]
    have "steps s (now_doing t Idle (upd_state (\<lambda>sh. sh\<lparr>commands := AList.update i tx (commands sh)\<rparr>)
        ((forget i ?c)\<lparr>commands_lock := None, asked := insert tx (asked (forget i ?c))\<rparr>)))"
      by (rule step_first [OF locked step_first [OF register_check [OF at(1)] step_first [OF inserted]]])
        (simp_all add: at(2) False)
    then show ?thesis
      using False idle(1) by (auto simp: thread_defs register_def fun_eq_iff intro!: exI)
  qed
qed

lemma tear_down_runs:
  assumes idle: "doing s t = Idle" "commands_lock s = None" "subscribers_lock s = None"
  shows "\<exists>s'. steps s s' \<and> shared_state s' = tear_down reason (shared_state s) \<and> doing s' = doing s
        \<and> commands_lock s' = None \<and> subscribers_lock s' = None \<and> asked s' = asked s"
proof (cases "is_closed (shared_state s)")
  case True
  then show ?thesis using idle by (auto simp: tear_down_def is_closed_def)
next
  case False
  let ?m = "now_doing t (Closing reason) (upd_state (\<lambda>sh. sh\<lparr>closed := Some (error_clone reason)\<rparr>) s)"
  let ?a = "now_doing t (Answering reason (commands (shared_state s))) (upd_state (\<lambda>sh. sh\<lparr>commands := []\<rparr>) ?m)"
  let ?d = "now_doing t (Answering reason []) (upd_state (fold (\<lambda>(_, reply). send_reply reply
      (Inl (error_clone reason))) (commands (shared_state s))) ?a)"
  have first: "step t s ?m" using idle(1) False by (rule close_first)
  have take: "step t ?m ?a"
    using close_take [of ?m t reason] idle(2) by (simp add: thread_defs)
  have send: "steps ?a ?d" by (rule answer_all) (simp add: now_doing_def)
  have clear: "step t ?d (now_doing t Idle (upd_state (\<lambda>sh. sh\<lparr>subscribers := []\<rparr>) ?d))"
    using idle(3) by (intro close_clear [where reason = reason]) (simp_all add: thread_defs)
  have "steps s (now_doing t Idle (upd_state (\<lambda>sh. sh\<lparr>subscribers := []\<rparr>) ?d))"
    by (rule step_first [OF first step_first [OF take step_last [OF send clear]]])
  then show ?thesis
    using False idle by (auto simp: thread_defs tear_down_def Let_def is_closed_def fun_eq_iff intro!: exI)
qed

section \<open>The invariant\<close>

text \<open>
  What a thread is at: \<open>to_take\<close>, it has marked the connection as closed and not yet taken the
  requests; \<open>inserting\<close> and \<open>enrolling\<close>, it is past the check.
\<close>

fun to_take :: "Doing \<Rightarrow> bool" where
  "to_take (Closing e) = True"
| "to_take _ = False"

fun closing :: "Doing \<Rightarrow> bool" where
  "closing (Closing e) = True"
| "closing (Answering e ps) = True"
| "closing _ = False"

fun inserting :: "Doing \<Rightarrow> bool" where
  "inserting (Inserting i tx) = True"
| "inserting _ = False"

fun enrolling :: "Doing \<Rightarrow> bool" where
  "enrolling (Enrolling h ch) = True"
| "enrolling _ = False"

fun holds_commands :: "Doing \<Rightarrow> bool" where
  "holds_commands (Registering i tx) = True"
| "holds_commands (Inserting i tx) = True"
| "holds_commands _ = False"

fun holds_subscribers :: "Doing \<Rightarrow> bool" where
  "holds_subscribers (Subscribing h ch) = True"
| "holds_subscribers (Enrolling h ch) = True"
| "holds_subscribers _ = False"

text \<open>The channels a thread is about to send on.\<close>

fun sending :: "Doing \<Rightarrow> nat set" where
  "sending (Answering e ps) = snd ` set ps"
| "sending (Replying tx r) = {tx}"
| "sending _ = {}"

text \<open>Whoever is in a critical section holds its mutex.\<close>

definition locks_ok :: "Threads \<Rightarrow> bool" where
  "locks_ok s \<longleftrightarrow> (\<forall>t. holds_commands (doing s t) \<longleftrightarrow> commands_lock s = Some t)
     \<and> (\<forall>t. holds_subscribers (doing s t) \<longleftrightarrow> subscribers_lock s = Some t)"

text \<open>Only one thread ends the connection, and nothing is inserted behind its back.\<close>

definition one_closes :: "Threads \<Rightarrow> bool" where
  "one_closes s \<longleftrightarrow> (\<forall>t u. closing (doing s t) \<longrightarrow> closing (doing s u) \<longrightarrow> t = u)
     \<and> (\<forall>t. closing (doing s t) \<longrightarrow> is_closed (shared_state s))"

definition no_late_request :: "Threads \<Rightarrow> bool" where
  "no_late_request s \<longleftrightarrow> is_closed (shared_state s) \<and> \<not> (\<exists>t. to_take (doing s t)) \<longrightarrow>
     commands (shared_state s) = [] \<and> \<not> (\<exists>t. inserting (doing s t))"

definition no_late_subscriber :: "Threads \<Rightarrow> bool" where
  "no_late_subscriber s \<longleftrightarrow> is_closed (shared_state s) \<and> \<not> (\<exists>t. closing (doing s t)) \<longrightarrow>
     subscribers (shared_state s) = [] \<and> \<not> (\<exists>t. enrolling (doing s t))"

text \<open>A request that is asked for is registered, or about to be answered, or answered.\<close>

definition requests_ok :: "Threads \<Rightarrow> bool" where
  "requests_ok s \<longleftrightarrow> (\<forall>tx\<in>asked s. tx \<in> ran (map_of (commands (shared_state s)))
     \<or> (\<exists>t. tx \<in> sending (doing s t)) \<or> replies (shared_state s) tx \<noteq> None)"

text \<open>An error that a request is answered with is the reason the connection ended for.\<close>

fun tells :: "error option \<Rightarrow> Doing \<Rightarrow> bool" where
  "tells reason (Closing e) = (reason = Some (error_clone e))"
| "tells reason (Answering e ps) = (reason = Some (error_clone e))"
| "tells reason (Replying tx r) = (\<exists>h. r = Inr h)"
| "tells reason _ = True"

definition reason_ok :: "Threads \<Rightarrow> bool" where
  "reason_ok s \<longleftrightarrow> (\<forall>t. tells (closed (shared_state s)) (doing s t))
     \<and> (\<forall>tx e. replies (shared_state s) tx = Some (Inl e) \<longrightarrow> closed (shared_state s) = Some e)"

lemma locks_ok_step: "step t s s' \<Longrightarrow> locks_ok s \<Longrightarrow> locks_ok s'"
proof (induction rule: step.induct)
  case (reader s s')
  then show ?case by cases (force simp: locks_ok_def thread_defs)+
next
  case (unsubscriber s s')
  then show ?case by cases (force simp: locks_ok_def thread_defs)+
qed (force simp: locks_ok_def thread_defs)+

text \<open>Each step is seen from the thread that moves: the others stay as they are.\<close>

definition elsewhere :: "Threads \<Rightarrow> nat \<Rightarrow> (Doing \<Rightarrow> bool) \<Rightarrow> bool" where
  "elsewhere s t P \<longleftrightarrow> (\<exists>u. u \<noteq> t \<and> P (doing s u))"

lemma somewhere: "(\<exists>u. P (doing s u)) \<longleftrightarrow> P (doing s t) \<or> elsewhere s t P"
  by (auto simp: elsewhere_def)

lemma elsewhere_moved [simp]:
  "elsewhere (now_doing t d s) t = elsewhere s t" "elsewhere (upd_state f s) u = elsewhere s u"
  "elsewhere (s\<lparr>commands_lock := l\<rparr>) u = elsewhere s u" "elsewhere (s\<lparr>subscribers_lock := l\<rparr>) u = elsewhere s u"
  "elsewhere (s\<lparr>asked := q\<rparr>) u = elsewhere s u" "elsewhere (s\<lparr>made := q\<rparr>) u = elsewhere s u"
  "elsewhere (forget i s) u = elsewhere s u"
  by (auto simp: elsewhere_def thread_defs fun_eq_iff)

lemma thread_fields [simp]:
  "doing (now_doing t d s) = (doing s)(t := d)" "asked (now_doing t d s) = asked s"
  "shared_state (now_doing t d s) = shared_state s" "doing (upd_state f s) = doing s"
  "asked (upd_state f s) = asked s" "shared_state (upd_state f s) = f (shared_state s)"
  "doing (forget i s) = doing s" "shared_state (forget i s) = shared_state s"
  "asked (forget i s) = asked s - {tx. map_of (commands (shared_state s)) i = Some tx}"
  by (simp_all add: thread_defs)

lemma is_closed_upd [simp]:
  "is_closed (sh\<lparr>commands := c\<rparr>) = is_closed sh" "is_closed (sh\<lparr>subscribers := c'\<rparr>) = is_closed sh"
  "is_closed (sh\<lparr>closed := Some e\<rparr>)" "is_closed (drop_pending i sh) = is_closed sh"
  "is_closed (send_reply tx r sh) = is_closed sh" "is_closed (sh\<lparr>replies := rs\<rparr>) = is_closed sh"
  by (simp_all add: is_closed_def drop_pending_def send_reply_def)

lemma no_late_request_at:
  "no_late_request s \<longleftrightarrow> (is_closed (shared_state s) \<and> \<not> (to_take (doing s t) \<or> elsewhere s t to_take) \<longrightarrow>
     commands (shared_state s) = [] \<and> \<not> (inserting (doing s t) \<or> elsewhere s t inserting))"
  unfolding no_late_request_def somewhere [where t = t] ..

lemma no_late_subscriber_at:
  "no_late_subscriber s \<longleftrightarrow> (is_closed (shared_state s) \<and> \<not> (closing (doing s t) \<or> elsewhere s t closing) \<longrightarrow>
     subscribers (shared_state s) = [] \<and> \<not> (enrolling (doing s t) \<or> elsewhere s t enrolling))"
  unfolding no_late_subscriber_def somewhere [where t = t] ..

lemma one_closes_step: "step t s s' \<Longrightarrow> one_closes s \<Longrightarrow> one_closes s'"
  by (induction rule: step.induct) (auto simp: one_closes_def elim!: other_steps, (metis closing.simps)+)

lemma no_late_request_step: "step t s s' \<Longrightarrow> locks_ok s \<Longrightarrow> no_late_request s \<Longrightarrow> no_late_request s'"
proof (induction rule: step.induct)
  case (close_take s reason)
  then have "\<not> elsewhere s t inserting"
    unfolding locks_ok_def elsewhere_def by (metis holds_commands.simps(2) inserting.elims(2) option.distinct(1))
  then show ?case by (auto simp: no_late_request_def elsewhere_def)
qed (auto simp: no_late_request_at [where t = t] drop_pending_def send_reply_def
    elim!: other_steps)

lemma no_late_subscriber_step:
  "step t s s' \<Longrightarrow> locks_ok s \<Longrightarrow> one_closes s \<Longrightarrow> no_late_subscriber s \<Longrightarrow> no_late_subscriber s'"
proof (induction rule: step.induct)
  case (close_clear s reason)
  then have "\<not> elsewhere s t enrolling"
    unfolding locks_ok_def elsewhere_def by (metis holds_subscribers.simps(2) enrolling.elims(2) option.distinct(1))
  then show ?case by (auto simp: no_late_subscriber_def elsewhere_def)
qed (auto simp: no_late_subscriber_at [where t = t] drop_pending_def send_reply_def
    elim!: other_steps)

lemma requests_ok_at:
  "requests_ok s \<longleftrightarrow> (\<forall>tx\<in>asked s. tx \<in> ran (map_of (commands (shared_state s)))
     \<or> tx \<in> sending (doing s t) \<or> elsewhere s t (\<lambda>d. tx \<in> sending d) \<or> replies (shared_state s) tx \<noteq> None)"
proof -
  have "(\<exists>u. tx \<in> sending (doing s u)) \<longleftrightarrow> tx \<in> sending (doing s t) \<or> elsewhere s t (\<lambda>d. tx \<in> sending d)" for tx
    by (rule somewhere)
  then show ?thesis by (simp add: requests_ok_def)
qed

lemma ran_upd: "ran (m(k \<mapsto> v)) = insert v (ran (m(k := None)))"
  by (auto simp: ran_def)

lemma ran_except: "v \<in> ran m \<Longrightarrow> m k \<noteq> Some v \<Longrightarrow> v \<in> ran (m(k := None))"
  by (auto simp: ran_def)

lemma requests_ok_reader: "reader_step t s s' \<Longrightarrow> requests_ok s \<Longrightarrow> requests_ok s'"
proof (induction rule: reader_step.induct)
  case (reply_take s i tx r)
  then have "v \<in> ran (map_of (commands (shared_state s))) \<Longrightarrow>
      v = tx \<or> v \<in> ran ((map_of (commands (shared_state s)))(i := None))" for v
    using ran_except [of v "map_of (commands (shared_state s))" i] by auto
  with reply_take show ?case
    by (auto simp: requests_ok_at [where t = t] drop_pending_def delete_conv')
next
  case (reply_send s tx r)
  then show ?case
    by (auto simp: requests_ok_at [where t = t] send_reply_def)
qed

lemma requests_ok_step: "step t s s' \<Longrightarrow> requests_ok s \<Longrightarrow> requests_ok s'"
proof (induction rule: step.induct)
  case (drop_request s i)
  then show ?case
    by (auto simp: requests_ok_at [where t = t] drop_pending_def delete_conv' dest: ran_except)
next
  case (close_take s reason)
  have "tx \<in> ran (map_of (commands (shared_state s))) \<Longrightarrow> tx \<in> snd ` set (commands (shared_state s))" for tx
    by (force simp: ran_def dest: map_of_SomeD)
  with close_take show ?case
    by (auto simp: requests_ok_at [where t = t])
next
  case (reader s s')
  then show ?case by (rule requests_ok_reader)
next
  case (unsubscriber s s')
  then show ?case by cases (simp add: requests_ok_def)
qed (auto simp: requests_ok_at [where t = t] send_reply_def update_conv' ran_upd
    split: if_splits dest: ran_except)

lemma tells_open: "tells reason d \<Longrightarrow> \<not> closing d \<Longrightarrow> tells reason' d"
  by (cases d) simp_all

lemma reason_ok_step:
  assumes "step t s s'" and "one_closes s" and "reason_ok s"
  shows "reason_ok s'"
  using assms
proof (induction rule: step.induct)
  case (close_first s reason)
  then have "closed (shared_state s) = None" "\<And>u. \<not> closing (doing s u)"
    by (auto simp: one_closes_def is_closed_def)
  with close_first.prems(2) show ?case
    by (auto simp: reason_ok_def intro: tells_open)
next
  case (close_send s reason i tx pending)
  then have "closed (shared_state s) = Some (error_clone reason)"
    by (metis reason_ok_def tells.simps(2))
  with close_send.prems(2) show ?case
    by (simp add: reason_ok_def send_reply_def)
next
  case (reader s s')
  then show ?case
  proof (induction rule: reader_step.induct)
    case (reply_send s tx r)
    then have "\<exists>h. r = Inr h"
      by (metis reason_ok_def tells.simps(3))
    with reply_send.prems(2) show ?case
      by (auto simp: reason_ok_def send_reply_def)
  qed (simp add: reason_ok_def drop_pending_def)
next
  case (unsubscriber s s')
  then show ?case
    by cases (simp add: reason_ok_def)
qed (simp_all add: reason_ok_def drop_pending_def, (metis tells.simps)?)

lemma invariant_reachable:
  "steps threads_new s \<Longrightarrow> locks_ok s \<and> one_closes s \<and> no_late_request s \<and> no_late_subscriber s \<and> requests_ok s \<and> reason_ok s"
proof (induction rule: rtranclp_induct)
  case base
  show ?case
    by (simp add: threads_new_def locks_ok_def one_closes_def no_late_request_def no_late_subscriber_def
        requests_ok_def reason_ok_def shared_new_def is_closed_def)
next
  case (step s s')
  then show ?case
    by (blast intro: locks_ok_step one_closes_step no_late_request_step no_late_subscriber_step
        requests_ok_step reason_ok_step)
qed

section \<open>No thread is stuck, no request is stranded\<close>

text \<open>A step of a thread that is at work, as opposed to one that takes up something new.\<close>

definition busy_step :: "Threads \<Rightarrow> Threads \<Rightarrow> bool" where
  "busy_step s s' \<longleftrightarrow> (\<exists>t. doing s t \<noteq> Idle \<and> step t s s')"

lemma busyI: "step t s s' \<Longrightarrow> doing s t \<noteq> Idle \<Longrightarrow> \<exists>s'. busy_step s s'"
  by (auto simp: busy_step_def)

lemma holder_steps:
  assumes "holds_commands (doing s t) \<or> holds_subscribers (doing s t)"
  shows "\<exists>s'. busy_step s s'"
proof -
  have "\<exists>s'. step t s s'"
    using assms by (cases "doing s t"; cases "is_closed (shared_state s)")
      (auto intro: register_refuse register_check register_insert subscribe_refuse
        subscribe_check subscribe_insert)
  moreover have "doing s t \<noteq> Idle"
    using assms by auto
  ultimately show ?thesis
    using busyI by blast
qed

lemma busy_steps:
  assumes "locks_ok s" "doing s t \<noteq> Idle"
  shows "\<exists>s'. busy_step s s'"
proof -
  have held: "\<exists>s'. busy_step s s'" if "commands_lock s = Some u \<or> subscribers_lock s = Some u" for u
    using that assms(1) unfolding locks_ok_def by (intro holder_steps [of s u]) simp
  consider u where "commands_lock s = Some u \<or> subscribers_lock s = Some u"
    | "commands_lock s = None" "subscribers_lock s = None"
    by (cases "commands_lock s"; cases "subscribers_lock s") auto
  then show ?thesis
  proof cases
    case 1
    then show ?thesis by (rule held)
  next
    case free: 2
    show ?thesis
    proof (cases "doing s t")
      case (Closing e)
      from busyI [OF close_take [OF Closing free(1)] assms(2)] show ?thesis .
    next
      case (Answering e ps)
      show ?thesis
      proof (cases ps)
        case Nil
        with Answering have "doing s t = Answering e []" by simp
        from busyI [OF close_clear [OF this free(2)] assms(2)] show ?thesis .
      next
        case (Cons p pending)
        obtain i tx where "p = (i, tx)" by fastforce
        with Answering Cons have "doing s t = Answering e ((i, tx) # pending)" by simp
        from busyI [OF close_send [OF this] assms(2)] show ?thesis .
      qed
    next
      case (Replying tx r)
      from busyI [OF reader [OF reply_send [OF this]] assms(2)] show ?thesis .
    qed (use assms(2) holder_steps [of s t] in auto)
  qed
qed

text \<open>
  The steps the threads at work can still make: what each has before it, and one answer for
  every request that waits, which whoever ends the connection will send.
\<close>

fun steps_ahead :: "Doing \<Rightarrow> nat" where
  "steps_ahead Idle = 0"
| "steps_ahead (Registering i tx) = 3"
| "steps_ahead (Inserting i tx) = 2"
| "steps_ahead (Subscribing h ch) = 2"
| "steps_ahead (Enrolling h ch) = 1"
| "steps_ahead (Closing e) = 2"
| "steps_ahead (Answering e ps) = Suc (length ps)"
| "steps_ahead (Replying tx r) = 1"

definition at_work :: "Threads \<Rightarrow> nat set" where
  "at_work s = {t. doing s t \<noteq> Idle}"

definition work_left :: "Threads \<Rightarrow> nat" where
  "work_left s = (\<Sum>t\<in>at_work s. steps_ahead (doing s t)) + length (commands (shared_state s))"

definition work_of_others :: "Threads \<Rightarrow> nat \<Rightarrow> nat" where
  "work_of_others s t = (\<Sum>u\<in>at_work s - {t}. steps_ahead (doing s u))"

lemma work_left_at:
  assumes "finite (at_work s)"
  shows "work_left s = steps_ahead (doing s t) + work_of_others s t + length (commands (shared_state s))"
proof (cases "t \<in> at_work s")
  case True
  then show ?thesis
    using assms by (simp add: work_left_def work_of_others_def sum.remove)
next
  case False
  then show ?thesis
    by (simp add: work_left_def work_of_others_def at_work_def)
qed

lemma work_of_others_cong: "(\<And>u. u \<noteq> t \<Longrightarrow> doing s' u = doing s u) \<Longrightarrow> work_of_others s' t = work_of_others s t"
  by (auto simp: work_of_others_def at_work_def intro!: sum.cong)

lemma step_others: "step t s s' \<Longrightarrow> u \<noteq> t \<Longrightarrow> doing s' u = doing s u"
  by (induction rule: step.induct) (auto simp: thread_defs elim!: other_steps)

lemma at_work_step: "step t s s' \<Longrightarrow> at_work s' \<subseteq> insert t (at_work s)"
  using step_others by (auto simp: at_work_def)

lemma length_update: "length (AList.update k v al) \<le> Suc (length al)"
  by (induction al) auto

lemma step_work:
  assumes "step t s s'" and "doing s t \<noteq> Idle"
  shows "steps_ahead (doing s' t) + length (commands (shared_state s'))
    < steps_ahead (doing s t) + length (commands (shared_state s))"
  using assms
proof (induction rule: step.induct)
  case (register_insert s i tx)
  then show ?case
    using length_update [of i tx "commands (shared_state s)"] by simp
next
  case (reader s s')
  then show ?case by cases (simp_all add: send_reply_def)
next
  case (unsubscriber s s')
  then show ?case by cases simp
qed (simp_all add: send_reply_def)

lemma busy_step_work:
  assumes "busy_step s s'" and "finite (at_work s)"
  shows "work_left s' < work_left s" and "finite (at_work s')"
proof -
  obtain t where t: "doing s t \<noteq> Idle" "step t s s'"
    using assms(1) by (auto simp: busy_step_def)
  show "finite (at_work s')"
    using at_work_step [OF t(2)] assms(2) by (meson finite.insertI finite_subset)
  then show "work_left s' < work_left s"
    using work_left_at [of s t] work_left_at [of s' t] assms(2) step_work [OF t(2,1)]
      work_of_others_cong [of t s' s] step_others [OF t(2)] by simp
qed

lemma busy_runs_bounded: "(busy_step ^^ n) s s' \<Longrightarrow> finite (at_work s) \<Longrightarrow> n + work_left s' \<le> work_left s"
proof (induction n arbitrary: s')
  case (Suc n)
  then obtain s1 where s1: "(busy_step ^^ n) s s1" "busy_step s1 s'"
    by auto
  have "finite (at_work s1)"
    using s1(1) Suc.prems(2) by (induction n arbitrary: s1) (auto dest: busy_step_work(2))
  with Suc.IH [OF s1(1) Suc.prems(2)] busy_step_work(1) [OF s1(2)] show ?case
    by simp
qed simp

lemma finite_reachable: "steps threads_new s \<Longrightarrow> finite (at_work s)"
proof (induction rule: rtranclp_induct)
  case base
  show ?case by (simp add: at_work_def threads_new_def)
next
  case (step s s')
  then show ?case
    using at_work_step by (meson finite.insertI finite_subset)
qed

lemma busy_steps_steps: "busy_step\<^sup>*\<^sup>* s s' \<Longrightarrow> steps s s'"
  by (rule rtranclp_mono [THEN predicate2D]) (auto simp: busy_step_def)

lemma rest_reachable:
  assumes "steps threads_new s" "busy_step\<^sup>*\<^sup>* s s' \<and> \<not> (\<exists>s''. busy_step s' s'')"
  shows "steps threads_new s'" and "doing s' t = Idle"
proof -
  show reach: "steps threads_new s'"
    using assms busy_steps_steps by (meson rtranclp_trans)
  show "doing s' t = Idle"
    using busy_steps invariant_reachable [OF reach] assms(2) by blast
qed

lemma rest_answered:
  assumes "steps threads_new s" "busy_step\<^sup>*\<^sup>* s s' \<and> \<not> (\<exists>s''. busy_step s' s'')"
    and ended: "is_closed (shared_state s')"
  shows "commands (shared_state s') = [] \<and> subscribers (shared_state s') = []
    \<and> (\<forall>tx\<in>asked s'. (\<exists>frame. replies (shared_state s') tx = Some (Inr frame))
         \<or> replies (shared_state s') tx = map_option Inl (closed (shared_state s')))"
proof -
  note inv = invariant_reachable [OF rest_reachable(1) [OF assms(1,2)]]
    and idle = rest_reachable(2) [OF assms(1,2)]
  have "commands (shared_state s') = []" "subscribers (shared_state s') = []"
    using inv ended by (simp_all add: idle no_late_request_def no_late_subscriber_def)
  moreover from this have "\<exists>r. replies (shared_state s') tx = Some r" if "tx \<in> asked s'" for tx
    using inv that by (simp add: idle requests_ok_def)
  moreover have "replies (shared_state s') tx = Some (Inl e) \<Longrightarrow> closed (shared_state s') = Some e" for tx e
    using inv by (simp add: reason_ok_def)
  ultimately show ?thesis
    by (metis Inl_Inr_False option.simps(9) sum.exhaust)
qed

text \<open>
  C5: tear-down reaches every request, and nothing blocks it. From any state the threads can reach,
  however those at work interleave from there: they make at most \<open>work_left\<close> more steps; they can only
  come to rest when all of them are done, so neither mutex is held for ever and a tear-down in
  progress always completes; and if the connection has ended by then, no request waits any more, no
  subscriber is left, and every request that was registered and not given up (by its guard, or
  because its invoke ID was registered again) has been answered: with a frame of the PLC, or with
  the reason the connection ended for.
\<close>

theorem no_request_stranded:
  assumes "steps threads_new s"
  shows "(\<forall>n s'. (busy_step ^^ n) s s' \<longrightarrow> n \<le> work_left s)
    \<and> (\<forall>s'. busy_step\<^sup>*\<^sup>* s s' \<and> \<not> (\<exists>s''. busy_step s' s'') \<longrightarrow>
        (\<forall>t. doing s' t = Idle)
        \<and> (is_closed (shared_state s') \<longrightarrow>
            commands (shared_state s') = [] \<and> subscribers (shared_state s') = []
            \<and> (\<forall>tx\<in>asked s'. (\<exists>frame. replies (shared_state s') tx = Some (Inr frame))
                 \<or> replies (shared_state s') tx = map_option Inl (closed (shared_state s')))))"
proof (intro conjI allI impI, goal_cases)
  case (1 n s')
  then show ?case
    using busy_runs_bounded finite_reachable [OF assms] by fastforce
next
  case (2 s' t)
  then show ?case
    using rest_reachable [OF assms] by blast
next
  case (3 s')
  then show ?case
    using rest_answered [OF assms] by blast
next
  case (4 s')
  then show ?case
    using rest_answered [OF assms] by blast
next
  case (5 s')
  then show ?case
    using rest_answered [OF assms] by blast
qed

text \<open>A request is registered and then the connection ends: the request is told.\<close>

theorem no_request_stranded_witness:
  "\<exists>s. steps threads_new s \<and> 7 \<in> asked s
    \<and> ((\<exists>frame. replies (shared_state s) 7 = Some (Inr frame))
       \<or> replies (shared_state s) 7 = map_option Inl (closed (shared_state s)))
    \<and> is_closed (shared_state s)"
proof -
  have "\<exists>s1. steps threads_new s1 \<and> shared_state s1 = snd (register 1 7 shared_new)
      \<and> doing s1 = (\<lambda>_. Idle) \<and> commands_lock s1 = None \<and> subscribers_lock s1 = None \<and> 7 \<in> asked s1"
    using register_runs [of threads_new 0 7 1]
    by (simp add: threads_new_def register_def shared_new_def is_closed_def)
  then obtain s1 where s1: "steps threads_new s1" "doing s1 = (\<lambda>_. Idle)" "commands_lock s1 = None"
      "subscribers_lock s1 = None" "7 \<in> asked s1"
    by blast
  with tear_down_runs [of s1 0 Disconnected]
  obtain s2 where s2: "steps s1 s2" "shared_state s2 = tear_down Disconnected (shared_state s1)"
      "doing s2 = (\<lambda>_. Idle)" "asked s2 = asked s1"
    by auto
  with s1 have reach: "steps threads_new s2"
    by (meson rtranclp_trans)
  moreover have "busy_step\<^sup>*\<^sup>* s2 s2 \<and> \<not> (\<exists>s''. busy_step s2 s'')"
    using s2(3) by (simp add: busy_step_def)
  moreover have "is_closed (shared_state s2)"
    using s2(2) by simp
  ultimately show ?thesis
    using no_request_stranded [OF reach] s1(5) s2(4) by blast
qed

end
