(* ===== verification/Spec2Isabelle.thy ===== *)
theory Spec2Isabelle
  imports Delivery SymWire Teardown
begin

text \<open>
  A verification library for \<open>openstar-ads\<close>, an asynchronous client of the ADS protocol of Beckhoff
  PLCs, written in Rust.

  \<^bold>\<open>The program.\<close> An \<open>Ads\<close> (\<open>src/ads.rs\<close>) holds a connection (\<open>src/connection.rs\<close>), which is nothing
  or a \<open>Client\<close> (\<open>src/core/client.rs\<close>), and a cache of symbol handles. A client owns the writing
  half of a TCP socket and shares a state with its reader task, which owns the reading half: the
  map from invoke IDs to the one-shot channels of the requests that wait, the map from
  notification handles to the channels of the subscribers, and why the connection ended. Every
  ADS command goes through \<open>communicate\<close>, which registers the request, writes it, waits for the
  reader to hand it the reply, and checks the reply. Notifications (\<open>src/core/notification.rs\<close>)
  go from the reader to the subscribers. The symbol modules (\<open>src/symbol/\<close>) decode the PLC's symbol and
  type tables, build the type tree of a symbol, and read a symbol's bytes either as a tree or
  as a flat map of values.

  \<^bold>\<open>The theories\<close>, from the bottom up, and the code each models:
  \<^item> \<open>Prelude\<close>: words, the little-endian codec, shared lemmas. \<open>Errors\<close> (\<open>error.rs\<close>): errors, outcomes
    (\<open>Ok\<close>, \<open>Err\<close>, \<open>Panic\<close>) and their composition, the table of ADS result codes. \<open>Text\<close>: what is used of the
    standard library's text operations. \<open>Cursor\<close>: reading from a shrinking slice, and the
    interface \<open>wire_codec\<close> between encoders and decoders.
  \<^item> \<open>NetId\<close> (\<open>core/netid.rs\<close>): addresses. \<open>Protocol\<close> (\<open>core/protocol.rs\<close>, \<open>core/index.rs\<close>): the packed
    structures and their images. \<open>Notification\<close> (\<open>core/notification.rs\<close>): the validating pass and the
    iterator that trusts it.
  \<^item> \<open>Shared\<close>, \<open>Client\<close>, \<open>Reader\<close>, \<open>Dial\<close> (all \<open>core/client.rs\<close>): the shared state with each method as one
    step, the commands, the reader task, and \<open>Client::new\<close>. \<open>Teardown\<close>: the same methods of \<open>Shared\<close>
    cut into their accesses, as a step relation with any number of threads. \<open>Session\<close>: what
    every command keeps, and an environment for a client (\<open>stream_env\<close>, in which \<open>reader_feed\<close> is the
    reader up to the bytes that have arrived): its peer is a function from requests to bytes.
    It is not code of the repository but an instance of the client's parameter.
  \<^item> \<open>SymType\<close> (\<open>symbol/type.rs\<close>): tables and decoders; \<open>SymWire\<close>: the formats as encoders. \<open>TypeTree\<close>,
    \<open>SymbolTree\<close>, \<open>SymbolMap\<close> (\<open>symbol/type_tree.rs\<close>, \<open>tree.rs\<close>, \<open>map.rs\<close>).
  \<^item> \<open>DataTypes\<close> (\<open>data_types/\<close>, \<open>params.rs\<close>), \<open>Connection\<close> (\<open>connection.rs\<close>), \<open>Ads\<close> (\<open>ads.rs\<close>).
  \<^item> \<open>Delivery\<close>: the properties that span the components.

  State is a record with the code's fields; an operation takes the state and returns the outcome
  and the new state. A function of the code that is longer than a screen is cut at its blocks,
  each block a definition. A \<open>BTreeMap\<close>, a \<open>HashMap\<close> that is iterated over and an \<open>IndexMap\<close> are association lists
  with distinct keys, other maps are maps; integers are words of their width.

  \<^bold>\<open>What is proved.\<close>
  \<^item> Requests: on whatever bytes the reader finds, every request gets the first frame that answers
    it or the reason the connection ended, unless the reader panics; however the accesses of
    registration, replies and tear-down interleave, the threads at work finish within a bounded
    number of steps, and no request is stranded on a connection that has ended; \<open>communicate\<close>
    returns the check of its own reply, leaves nothing registered, refuses at once on a closed
    connection, and gives a silent peer up after three requests.
  \<^item> Invariants: the maps have distinct keys, queues hold at most 32 messages, a closed
    connection stays closed for its reason; as long as one task uses the \<open>Ads\<close>, a cached handle came
    from the client that is connected.
  \<^item> Subscriptions: once \<open>subscribe\<close> has returned, what a subscriber receives is what the PLC sent
    for its handle, in order, less what arrives while 32 messages wait unread. What arrives
    before, between the PLC's reply and the insertion of the handle, has no subscriber yet and
    is dropped, by the code and by the model.
  \<^item> Symbols: decoding is inverse to the format; a type tree is built within the depth of an
    acyclic type map; the value at a path is what its type reads at the sum of the offsets;
    the flat map and the tree agree.
  \<^item> Round trips of addresses and notifications, what the string type does to a string, and the
    branches on which the code panics or goes wrong: they are stated as theorems too. The images
    of the packed structures and of the data types follow the layout that \<open>zerocopy\<close> derives from
    their declarations; that they are read back is a lemma of the library, not a claim.

  \<^bold>\<open>Interfaces.\<close> \<open>wire_codec\<close>, \<open>exact_codec\<close>, \<open>wire_skipper\<close>, \<open>entry_codec\<close> and \<open>pod\<close> (encoders and decoders),
  \<open>text_codec\<close> (printing and parsing), \<open>ads_data\<close> (the trait of the data
  types), \<open>reader_invariant\<close> (what the reader keeps), \<open>client_environment\<close> and \<open>session_invariant\<close> (what
  the commands keep), \<open>ads_invariant\<close> (what the calls of an \<open>Ads\<close> keep); each is interpreted on the
  model's own definitions, and the properties rest on the interpretations.

  \<^bold>\<open>Parameters.\<close> Code that is not in the repository is an argument: the socket and the other tasks
  (\<open>Env\<close>), the network (\<open>Dialer\<close>), name resolution, the calendar of \<open>chrono\<close>, the conversion of 80-bit
  floats, \<open>str::to_lowercase\<close>, and whether the build checks overflow (\<open>oc\<close>). What the other users of an \<open>Ads\<close>
  do while a call waits for the PLC, or between two attempts to connect, is the function \<open>others\<close>.

  \<^bold>\<open>Fuel.\<close> Two definitions take fuel. \<open>try_from_type_or_field\<close> takes the depth it may go down:
  the depth of an acyclic type map is enough (\<open>acyclic_types_build\<close>), and for a cyclic one no
  fuel is (\<open>cyclic_types_diverge\<close>). \<open>connect_with_retry\<close> takes the number of attempts, and returns
  exactly when one of them does not fail (\<open>connect_with_retry_ends\<close>). All other loops are total functions:
  the reader's because every turn takes at least six bytes, the decoders' because every entry
  takes at least four.

  \<^bold>\<open>Not modelled.\<close> Log messages, the \<open>Debug\<close> and \<open>Display\<close> texts except those of addresses, and the
  crate's re-exports have no behaviour that the rest relies on. Unit tests and the test server
  are not part of the library. \<open>stop\<close> and \<open>Drop\<close> of the reader task are steps of the environment.
  A future that is dropped before it completes is modelled for the guard of a request (theory
  \<open>Teardown\<close>), not for the commands. \<open>Ads::disconnect\<close> and \<open>Ads::connect\<close> run without interference,
  although the code locks the cache and the connection one after the other.
\<close>

end
